(* ===== verification/Logryph_Prelude.thy ===== *)
theory Logryph_Prelude
  imports Main "HOL-Library.Word" "HOL-Library.Char_ord" "HOL-Library.List_Lexorder"
begin

text \<open>
  Shared ground of the development: how a Go call ends (a value, an error, a panic), Go error
  values, Go maps with string keys, decimal and padded numbers, and the list lemmas the
  components share.
\<close>

named_theorems outcome_simps \<open>reading how a call ended\<close>
named_theorems gomap_simps \<open>look-up, update and deletion on Go maps\<close>

section \<open>Machine integers\<close>

type_synonym u64 = "64 word"
type_synonym byte = "8 word"

section \<open>Errors and outcomes\<close>

text \<open>
  An \<^verbatim>\<open>error\<close> is a failed assertion (\<^verbatim>\<open>internal/assert\<close>), an error made by \<^verbatim>\<open>errors.New\<close> or by a
  library call, a run-time error of the Go language, or an error wrapped with
  \<^verbatim>\<open>fmt.Errorf("context: %w", err)\<close>.
\<close>

datatype error =
    AssertionFailed string
  | ErrorString string
  | RuntimeError string
  | Wrap string error

primrec error_msg :: "error \<Rightarrow> string" where
  "error_msg (AssertionFailed m) = ''ASSERTION FAILED: '' @ m"
| "error_msg (ErrorString m) = m"
| "error_msg (RuntimeError m) = ''runtime error: '' @ m"
| "error_msg (Wrap c e) = c @ '': '' @ error_msg e"

datatype 'a outcome = Ok 'a | Err error | Panic error

primrec bind_outcome :: "'a outcome \<Rightarrow> ('a \<Rightarrow> 'b outcome) \<Rightarrow> 'b outcome" where
  "bind_outcome (Ok x) f = f x"
| "bind_outcome (Err e) f = Err e"
| "bind_outcome (Panic e) f = Panic e"

primrec wrap_err :: "string \<Rightarrow> 'a outcome \<Rightarrow> 'a outcome" where
  "wrap_err c (Ok x) = Ok x"
| "wrap_err c (Err e) = Err (Wrap c e)"
| "wrap_err c (Panic e) = Panic e"

primrec is_ok :: "'a outcome \<Rightarrow> bool" where
  "is_ok (Ok x) = True"
| "is_ok (Err e) = False"
| "is_ok (Panic e) = False"

primrec is_panic :: "'a outcome \<Rightarrow> bool" where
  "is_panic (Ok x) = False"
| "is_panic (Err e) = False"
| "is_panic (Panic e) = True"

text \<open>A slice read: an index out of range is a run-time panic.\<close>

definition go_index :: "'a list \<Rightarrow> int \<Rightarrow> 'a outcome" where
  "go_index xs i =
     (if 0 \<le> i \<and> i < int (length xs) then Ok (xs ! nat i)
      else Panic (RuntimeError ''index out of range''))"

text \<open>A prefix slice \<^verbatim>\<open>s[:n]\<close> of a string or byte slice panics when it is too short.\<close>

definition go_prefix :: "nat \<Rightarrow> 'a list \<Rightarrow> 'a list outcome" where
  "go_prefix n xs =
     (if n \<le> length xs then Ok (take n xs)
      else Panic (RuntimeError ''slice bounds out of range''))"

section \<open>Go maps with string keys\<close>

text \<open>
  A Go \<^verbatim>\<open>map[string]T\<close> is kept in a canonical form, an association list strictly sorted by key
  (byte-wise, as Go compares strings), so that two maps with the same entries are equal.
  Go's iteration order is unspecified; definitions that iterate say which order they take.
\<close>

type_synonym 'v gomap = "(string \<times> 'v) list"

definition gm_wf :: "'v gomap \<Rightarrow> bool" where
  "gm_wf m \<longleftrightarrow> sorted_wrt (<) (map fst m)"

abbreviation gm_lookup :: "'v gomap \<Rightarrow> string \<Rightarrow> 'v option" where
  "gm_lookup \<equiv> map_of"

fun gm_update :: "string \<Rightarrow> 'v \<Rightarrow> 'v gomap \<Rightarrow> 'v gomap" where
  "gm_update k v [] = [(k, v)]"
| "gm_update k v ((k', v') # m) =
     (if k < k' then (k, v) # (k', v') # m
      else if k = k' then (k, v) # m
      else (k', v') # gm_update k v m)"

definition gm_delete :: "string \<Rightarrow> 'v gomap \<Rightarrow> 'v gomap" where
  "gm_delete k m = filter (\<lambda>(k', v). k' \<noteq> k) m"

fun gm_of_list :: "(string \<times> 'v) list \<Rightarrow> 'v gomap \<Rightarrow> 'v gomap" where
  "gm_of_list [] m = m"
| "gm_of_list ((k, v) # kvs) m = gm_of_list kvs (gm_update k v m)"

section \<open>Numbers as text\<close>

definition digit_char :: "nat \<Rightarrow> char" where
  "digit_char d = char_of (48 + d)"

fun show_nat :: "nat \<Rightarrow> string" where
  "show_nat n = (if n < 10 then [digit_char n] else show_nat (n div 10) @ [digit_char (n mod 10)])"

declare show_nat.simps [simp del]

definition show_int :: "int \<Rightarrow> string" where
  "show_int i = (if i < 0 then ''-'' @ show_nat (nat (- i)) else show_nat (nat i))"

primrec show_padded :: "nat \<Rightarrow> nat \<Rightarrow> string" where
  "show_padded 0 n = []"
| "show_padded (Suc w) n = show_padded w (n div 10) @ [digit_char (n mod 10)]"

definition is_digit :: "char \<Rightarrow> bool" where
  "is_digit c \<longleftrightarrow> 48 \<le> (of_char c :: nat) \<and> (of_char c :: nat) \<le> 57"

definition digit_val :: "char \<Rightarrow> nat" where
  "digit_val c = of_char c - 48"

definition read_digits :: "string \<Rightarrow> nat" where
  "read_digits s = foldl (\<lambda>a c. 10 * a + digit_val c) 0 s"

section \<open>Lemmas on outcomes\<close>

lemma bind_outcome_Ok_iff [outcome_simps]:
  "bind_outcome x f = Ok y \<longleftrightarrow> (\<exists>v. x = Ok v \<and> f v = Ok y)"
  by (cases x) auto

lemma bind_outcome_Err_iff:
  "bind_outcome x f = Err e \<longleftrightarrow> x = Err e \<or> (\<exists>v. x = Ok v \<and> f v = Err e)"
  by (cases x) auto

lemma case_outcome_Ok_iff:
  "(case x of Ok v \<Rightarrow> f v | Err e \<Rightarrow> g e | Panic e \<Rightarrow> h e) = Ok y \<longleftrightarrow>
     (\<exists>v. x = Ok v \<and> f v = Ok y) \<or> (\<exists>e. x = Err e \<and> g e = Ok y) \<or> (\<exists>e. x = Panic e \<and> h e = Ok y)"
  by (cases x) auto

lemma wrap_err_Ok_iff [outcome_simps]: "wrap_err c x = Ok y \<longleftrightarrow> x = Ok y"
  by (cases x) auto

lemma wrap_err_Panic_iff [outcome_simps]: "wrap_err c x = Panic e \<longleftrightarrow> x = Panic e"
  by (cases x) auto

lemma is_ok_iff [outcome_simps]: "is_ok x \<longleftrightarrow> (\<exists>v. x = Ok v)"
  by (cases x) auto

lemma is_panic_iff [outcome_simps]: "is_panic x \<longleftrightarrow> (\<exists>e. x = Panic e)"
  by (cases x) auto

lemma go_index_in_range [simp]:
  "0 \<le> i \<Longrightarrow> i < int (length xs) \<Longrightarrow> go_index xs i = Ok (xs ! nat i)"
  by (simp add: go_index_def)

section \<open>Lemmas on Go maps\<close>

lemma gm_wf_Nil [simp]: "gm_wf []"
  by (simp add: gm_wf_def)

lemma gm_wf_Cons:
  "gm_wf ((k, v) # m) \<longleftrightarrow> (\<forall>k' \<in> fst ` set m. k < k') \<and> gm_wf m"
  by (auto simp: gm_wf_def)

lemma gm_wf_distinct: "gm_wf m \<Longrightarrow> distinct (map fst m)"
  by (induction m) (auto simp: gm_wf_def)

lemma gm_update_keys [simp]: "fst ` set (gm_update k v m) = insert k (fst ` set m)"
  by (induction k v m rule: gm_update.induct) auto

lemma gm_wf_update [simp]: "gm_wf m \<Longrightarrow> gm_wf (gm_update k v m)"
proof (induction k v m rule: gm_update.induct)
  case (2 k v k' v' m)
  then show ?case by (auto simp: gm_wf_Cons)
qed (simp add: gm_wf_def)

lemma gm_lookup_update [simp, gomap_simps]:
  "gm_lookup (gm_update k v m) x = (if x = k then Some v else gm_lookup m x)"
  by (induction k v m rule: gm_update.induct) auto

lemma gm_lookup_delete [simp, gomap_simps]:
  "gm_lookup (gm_delete k m) x = (if x = k then None else gm_lookup m x)"
  by (induction m) (auto simp: gm_delete_def)

lemma gm_wf_delete [simp]: "gm_wf m \<Longrightarrow> gm_wf (gm_delete k m)"
  by (induction m) (auto simp: gm_delete_def gm_wf_Cons)

lemma gm_wf_of_list [simp]: "gm_wf m \<Longrightarrow> gm_wf (gm_of_list kvs m)"
  by (induction kvs m rule: gm_of_list.induct) auto

text \<open>Two maps in canonical form with the same look-up are the same list.\<close>

lemma gm_wf_map_of: "gm_wf m \<Longrightarrow> m = map (\<lambda>k. (k, the (map_of m k))) (map fst m)"
  by (auto intro!: map_idI [symmetric] dest: gm_wf_distinct simp: map_of_is_SomeI)

lemma gm_wf_eqI:
  assumes "gm_wf m" "gm_wf n" "map_of m = map_of n"
  shows "m = n"
proof -
  have "set (map fst m) = set (map fst n)"
    using assms(3) by (metis dom_map_of_conv_image_fst list.set_map)
  then have "map fst m = map fst n"
    using assms(1,2) by (intro sorted_distinct_set_unique)
      (auto simp: gm_wf_distinct gm_wf_def strict_sorted_iff)
  then show ?thesis
    using gm_wf_map_of [OF assms(1)] gm_wf_map_of [OF assms(2)] assms(3) by simp
qed

section \<open>Lemmas on numbers as text\<close>

lemma of_char_digit_char [simp]: "d < 10 \<Longrightarrow> (of_char (digit_char d) :: nat) = 48 + d"
  by (simp add: digit_char_def)

lemma is_digit_digit_char [simp]: "d < 10 \<Longrightarrow> is_digit (digit_char d)"
  by (simp add: is_digit_def)

lemma digit_val_digit_char [simp]: "d < 10 \<Longrightarrow> digit_val (digit_char d) = d"
  by (simp add: digit_val_def)

lemma read_digits_Nil [simp]: "read_digits [] = 0"
  by (simp add: read_digits_def)

lemma read_digits_snoc [simp]: "read_digits (s @ [c]) = 10 * read_digits s + digit_val c"
  by (simp add: read_digits_def)

lemma length_show_padded [simp]: "length (show_padded w n) = w"
  by (induction w arbitrary: n) auto

lemma show_padded_digits [simp]: "list_all is_digit (show_padded w n)"
  by (induction w arbitrary: n) auto

lemma read_show_padded [simp]: "read_digits (show_padded w n) = n mod 10 ^ w"
proof (induction w arbitrary: n)
  case (Suc w)
  then show ?case by (simp add: mod_mult2_eq)
qed simp

lemma show_nat_digits [simp]: "list_all is_digit (show_nat n)"
  by (induction n rule: show_nat.induct) (subst show_nat.simps, simp)

lemma show_nat_nonempty [simp]: "show_nat n \<noteq> []"
  by (subst show_nat.simps) simp

lemma read_show_nat [simp]: "read_digits (show_nat n) = n"
proof (induction n rule: show_nat.induct)
  case (1 n)
  show ?case
  proof (cases "n < 10")
    case True
    then show ?thesis using read_digits_snoc [of "[]"] by (subst show_nat.simps) simp
  next
    case False
    then show ?thesis using 1 by (subst show_nat.simps) simp
  qed
qed

end
