(* ===== verification/Go_Time.thy ===== *)
theory Go_Time
  imports Logryph_Prelude "HOL-Library.Monad_Syntax"
begin

text \<open>
  The part of Go's \<^verbatim>\<open>time\<close> package the ledger uses: a \<^verbatim>\<open>time.Time\<close> as what its layout functions show
  (civil date and clock, nanoseconds, zone offset in minutes) with its optional monotonic reading,
  \<^verbatim>\<open>Format(time.RFC3339Nano)\<close> and \<^verbatim>\<open>Parse(time.RFC3339Nano, _)\<close>.
\<close>

record gotime =
  t_year :: nat
  t_month :: nat
  t_day :: nat
  t_hour :: nat
  t_min :: nat
  t_sec :: nat
  t_nsec :: nat
  t_off :: int
  t_mono :: "int option"

definition zero_time :: gotime where
  "zero_time = \<lparr>t_year = 1, t_month = 1, t_day = 1, t_hour = 0, t_min = 0, t_sec = 0, t_nsec = 0,
                t_off = 0, t_mono = None\<rparr>"

definition is_leap :: "nat \<Rightarrow> bool" where
  "is_leap y \<longleftrightarrow> y mod 4 = 0 \<and> (y mod 100 \<noteq> 0 \<or> y mod 400 = 0)"

definition days_in :: "nat \<Rightarrow> nat \<Rightarrow> nat" where
  "days_in m y =
     (if m = 2 then (if is_leap y then 29 else 28)
      else if m = 4 \<or> m = 6 \<or> m = 9 \<or> m = 11 then 30 else 31)"

definition valid_time :: "gotime \<Rightarrow> bool" where
  "valid_time t \<longleftrightarrow>
     t_year t \<le> 9999 \<and> 1 \<le> t_month t \<and> t_month t \<le> 12
     \<and> 1 \<le> t_day t \<and> t_day t \<le> days_in (t_month t) (t_year t)
     \<and> t_hour t \<le> 23 \<and> t_min t \<le> 59 \<and> t_sec t \<le> 59 \<and> t_nsec t < 10 ^ 9
     \<and> \<bar>t_off t\<bar> < 24 * 60"

text \<open>\<^verbatim>\<open>t.Truncate(0)\<close> strips the monotonic clock reading and changes nothing else.\<close>

definition Truncate0 :: "gotime \<Rightarrow> gotime" where
  "Truncate0 t = t\<lparr>t_mono := None\<rparr>"

section \<open>Format\<close>

definition strip_zeros :: "string \<Rightarrow> string" where
  "strip_zeros s = rev (dropWhile (\<lambda>c. c = CHR ''0'') (rev s))"

definition format_frac :: "nat \<Rightarrow> string" where
  "format_frac ns = (if ns = 0 then [] else CHR ''.'' # strip_zeros (show_padded 9 ns))"

definition format_zone :: "int \<Rightarrow> string" where
  "format_zone off =
     (if off = 0 then ''Z''
      else (if off < 0 then CHR ''-'' else CHR ''+'')
           # show_padded 2 (nat \<bar>off\<bar> div 60) @ '':'' @ show_padded 2 (nat \<bar>off\<bar> mod 60))"

definition format_time :: "gotime \<Rightarrow> string" where
  "format_time t =
     show_padded 4 (t_year t) @ ''-'' @ show_padded 2 (t_month t) @ ''-'' @ show_padded 2 (t_day t)
     @ ''T'' @ show_padded 2 (t_hour t) @ '':'' @ show_padded 2 (t_min t)
     @ '':'' @ show_padded 2 (t_sec t) @ format_frac (t_nsec t) @ format_zone (t_off t)"

section \<open>Parse\<close>

definition read_field :: "nat \<Rightarrow> nat \<Rightarrow> nat \<Rightarrow> string \<Rightarrow> (nat \<times> string) option" where
  "read_field w lo hi s =
     (if w \<le> length s \<and> list_all is_digit (take w s)
         \<and> lo \<le> read_digits (take w s) \<and> read_digits (take w s) \<le> hi
      then Some (read_digits (take w s), drop w s) else None)"

fun expect :: "char \<Rightarrow> string \<Rightarrow> string option" where
  "expect c (d # s) = (if c = d then Some s else None)"
| "expect c [] = None"

text \<open>The fraction: the digits after the point, cut to nine, scaled to nanoseconds.\<close>

definition parse_frac :: "string \<Rightarrow> nat \<times> string" where
  "parse_frac s =
     (case s of
        c # d # _ \<Rightarrow>
          if c = CHR ''.'' \<and> is_digit d
          then (let ds = takeWhile is_digit (tl s); ds9 = take 9 ds
                in (read_digits ds9 * 10 ^ (9 - length ds9), dropWhile is_digit (tl s)))
          else (0, s)
      | _ \<Rightarrow> (0, s))"

definition parse_zone :: "string \<Rightarrow> int option" where
  "parse_zone s =
     (if s = ''Z'' then Some 0
      else case s of
        [] \<Rightarrow> None
      | c # r \<Rightarrow>
          if c = CHR ''-'' \<or> c = CHR ''+'' then
            do {
              (hh, r) \<leftarrow> read_field 2 0 23 r;
              r \<leftarrow> expect CHR '':'' r;
              (mm, r) \<leftarrow> read_field 2 0 59 r;
              (if r = [] then Some ((if c = CHR ''-'' then - 1 else 1) * int (hh * 60 + mm)) else None)
            }
          else None)"

definition parse_time :: "string \<Rightarrow> gotime option" where
  "parse_time s = do {
     (y, s) \<leftarrow> read_field 4 0 9999 s;
     s \<leftarrow> expect CHR ''-'' s;
     (m, s) \<leftarrow> read_field 2 1 12 s;
     s \<leftarrow> expect CHR ''-'' s;
     (d, s) \<leftarrow> read_field 2 1 (days_in m y) s;
     s \<leftarrow> expect CHR ''T'' s;
     (hh, s) \<leftarrow> read_field 2 0 23 s;
     s \<leftarrow> expect CHR '':'' s;
     (mm, s) \<leftarrow> read_field 2 0 59 s;
     s \<leftarrow> expect CHR '':'' s;
     (ss, s) \<leftarrow> read_field 2 0 59 s;
     let (ns, s) = parse_frac s;
     off \<leftarrow> parse_zone s;
     Some \<lparr>t_year = y, t_month = m, t_day = d, t_hour = hh, t_min = mm, t_sec = ss, t_nsec = ns,
           t_off = off, t_mono = None\<rparr>
   }"

section \<open>Round trip\<close>

lemma read_field_show [simp]:
  "lo \<le> n \<Longrightarrow> n \<le> hi \<Longrightarrow> n < 10 ^ w \<Longrightarrow> read_field w lo hi (show_padded w n @ s) = Some (n, s)"
  by (simp add: read_field_def)

lemma read_field_show_end [simp]:
  "lo \<le> n \<Longrightarrow> n \<le> hi \<Longrightarrow> n < 10 ^ w \<Longrightarrow> read_field w lo hi (show_padded w n) = Some (n, [])"
  using read_field_show [of lo n hi w "[]"] by simp

lemma read_digits_append_zeros:
  "read_digits (s @ replicate k CHR ''0'') = read_digits s * 10 ^ k"
proof (induction k)
  case (Suc k)
  have "s @ replicate (Suc k) CHR ''0'' = (s @ replicate k CHR ''0'') @ [CHR ''0'']"
    by (simp add: replicate_append_same)
  then show ?case
    using Suc by (simp only: read_digits_snoc) (simp add: digit_val_def)
qed simp

lemma strip_zeros_split: "\<exists>k. s = strip_zeros s @ replicate k CHR ''0''"
proof -
  have "rev s = takeWhile (\<lambda>c. c = CHR ''0'') (rev s) @ dropWhile (\<lambda>c. c = CHR ''0'') (rev s)"
    by simp
  moreover have "takeWhile (\<lambda>c. c = CHR ''0'') (rev s)
      = replicate (length (takeWhile (\<lambda>c. c = CHR ''0'') (rev s))) CHR ''0''"
    by (intro replicate_eqI) (auto dest: set_takeWhileD)
  ultimately show ?thesis
    unfolding strip_zeros_def by (metis rev_append rev_replicate rev_rev_ident)
qed

lemma parse_zone_format: "\<bar>off\<bar> < 24 * 60 \<Longrightarrow> parse_zone (format_zone off) = Some off"
proof -
  assume "\<bar>off\<bar> < 24 * 60"
  then have "nat \<bar>off\<bar> div 60 \<le> 23" "nat \<bar>off\<bar> mod 60 \<le> 59"
    by (simp_all add: div_le_mono less_Suc_eq_le [symmetric] less_mult_imp_div_less nat_less_iff)
  moreover have "int (nat \<bar>off\<bar> div 60 * 60 + nat \<bar>off\<bar> mod 60) = \<bar>off\<bar>"
    by simp
  ultimately show ?thesis
    by (auto simp: parse_zone_def format_zone_def)
qed

lemma format_zone_head:
  "\<exists>c r. format_zone off = c # r \<and> \<not> is_digit c \<and> c \<noteq> CHR ''.''"
  by (auto simp: format_zone_def is_digit_def)

lemma parse_frac_format:
  assumes "ns < 10 ^ 9" and "z = c # r" and "\<not> is_digit c" and "c \<noteq> CHR ''.''"
  shows "parse_frac (format_frac ns @ z) = (ns, z)"
proof (cases "ns = 0")
  case True
  then show ?thesis
    using assms by (auto simp: parse_frac_def format_frac_def split: list.split)
next
  case False
  define ds where "ds = strip_zeros (show_padded 9 ns)"
  obtain k where k: "show_padded 9 ns = ds @ replicate k CHR ''0''"
    using strip_zeros_split unfolding ds_def by blast
  have len: "length ds + k = 9"
    using arg_cong [OF k, of length] by simp
  have val: "read_digits ds * 10 ^ k = ns"
    using arg_cong [OF k, of read_digits] assms(1) by (simp add: read_digits_append_zeros)
  then have "ds \<noteq> []"
    using False by auto
  then obtain d ds' where ds: "ds = d # ds'"
    by (cases ds) auto
  have dig: "list_all is_digit ds"
    using show_padded_digits [of 9 ns] unfolding k by simp
  then have "takeWhile is_digit (ds @ z) = ds" "dropWhile is_digit (ds @ z) = z"
    using assms(2,3) by (simp_all add: list_all_iff takeWhile_append2 dropWhile_append2)
  moreover have "take 9 ds = ds" "9 - length ds = k"
    using len by simp_all
  ultimately show ?thesis
    using False dig val by (simp add: parse_frac_def format_frac_def ds flip: ds_def)
qed

text \<open>Formatting and parsing keeps everything but the monotonic reading.\<close>

lemma parse_format_time:
  assumes "valid_time t"
  shows "parse_time (format_time t) = Some (Truncate0 t)"
proof -
  obtain c r where z: "format_zone (t_off t) = c # r" "\<not> is_digit c" "c \<noteq> CHR ''.''"
    using format_zone_head by blast
  have frac: "parse_frac (format_frac (t_nsec t) @ format_zone (t_off t)) = (t_nsec t, format_zone (t_off t))"
    using assms z by (intro parse_frac_format) (auto simp: valid_time_def)
  have days: "t_day t < 10 ^ 2"
    using assms by (auto simp: valid_time_def days_in_def split: if_splits)
  show ?thesis
    using assms days
    by (simp add: parse_time_def format_time_def valid_time_def frac parse_zone_format Truncate0_def)
qed

lemma format_Truncate0 [simp]: "format_time (Truncate0 t) = format_time t"
  by (simp add: format_time_def Truncate0_def)

lemma valid_Truncate0 [simp]: "valid_time (Truncate0 t) = valid_time t"
  by (simp add: valid_time_def Truncate0_def)

end
