(* ===== verification/Go_Json.thy ===== *)
theory Go_Json
  imports Go_Time
begin

text \<open>
  Dynamic Go values (\<^verbatim>\<open>interface{}\<close>) as the ledger stores them, and \<^verbatim>\<open>encoding/json\<close>: \<^verbatim>\<open>json.Marshal\<close>
  with its string escaping and UTF-8 repair, and \<^verbatim>\<open>json.Unmarshal\<close> into \<^verbatim>\<open>interface{}\<close> and into
  \<^verbatim>\<open>map[string]interface{}\<close>. A \<^verbatim>\<open>float64\<close> is its 64 bits; the two conversions between those bits and
  decimal text are the argument \<open>F\<close> of the definitions, with their documented behaviour as the
  hypothesis \<open>float_conv_ok\<close>.
\<close>

section \<open>Values\<close>

datatype goval =
    GNil
  | GBool bool
  | GInt u64
  | GUint u64
  | GFloat u64
  | GStr string
  | GTime gotime
  | GList "goval list"
  | GMap "(string \<times> goval) list"

record float_conv =
  parse_float :: "string \<Rightarrow> u64 option"
  json_float :: "u64 \<Rightarrow> string"

definition f64_finite :: "u64 \<Rightarrow> bool" where
  "f64_finite x \<longleftrightarrow> (drop_bit 52 x) mod 2048 \<noteq> 2047"

section \<open>UTF-8\<close>

definition cv :: "char \<Rightarrow> nat" where
  "cv c = of_char c"

definition is_cont :: "char \<Rightarrow> bool" where
  "is_cont c \<longleftrightarrow> 128 \<le> cv c \<and> cv c \<le> 191"

text \<open>Length of the well-formed sequence a string starts with, 0 when there is none.\<close>

fun utf8_len :: "string \<Rightarrow> nat" where
  "utf8_len [] = 0"
| "utf8_len [a] = (if cv a < 128 then 1 else 0)"
| "utf8_len [a, b] =
     (if cv a < 128 then 1
      else if 194 \<le> cv a \<and> cv a \<le> 223 \<and> is_cont b then 2 else 0)"
| "utf8_len [a, b, c] =
     (if cv a < 128 then 1
      else if 194 \<le> cv a \<and> cv a \<le> 223 then (if is_cont b then 2 else 0)
      else if 224 \<le> cv a \<and> cv a \<le> 239 \<and> is_cont b \<and> is_cont c
              \<and> (cv a = 224 \<longrightarrow> 160 \<le> cv b) \<and> (cv a = 237 \<longrightarrow> cv b \<le> 159) then 3 else 0)"
| "utf8_len (a # b # c # d # s) =
     (if cv a < 128 then 1
      else if 194 \<le> cv a \<and> cv a \<le> 223 then (if is_cont b then 2 else 0)
      else if 224 \<le> cv a \<and> cv a \<le> 239 then
        (if is_cont b \<and> is_cont c
            \<and> (cv a = 224 \<longrightarrow> 160 \<le> cv b) \<and> (cv a = 237 \<longrightarrow> cv b \<le> 159) then 3 else 0)
      else if 240 \<le> cv a \<and> cv a \<le> 244 \<and> is_cont b \<and> is_cont c \<and> is_cont d
              \<and> (cv a = 240 \<longrightarrow> 144 \<le> cv b) \<and> (cv a = 244 \<longrightarrow> cv b \<le> 143) then 4 else 0)"

text \<open>The replacement character U+FFFD, and the encoding of a code point.\<close>

definition repl_char :: string where
  "repl_char = [char_of (239 :: nat), char_of (191 :: nat), char_of (189 :: nat)]"

definition utf8_encode :: "nat \<Rightarrow> string" where
  "utf8_encode r =
     (if r < 128 then [char_of r]
      else if r < 2048 then [char_of (192 + r div 64), char_of (128 + r mod 64)]
      else if (55296 \<le> r \<and> r \<le> 57343) \<or> 1114111 < r then repl_char
      else if r < 65536 then
        [char_of (224 + r div 4096), char_of (128 + (r div 64) mod 64), char_of (128 + r mod 64)]
      else
        [char_of (240 + r div 262144), char_of (128 + (r div 4096) mod 64),
         char_of (128 + (r div 64) mod 64), char_of (128 + r mod 64)])"

text \<open>A string with every ill-formed byte replaced, as an encoded and decoded string is.\<close>

function to_valid :: "string \<Rightarrow> string" where
  "to_valid [] = []"
| "to_valid (c # s) =
     (if utf8_len (c # s) = 0 then repl_char @ to_valid s
      else take (utf8_len (c # s)) (c # s) @ to_valid (drop (utf8_len (c # s)) (c # s)))"
  by pat_completeness auto
termination
  by (relation "measure length") (auto simp: less_Suc_eq_le)

section \<open>Strings\<close>

definition hex_lower :: "nat \<Rightarrow> char" where
  "hex_lower n = (if n < 10 then char_of (48 + n) else char_of (87 + n))"

definition html_safe :: "char \<Rightarrow> bool" where
  "html_safe c \<longleftrightarrow> 32 \<le> cv c \<and> cv c < 128
     \<and> c \<notin> {CHR 0x22, CHR 0x5C, CHR ''<'', CHR ''>'', CHR ''&''}"

definition esc_ascii :: "char \<Rightarrow> string" where
  "esc_ascii c =
     (if html_safe c then [c]
      else if c = CHR 0x22 \<or> c = CHR 0x5C then [CHR 0x5C, c]
      else if cv c = 8 then [CHR 0x5C, CHR ''b'']
      else if cv c = 12 then [CHR 0x5C, CHR ''f'']
      else if cv c = 10 then [CHR 0x5C, CHR ''n'']
      else if cv c = 13 then [CHR 0x5C, CHR ''r'']
      else if cv c = 9 then [CHR 0x5C, CHR ''t'']
      else [CHR 0x5C, CHR ''u'', CHR ''0'', CHR ''0'', hex_lower (cv c div 16), hex_lower (cv c mod 16)])"

definition line_sep :: "nat \<Rightarrow> string" where
  "line_sep k = [char_of (226 :: nat), char_of (128 :: nat), char_of (168 + k)]"

function enc_chars :: "string \<Rightarrow> string" where
  "enc_chars [] = []"
| "enc_chars (c # s) =
     (if cv c < 128 then esc_ascii c @ enc_chars s
      else let n = utf8_len (c # s) in
        if n = 0 then [CHR 0x5C, CHR ''u'', CHR ''f'', CHR ''f'', CHR ''f'', CHR ''d''] @ enc_chars s
        else if take n (c # s) = line_sep 0
          then [CHR 0x5C, CHR ''u'', CHR ''2'', CHR ''0'', CHR ''2'', CHR ''8''] @ enc_chars (drop n (c # s))
        else if take n (c # s) = line_sep 1
          then [CHR 0x5C, CHR ''u'', CHR ''2'', CHR ''0'', CHR ''2'', CHR ''9''] @ enc_chars (drop n (c # s))
        else take n (c # s) @ enc_chars (drop n (c # s)))"
  by pat_completeness auto
termination
  by (relation "measure length") (auto simp: less_Suc_eq_le)

definition enc_string :: "string \<Rightarrow> string" where
  "enc_string s = CHR 0x22 # enc_chars s @ [CHR 0x22]"

definition hex_val :: "char \<Rightarrow> nat option" where
  "hex_val c =
     (if 48 \<le> cv c \<and> cv c \<le> 57 then Some (cv c - 48)
      else if 97 \<le> cv c \<and> cv c \<le> 102 then Some (cv c - 87)
      else if 65 \<le> cv c \<and> cv c \<le> 70 then Some (cv c - 55)
      else None)"

text \<open>The value of four hexadecimal digits after a \<^verbatim>\<open>u\<close> escape.\<close>

definition getu4 :: "string \<Rightarrow> nat option" where
  "getu4 s =
     (case map hex_val (take 4 s) of
        [Some a, Some b, Some c, Some d] \<Rightarrow> Some (4096 * a + 256 * b + 16 * c + d)
      | _ \<Rightarrow> None)"

definition simple_escape :: "char \<Rightarrow> char option" where
  "simple_escape e =
     (if e = CHR 0x22 \<or> e = CHR 0x5C \<or> e = CHR ''/'' then Some e
      else if e = CHR ''b'' then Some (char_of (8 :: nat))
      else if e = CHR ''f'' then Some (char_of (12 :: nat))
      else if e = CHR ''n'' then Some (char_of (10 :: nat))
      else if e = CHR ''r'' then Some (char_of (13 :: nat))
      else if e = CHR ''t'' then Some (char_of (9 :: nat))
      else None)"

text \<open>
  The low half that pairs with a high surrogate \<open>r\<close>, when the input goes on with one: the code
  point the pair stands for.
\<close>

definition surrogate_pair :: "nat \<Rightarrow> string \<Rightarrow> nat option" where
  "surrogate_pair r s =
     (case s of
        a # b # s' \<Rightarrow>
          if a = CHR 0x5C \<and> b = CHR ''u'' then
            (case getu4 s' of
               None \<Rightarrow> None
             | Some r2 \<Rightarrow>
                 if 55296 \<le> r \<and> r < 56320 \<and> 56320 \<le> r2 \<and> r2 < 57344
                 then Some (65536 + (r - 55296) * 1024 + (r2 - 56320)) else None)
          else None
      | _ \<Rightarrow> None)"

text \<open>The text after the opening quote: the decoded string and what follows the closing quote.\<close>

definition cons_fst :: "string \<Rightarrow> (string \<times> string) option \<Rightarrow> (string \<times> string) option" where
  "cons_fst p x = map_option (\<lambda>(s, r). (p @ s, r)) x"

function unquote :: "string \<Rightarrow> (string \<times> string) option" where
  "unquote [] = None"
| "unquote (c # r) =
     (if c = CHR 0x22 then Some ([], r)
      else if c = CHR 0x5C then
        (case r of
           [] \<Rightarrow> None
         | e # r' \<Rightarrow>
             if e = CHR ''u'' then
               (case getu4 r' of
                  None \<Rightarrow> None
                | Some rr \<Rightarrow>
                    if 55296 \<le> rr \<and> rr < 57344 then
                      (case surrogate_pair rr (drop 4 r') of
                         Some p \<Rightarrow> cons_fst (utf8_encode p) (unquote (drop 10 r'))
                       | None \<Rightarrow> cons_fst repl_char (unquote (drop 4 r')))
                    else cons_fst (utf8_encode rr) (unquote (drop 4 r')))
             else
               (case simple_escape e of
                  None \<Rightarrow> None
                | Some ch \<Rightarrow> cons_fst [ch] (unquote r')))
      else if cv c < 32 then None
      else if cv c < 128 then cons_fst [c] (unquote r)
      else let n = utf8_len (c # r) in
        if n = 0 then cons_fst repl_char (unquote r)
        else cons_fst (take n (c # r)) (unquote (drop n (c # r))))"
  by pat_completeness auto
termination
  by (relation "measure length") (auto simp: less_Suc_eq_le)

declare to_valid.simps [simp del] enc_chars.simps [simp del] unquote.simps [simp del]

section \<open>Decoding an encoded string\<close>

lemma cv_char_of [simp]: "n < 256 \<Longrightarrow> cv (char_of n) = n"
  by (simp add: cv_def)

lemma char_of_cv [simp]: "char_of (cv c) = c"
  by (simp add: cv_def)

lemma utf8_len_ascii: "cv c < 128 \<Longrightarrow> utf8_len (c # s) = 1"
  by (cases "c # s" rule: utf8_len.cases) auto

lemma utf8_len_le: "utf8_len s \<le> length s"
  by (cases s rule: utf8_len.cases) auto

lemma utf8_len_prefix: "utf8_len s = n \<Longrightarrow> n \<noteq> 0 \<Longrightarrow> utf8_len (take n s @ t) = n"
proof (cases s rule: utf8_len.cases)
  case (2 a)
  assume "utf8_len s = n" "n \<noteq> 0"
  with 2 show ?thesis by (auto simp: utf8_len_ascii split: if_splits)
next
  case (3 a b)
  assume "utf8_len s = n" "n \<noteq> 0"
  with 3 show ?thesis
    by (cases "a # b # t" rule: utf8_len.cases) (auto simp: utf8_len_ascii split: if_splits)
next
  case (4 a b c)
  assume "utf8_len s = n" "n \<noteq> 0"
  with 4 show ?thesis
    by (cases "a # b # c # t" rule: utf8_len.cases; cases "a # b # t" rule: utf8_len.cases)
      (auto simp: utf8_len_ascii split: if_splits)
next
  case (5 a b c d s')
  assume "utf8_len s = n" "n \<noteq> 0"
  with 5 show ?thesis
    by (cases "a # b # c # t" rule: utf8_len.cases; cases "a # b # t" rule: utf8_len.cases)
      (auto simp: utf8_len_ascii split: if_splits)
qed auto

lemma hex_val_hex_lower [simp]: "n < 16 \<Longrightarrow> hex_val (hex_lower n) = Some n"
  by (auto simp: hex_val_def hex_lower_def)

lemma hex_val_0: "hex_val (CHR ''0'') = Some 0"
  by (simp add: hex_val_def cv_def)

lemma unquote_quote [simp]: "unquote (CHR 0x22 # r) = Some ([], r)"
  by (simp add: unquote.simps)

lemma unquote_simple_escape:
  "simple_escape e = Some ch \<Longrightarrow> unquote (CHR 0x5C # e # t) = cons_fst [ch] (unquote t)"
  by (subst unquote.simps) (auto simp: simple_escape_def split: if_splits)

lemma unquote_u4:
  assumes "getu4 s = Some r" and "\<not> (55296 \<le> r \<and> r < 57344)"
  shows "unquote (CHR 0x5C # CHR ''u'' # s) = cons_fst (utf8_encode r) (unquote (drop 4 s))"
  using assms by (subst unquote.simps) auto

lemma unquote_esc_ascii:
  assumes "cv c < 128"
  shows "unquote (esc_ascii c @ t) = cons_fst [c] (unquote t)"
proof -
  consider (safe) "html_safe c" | (quote) "c = CHR 0x22 \<or> c = CHR 0x5C" "\<not> html_safe c"
    | (named) "cv c \<in> {8, 12, 10, 13, 9}" "\<not> html_safe c" "c \<noteq> CHR 0x22" "c \<noteq> CHR 0x5C"
    | (hex) "cv c \<notin> {8, 12, 10, 13, 9}" "\<not> html_safe c" "c \<noteq> CHR 0x22" "c \<noteq> CHR 0x5C"
    by blast
  then show ?thesis
  proof cases
    case safe
    then have "esc_ascii c @ t = c # t"
      by (simp add: esc_ascii_def)
    then show ?thesis
      using safe by (simp add: unquote.simps(2) [of c t] html_safe_def)
  next
    case quote
    then have "esc_ascii c = [CHR 0x5C, c]" "simple_escape c = Some c"
      by (auto simp: esc_ascii_def simple_escape_def)
    then show ?thesis by (simp add: unquote_simple_escape)
  next
    case named
    then have "c \<in> {char_of (8::nat), char_of (12::nat), char_of (10::nat), char_of (13::nat), char_of (9::nat)}"
      by (metis char_of_cv insert_iff singletonD)
    then show ?thesis
      using named by (auto simp: esc_ascii_def unquote_simple_escape simple_escape_def)
  next
    case hex
    have d: "cv c div 16 < 16" using assms by simp
    have "getu4 (CHR ''0'' # CHR ''0'' # hex_lower (cv c div 16) # hex_lower (cv c mod 16) # t) = Some (cv c)"
      using d by (simp add: getu4_def hex_val_0)
    from unquote_u4 [OF this] show ?thesis
      using hex assms by (simp add: esc_ascii_def utf8_encode_def)
  qed
qed

lemma unquote_multibyte:
  assumes "128 \<le> cv c" and "n = utf8_len (c # s)" and "n \<noteq> 0"
  shows "unquote (take n (c # s) @ t) = cons_fst (take n (c # s)) (unquote t)"
proof -
  have len: "utf8_len (take n (c # s) @ t) = n"
    using assms utf8_len_prefix by simp
  obtain u where u: "take n (c # s) @ t = c # u" "take n (c # s) = c # take (n - 1) s"
    using assms(3) by (cases n) auto
  have "length (take n (c # s)) = n"
    using utf8_len_le [of "c # s"] assms(2) by simp
  then have "take n (c # u) = take n (c # s)" "drop n (c # u) = t"
    unfolding u(1) [symmetric] by simp_all
  moreover have "c \<noteq> CHR 0x22" "c \<noteq> CHR 0x5C"
    using assms(1) by (auto simp: cv_def)
  ultimately show ?thesis
    unfolding u(1) using len assms(1,3) by (subst unquote.simps) (simp add: Let_def u(1))
qed

lemma unquote_u4_bmp:
  assumes "map hex_val [a, b, c, d] = map Some [w, x, y, z]"
    and "r = 4096 * w + 256 * x + 16 * y + z" and "\<not> (55296 \<le> r \<and> r < 57344)"
  shows "unquote (CHR 0x5C # CHR ''u'' # a # b # c # d # t) = cons_fst (utf8_encode r) (unquote t)"
  using unquote_u4 [of "a # b # c # d # t" r] assms by (simp add: getu4_def)

lemma unquote_fffd:
  "unquote ([CHR 0x5C, CHR ''u'', CHR ''f'', CHR ''f'', CHR ''f'', CHR ''d''] @ t)
     = cons_fst repl_char (unquote t)"
  using unquote_u4_bmp [of "CHR ''f''" "CHR ''f''" "CHR ''f''" "CHR ''d''" 15 15 15 13 65533 t]
  by (simp add: hex_val_def cv_def utf8_encode_def repl_char_def)

lemma unquote_2028:
  "unquote ([CHR 0x5C, CHR ''u'', CHR ''2'', CHR ''0'', CHR ''2'', CHR ''8''] @ t)
     = cons_fst (line_sep 0) (unquote t)"
  using unquote_u4_bmp [of "CHR ''2''" "CHR ''0''" "CHR ''2''" "CHR ''8''" 2 0 2 8 8232 t]
  by (simp add: hex_val_def cv_def utf8_encode_def line_sep_def)

lemma unquote_2029:
  "unquote ([CHR 0x5C, CHR ''u'', CHR ''2'', CHR ''0'', CHR ''2'', CHR ''9''] @ t)
     = cons_fst (line_sep 1) (unquote t)"
  using unquote_u4_bmp [of "CHR ''2''" "CHR ''0''" "CHR ''2''" "CHR ''9''" 2 0 2 9 8233 t]
  by (simp add: hex_val_def cv_def utf8_encode_def line_sep_def)

lemma unquote_enc_chars: "unquote (enc_chars s @ CHR 0x22 # rest) = Some (to_valid s, rest)"
proof (induction s rule: enc_chars.induct)
  case 1
  then show ?case by (simp add: enc_chars.simps to_valid.simps)
next
  case (2 c s)
  let ?n = "utf8_len (c # s)"
  show ?case
  proof (cases "cv c < 128")
    case True
    then show ?thesis
      using "2.IH"(1) [OF True] by (simp add: enc_chars.simps(2) to_valid.simps(2) [of c s]
          utf8_len_ascii unquote_esc_ascii cons_fst_def)
  next
    case False
    note IH0 = "2.IH"(2) [OF False refl]
    note IH = "2.IH"(3-5) [OF False refl]
    consider (bad) "?n = 0" | (ls) "?n \<noteq> 0" "take ?n (c # s) = line_sep 0"
      | (ps) "?n \<noteq> 0" "take ?n (c # s) = line_sep 1" "take ?n (c # s) \<noteq> line_sep 0"
      | (plain) "?n \<noteq> 0" "take ?n (c # s) \<noteq> line_sep 0" "take ?n (c # s) \<noteq> line_sep 1"
      by blast
    then show ?thesis
    proof cases
      case bad
      then show ?thesis
        using False IH0 unquote_fffd [of "enc_chars s @ CHR 0x22 # rest"]
        by (simp add: enc_chars.simps(2) [of c s] to_valid.simps(2) [of c s] cons_fst_def)
    next
      case ls
      then show ?thesis
        using False IH(1) unquote_2028 [of "enc_chars (drop ?n (c # s)) @ CHR 0x22 # rest"]
        by (simp add: enc_chars.simps(2) [of c s] to_valid.simps(2) [of c s] cons_fst_def Let_def)
    next
      case ps
      then show ?thesis
        using False IH(2) unquote_2029 [of "enc_chars (drop ?n (c # s)) @ CHR 0x22 # rest"]
        by (simp add: enc_chars.simps(2) [of c s] to_valid.simps(2) [of c s] cons_fst_def Let_def)
    next
      case plain
      then show ?thesis
        using False IH(3) unquote_multibyte [of c ?n s "enc_chars (drop ?n (c # s)) @ CHR 0x22 # rest"]
        by (simp add: enc_chars.simps(2) [of c s] to_valid.simps(2) [of c s] cons_fst_def Let_def)
    qed
  qed
qed

end
