(* ===== verification/Json_Values.thy ===== *)
theory Json_Values
  imports Go_Json
begin

text \<open>
  \<^verbatim>\<open>json.Marshal\<close> and \<^verbatim>\<open>json.Unmarshal\<close> on whole values, and the round trip between them: decoding an
  encoded value gives its normal form \<open>norm\<close> (every number a \<^verbatim>\<open>float64\<close>, every time its text, every
  string valid UTF-8).
\<close>

section \<open>Numbers\<close>

definition digits1 :: "string \<Rightarrow> (string \<times> string) option" where
  "digits1 s = (if takeWhile is_digit s = [] then None
                else Some (takeWhile is_digit s, dropWhile is_digit s))"

definition scan_sign :: "string \<Rightarrow> string \<times> string" where
  "scan_sign s = (case s of [] \<Rightarrow> ([], s)
     | c # r \<Rightarrow> if c = CHR ''-'' then ([c], r) else ([], s))"

definition scan_int :: "string \<Rightarrow> (string \<times> string) option" where
  "scan_int s = (case s of [] \<Rightarrow> None
     | c # r \<Rightarrow> if c = CHR ''0'' then Some ([c], r) else digits1 s)"

definition scan_frac :: "string \<Rightarrow> (string \<times> string) option" where
  "scan_frac s = (case s of [] \<Rightarrow> Some ([], s)
     | c # r \<Rightarrow> if c = CHR ''.'' then map_option (\<lambda>(d, r'). (c # d, r')) (digits1 r)
                else Some ([], s))"

definition scan_exp :: "string \<Rightarrow> (string \<times> string) option" where
  "scan_exp s = (case s of [] \<Rightarrow> Some ([], s)
     | c # r \<Rightarrow>
         if c = CHR ''e'' \<or> c = CHR ''E'' then
           (case r of [] \<Rightarrow> None
            | d # r' \<Rightarrow>
                if d = CHR ''+'' \<or> d = CHR ''-''
                then map_option (\<lambda>(ds, r''). (c # d # ds, r'')) (digits1 r')
                else map_option (\<lambda>(ds, r''). (c # ds, r'')) (digits1 r))
         else Some ([], s))"

text \<open>The number token a text starts with, by the grammar of RFC 8259, and the text after it.\<close>

definition scan_number :: "string \<Rightarrow> (string \<times> string) option" where
  "scan_number s = (let (sg, s1) = scan_sign s in do {
     (ip, s2) \<leftarrow> scan_int s1;
     (fp, s3) \<leftarrow> scan_frac s2;
     (ep, s4) \<leftarrow> scan_exp s3;
     Some (sg @ ip @ fp @ ep, s4)
   })"

definition json_number :: "string \<Rightarrow> bool" where
  "json_number t \<longleftrightarrow> scan_number t = Some (t, [])"

text \<open>
  What the ledger relies on of the conversions: the text of a finite \<^verbatim>\<open>float64\<close> is a JSON number that
  reads back as the same bits, a number token reads as a finite value or not at all, and the decimal
  digits of a 64-bit integer read as some value.
\<close>

definition float_conv_ok :: "('a) float_conv_scheme \<Rightarrow> bool" where
  "float_conv_ok F \<longleftrightarrow>
     (\<forall>x. f64_finite x \<longrightarrow>
        json_number (json_float F x) \<and> parse_float F (json_float F x) = Some x)
     \<and> (\<forall>s x. json_number s \<longrightarrow> parse_float F s = Some x \<longrightarrow> f64_finite x)
     \<and> (\<forall>i :: int. \<bar>i\<bar> < 2 ^ 64 \<longrightarrow> parse_float F (show_int i) \<noteq> None)"

section \<open>Marshal\<close>

fun marshalable :: "goval \<Rightarrow> bool" and marshalable_members :: "(string \<times> goval) list \<Rightarrow> bool" where
  "marshalable (GFloat x) = f64_finite x"
| "marshalable (GTime t) = valid_time t"
| "marshalable (GList []) = True"
| "marshalable (GList (v # vs)) = (marshalable v \<and> marshalable (GList vs))"
| "marshalable (GMap kvs) = marshalable_members kvs"
| "marshalable _ = True"
| "marshalable_members [] = True"
| "marshalable_members ((k, v) # kvs) = (marshalable v \<and> marshalable_members kvs)"

fun enc :: "('a) float_conv_scheme \<Rightarrow> goval \<Rightarrow> string"
and enc_elems :: "('a) float_conv_scheme \<Rightarrow> goval list \<Rightarrow> string"
and enc_members :: "('a) float_conv_scheme \<Rightarrow> (string \<times> goval) list \<Rightarrow> string" where
  "enc F GNil = ''null''"
| "enc F (GBool b) = (if b then ''true'' else ''false'')"
| "enc F (GInt w) = show_int (sint w)"
| "enc F (GUint w) = show_int (uint w)"
| "enc F (GFloat x) = json_float F x"
| "enc F (GStr s) = enc_string s"
| "enc F (GTime t) = enc_string (format_time t)"
| "enc F (GList vs) = ''['' @ enc_elems F vs @ '']''"
| "enc F (GMap kvs) = ''{'' @ enc_members F kvs @ ''}''"
| "enc_elems F [] = []"
| "enc_elems F [v] = enc F v"
| "enc_elems F (v # vs) = enc F v @ '','' @ enc_elems F vs"
| "enc_members F [] = []"
| "enc_members F [(k, v)] = enc_string k @ '':'' @ enc F v"
| "enc_members F ((k, v) # kvs) = enc_string k @ '':'' @ enc F v @ '','' @ enc_members F kvs"

definition Marshal :: "('a) float_conv_scheme \<Rightarrow> goval \<Rightarrow> string outcome" where
  "Marshal F v =
     (if marshalable v then Ok (enc F v) else Err (ErrorString ''json: unsupported value''))"

section \<open>Unmarshal\<close>

definition is_ws :: "char \<Rightarrow> bool" where
  "is_ws c \<longleftrightarrow> cv c = 32 \<or> cv c = 9 \<or> cv c = 10 \<or> cv c = 13"

definition skip_ws :: "string \<Rightarrow> string" where
  "skip_ws s = dropWhile is_ws s"

definition strip_lit :: "string \<Rightarrow> string \<Rightarrow> string option" where
  "strip_lit p s = (if take (length p) s = p then Some (drop (length p) s) else None)"

text \<open>
  The parser. Its first number bounds the recursion; \<open>d\<close> is the nesting still allowed, which
  \<^verbatim>\<open>encoding/json\<close> limits to 10000. \<open>None\<close> stands for every error.
\<close>

fun parse_value :: "('a) float_conv_scheme \<Rightarrow> nat \<Rightarrow> nat \<Rightarrow> string \<Rightarrow> (goval \<times> string) option"
and parse_elems :: "('a) float_conv_scheme \<Rightarrow> nat \<Rightarrow> nat \<Rightarrow> string \<Rightarrow> (goval list \<times> string) option"
and parse_members :: "('a) float_conv_scheme \<Rightarrow> nat \<Rightarrow> nat \<Rightarrow> string \<Rightarrow> goval gomap
       \<Rightarrow> (goval gomap \<times> string) option" where
  "parse_value F 0 d s = None"
| "parse_value F (Suc n) d s =
     (case skip_ws s of
        [] \<Rightarrow> None
      | c # r \<Rightarrow>
          if c = CHR ''{'' then
            (if d = 0 then None
             else case skip_ws r of
               [] \<Rightarrow> None
             | c' # r' \<Rightarrow>
                 if c' = CHR ''}'' then Some (GMap [], r')
                 else map_option (\<lambda>(m, q). (GMap m, q)) (parse_members F n (d - 1) r []))
          else if c = CHR ''['' then
            (if d = 0 then None
             else case skip_ws r of
               [] \<Rightarrow> None
             | c' # r' \<Rightarrow>
                 if c' = CHR '']'' then Some (GList [], r')
                 else map_option (\<lambda>(vs, q). (GList vs, q)) (parse_elems F n (d - 1) r))
          else if c = CHR 0x22 then map_option (\<lambda>(t, q). (GStr t, q)) (unquote r)
          else if c = CHR ''n'' then map_option (\<lambda>q. (GNil, q)) (strip_lit ''null'' (c # r))
          else if c = CHR ''t'' then map_option (\<lambda>q. (GBool True, q)) (strip_lit ''true'' (c # r))
          else if c = CHR ''f'' then map_option (\<lambda>q. (GBool False, q)) (strip_lit ''false'' (c # r))
          else do {
            (t, q) \<leftarrow> scan_number (c # r);
            x \<leftarrow> parse_float F t;
            Some (GFloat x, q)
          })"
| "parse_elems F 0 d s = None"
| "parse_elems F (Suc n) d s =
     (case parse_value F n d s of
        None \<Rightarrow> None
      | Some (v, q) \<Rightarrow>
          (case skip_ws q of
             [] \<Rightarrow> None
           | c # r \<Rightarrow>
               if c = CHR '','' then map_option (\<lambda>(vs, q'). (v # vs, q')) (parse_elems F n d r)
               else if c = CHR '']'' then Some ([v], r)
               else None))"
| "parse_members F 0 d s m = None"
| "parse_members F (Suc n) d s m =
     (case skip_ws s of
        [] \<Rightarrow> None
      | c # r \<Rightarrow>
          if c \<noteq> CHR 0x22 then None
          else case unquote r of
            None \<Rightarrow> None
          | Some (k, q) \<Rightarrow>
              (case skip_ws q of
                 [] \<Rightarrow> None
               | c' # r' \<Rightarrow>
                   if c' \<noteq> CHR '':'' then None
                   else case parse_value F n d r' of
                     None \<Rightarrow> None
                   | Some (v, q') \<Rightarrow>
                       (case skip_ws q' of
                          [] \<Rightarrow> None
                        | c'' # r'' \<Rightarrow>
                            if c'' = CHR '','' then parse_members F n d r'' (gm_update k v m)
                            else if c'' = CHR ''}'' then Some (gm_update k v m, r'')
                            else None)))"

definition max_nesting :: nat where
  "max_nesting = 10000"

definition Unmarshal :: "('a) float_conv_scheme \<Rightarrow> string \<Rightarrow> goval outcome" where
  "Unmarshal F s =
     (case parse_value F (Suc (length s)) max_nesting s of
        Some (v, q) \<Rightarrow> if skip_ws q = [] then Ok v else Err (ErrorString ''invalid character after top-level value'')
      | None \<Rightarrow> Err (ErrorString ''invalid JSON''))"

text \<open>Into \<^verbatim>\<open>map[string]interface{}\<close>: \<^verbatim>\<open>null\<close> leaves the map nil, any other kind is a type error.\<close>

definition UnmarshalMap :: "('a) float_conv_scheme \<Rightarrow> string \<Rightarrow> goval gomap option outcome" where
  "UnmarshalMap F s =
     (case Unmarshal F s of
        Ok (GMap m) \<Rightarrow> Ok (Some m)
      | Ok GNil \<Rightarrow> Ok None
      | Ok _ \<Rightarrow> Err (ErrorString ''json: cannot unmarshal into map'')
      | Err e \<Rightarrow> Err e
      | Panic e \<Rightarrow> Panic e)"

section \<open>Normal form\<close>

fun norm :: "('a) float_conv_scheme \<Rightarrow> goval \<Rightarrow> goval"
and norm_members :: "('a) float_conv_scheme \<Rightarrow> (string \<times> goval) list \<Rightarrow> goval gomap \<Rightarrow> goval gomap" where
  "norm F (GInt w) = GFloat (the (parse_float F (show_int (sint w))))"
| "norm F (GUint w) = GFloat (the (parse_float F (show_int (uint w))))"
| "norm F (GStr s) = GStr (to_valid s)"
| "norm F (GTime t) = GStr (to_valid (format_time t))"
| "norm F (GList vs) = GList (map (norm F) vs)"
| "norm F (GMap kvs) = GMap (norm_members F kvs [])"
| "norm F v = v"
| "norm_members F [] m = m"
| "norm_members F ((k, v) # kvs) m = norm_members F kvs (gm_update (to_valid k) (norm F v) m)"

fun gv_depth :: "goval \<Rightarrow> nat" and members_depth :: "(string \<times> goval) list \<Rightarrow> nat" where
  "gv_depth (GList []) = 1"
| "gv_depth (GList (v # vs)) = max (Suc (gv_depth v)) (gv_depth (GList vs))"
| "gv_depth (GMap kvs) = Suc (members_depth kvs)"
| "gv_depth _ = 0"
| "members_depth [] = 0"
| "members_depth ((k, v) # kvs) = max (gv_depth v) (members_depth kvs)"

section \<open>Scanning a number in context\<close>

text \<open>What may follow a value inside a document: nothing, a comma or a closing bracket.\<close>

definition stops :: "string \<Rightarrow> bool" where
  "stops r \<longleftrightarrow> r = [] \<or> hd r \<in> {CHR '','', CHR '']'', CHR ''}''}"

lemma stops_Nil [simp]: "stops []"
  by (simp add: stops_def)

lemma stops_Cons [simp]: "stops (c # r) \<longleftrightarrow> c \<in> {CHR '','', CHR '']'', CHR ''}''}"
  by (simp add: stops_def)

lemma stops_not_digit: "stops r \<Longrightarrow> r \<noteq> [] \<Longrightarrow> \<not> is_digit (hd r)"
  by (auto simp: stops_def is_digit_def)

lemma digits1_append:
  assumes "digits1 s = Some (d, q)" and "stops r"
  shows "digits1 (s @ r) = Some (d, q @ r)"
proof (cases "dropWhile is_digit s")
  case Nil
  then have "\<forall>c \<in> set s. is_digit c" by (simp add: dropWhile_eq_Nil_conv)
  moreover have "takeWhile is_digit r = []" "dropWhile is_digit r = r"
    using stops_not_digit [OF assms(2)] by (cases r; auto)+
  ultimately show ?thesis
    using assms(1) by (auto simp: digits1_def takeWhile_append dropWhile_append split: if_splits)
      (metis takeWhile_eq_all_conv)
next
  case (Cons c q')
  then have "\<exists>c \<in> set s. \<not> is_digit c"
    by (metis dropWhile_eq_Nil_conv list.distinct(1))
  then show ?thesis
    using assms(1) by (auto simp: digits1_def takeWhile_append1 dropWhile_append1 split: if_splits)
qed

lemma scan_sign_append: "scan_sign s = (g, q) \<Longrightarrow> s \<noteq> [] \<Longrightarrow> scan_sign (s @ r) = (g, q @ r)"
  by (auto simp: scan_sign_def split: list.splits if_splits)

lemma scan_int_append:
  assumes "scan_int s = Some (i, q)" and "stops r"
  shows "scan_int (s @ r) = Some (i, q @ r)"
  using assms digits1_append [of s i q r]
  by (auto simp: scan_int_def split: list.splits if_splits)

lemma scan_frac_append:
  assumes "scan_frac s = Some (f, q)" and "stops r"
  shows "scan_frac (s @ r) = Some (f, q @ r)"
proof (cases s)
  case Nil
  then show ?thesis using assms by (auto simp: scan_frac_def split: list.splits)
next
  case (Cons c s')
  then show ?thesis
    using assms digits1_append [of s' _ _ r] by (auto simp: scan_frac_def split: if_splits)
qed

lemma scan_exp_append:
  assumes "scan_exp s = Some (e, q)" and "stops r"
  shows "scan_exp (s @ r) = Some (e, q @ r)"
proof (cases s)
  case Nil
  then show ?thesis using assms by (auto simp: scan_exp_def split: list.splits)
next
  case (Cons c s')
  then show ?thesis
    using assms digits1_append [of s' _ _ r] digits1_append [of "tl s'" _ _ r]
    by (auto simp: scan_exp_def split: if_splits list.splits)
qed

lemma scan_number_append:
  assumes "json_number t" and "stops r"
  shows "scan_number (t @ r) = Some (t, r)"
proof -
  obtain g s1 where s1: "scan_sign t = (g, s1)" by fastforce
  then obtain i s2 f s3 e s4 where
    s2: "scan_int s1 = Some (i, s2)" and s3: "scan_frac s2 = Some (f, s3)"
    and s4: "scan_exp s3 = Some (e, s4)" and t: "g @ i @ f @ e = t" "s4 = []"
    using assms(1) by (auto simp: json_number_def scan_number_def split: bind_splits)
  have "t \<noteq> []"
    using s1 s2 by (auto simp: scan_sign_def scan_int_def)
  then show ?thesis
    using scan_sign_append [OF s1, of r] scan_int_append [OF s2 assms(2)]
      scan_frac_append [OF s3 assms(2)] scan_exp_append [OF s4 assms(2)] t
    by (simp add: scan_number_def)
qed

lemma json_number_head:
  assumes "json_number t"
  shows "\<exists>c r. t = c # r \<and> (is_digit c \<or> c = CHR ''-'')"
proof -
  have "is_digit CHR ''0''" by (simp add: is_digit_def)
  moreover have "takeWhile is_digit s \<noteq> [] \<Longrightarrow> \<exists>c r. s = c # r \<and> is_digit c" for s
    by (cases s) (auto split: if_splits)
  ultimately show ?thesis
    using assms unfolding json_number_def scan_number_def
    by (cases t) (auto simp: scan_sign_def scan_int_def digits1_def split: if_splits)
qed

lemma show_nat_head:
  "\<exists>c r. show_nat n = c # r \<and> is_digit c \<and> (0 < n \<longrightarrow> c \<noteq> CHR ''0'') \<and> (n = 0 \<longrightarrow> show_nat n = [CHR ''0''])"
proof (induction n rule: show_nat.induct)
  case (1 n)
  show ?case
  proof (cases "n < 10")
    case True
    then have "digit_char n = CHR ''0'' \<longleftrightarrow> n = 0"
      using of_char_digit_char [OF True] of_char_eq_iff [of "digit_char n" "CHR ''0''", where ?'a = nat]
      by simp
    then show ?thesis
      using True by (subst show_nat.simps, subst show_nat.simps) auto
  next
    case False
    then have "0 < n div 10" by (simp add: div_greater_zero_iff)
    then show ?thesis
      using 1 [OF False] False by (subst show_nat.simps) auto
  qed
qed

lemma scan_int_show_nat: "scan_int (show_nat n) = Some (show_nat n, [])"
proof -
  obtain c r where h: "show_nat n = c # r" "is_digit c" "0 < n \<longrightarrow> c \<noteq> CHR ''0''"
    "n = 0 \<longrightarrow> show_nat n = [CHR ''0'']"
    using show_nat_head by blast
  have "\<forall>x \<in> set (c # r). is_digit x"
    using show_nat_digits [of n] unfolding h(1) by (simp add: list_all_iff)
  then have w: "takeWhile is_digit (c # r) = c # r" "dropWhile is_digit (c # r) = []"
    by (simp_all only: takeWhile_eq_all_conv dropWhile_eq_Nil_conv)
  have d: "digits1 (c # r) = Some (c # r, [])"
    unfolding digits1_def w by simp
  show ?thesis
    using d h by (cases "n = 0") (auto simp: scan_int_def)
qed

lemma json_number_show_int: "json_number (show_int i)"
proof -
  obtain c r where "show_nat (nat i) = c # r" "is_digit c"
    using show_nat_head by blast
  moreover have "\<not> is_digit CHR ''-''"
    by (simp add: is_digit_def)
  ultimately have "scan_sign (show_nat (nat i)) = ([], show_nat (nat i))"
    by (auto simp: scan_sign_def)
  then show ?thesis
    by (simp add: json_number_def scan_number_def show_int_def scan_int_show_nat)
      (simp add: scan_sign_def scan_int_show_nat scan_frac_def scan_exp_def)
qed

section \<open>Decoding an encoded value\<close>

lemma skip_ws_Cons: "\<not> is_ws c \<Longrightarrow> skip_ws (c # r) = c # r"
  by (simp add: skip_ws_def)

lemma skip_ws_stop:
  "skip_ws (CHR '','' # r) = CHR '','' # r" "skip_ws (CHR '']'' # r) = CHR '']'' # r"
  "skip_ws (CHR ''}'' # r) = CHR ''}'' # r" "skip_ws (CHR '':'' # r) = CHR '':'' # r"
  "skip_ws (CHR ''{'' # r) = CHR ''{'' # r" "skip_ws (CHR ''['' # r) = CHR ''['' # r"
  "skip_ws (CHR 0x22 # r) = CHR 0x22 # r"
  by (simp_all add: skip_ws_def is_ws_def cv_def)

definition val_head :: "char \<Rightarrow> bool" where
  "val_head c \<longleftrightarrow> is_digit c
     \<or> c \<in> {CHR ''-'', CHR ''{'', CHR ''['', CHR 0x22, CHR ''n'', CHR ''t'', CHR ''f''}"

lemma val_head_not_ws: "val_head c \<Longrightarrow> \<not> is_ws c"
  by (auto simp: val_head_def is_ws_def is_digit_def cv_def)

lemma val_head_not_close: "val_head c \<Longrightarrow> c \<noteq> CHR '']'' \<and> c \<noteq> CHR ''}''"
  by (auto simp: val_head_def is_digit_def)

lemma number_head_val: "json_number t \<Longrightarrow> \<exists>c r. t = c # r \<and> val_head c"
  using json_number_head by (fastforce simp: val_head_def)

lemma enc_head:
  assumes "float_conv_ok F" and "marshalable v"
  shows "\<exists>c r. enc F v = c # r \<and> val_head c"
  using assms number_head_val [OF json_number_show_int] number_head_val [of "json_float F _"]
  by (cases v) (auto simp: val_head_def enc_string_def float_conv_ok_def)

lemma parse_number:
  assumes "json_number t" and "stops r" and "parse_float F t = Some x"
  shows "parse_value F (Suc n) d (t @ r) = Some (GFloat x, r)"
proof -
  obtain c t' where t: "t = c # t'" "is_digit c \<or> c = CHR ''-''"
    using json_number_head [OF assms(1)] by blast
  then have c: "\<not> is_ws c" "c \<notin> {CHR ''{'', CHR ''['', CHR 0x22, CHR ''n'', CHR ''t'', CHR ''f''}"
    by (auto simp: is_ws_def is_digit_def cv_def)
  show ?thesis
    using scan_number_append [OF assms(1,2)] assms(3) c
    by (simp add: t(1) skip_ws_Cons)
qed

lemma parse_enc_string:
  "parse_value F (Suc n) d (enc_string s @ r) = Some (GStr (to_valid s), r)"
  by (simp add: enc_string_def skip_ws_stop unquote_enc_chars)

lemma gv_depth_list: "gv_depth (GList vs) \<le> Suc d \<longleftrightarrow> (\<forall>v \<in> set vs. gv_depth v \<le> d)"
  by (induction vs) auto

lemma enc_elems_Cons:
  "enc_elems F (v # vs) = enc F v @ (if vs = [] then [] else CHR '','' # enc_elems F vs)"
  by (cases vs) auto

lemma enc_members_Cons:
  "enc_members F ((k, v) # kvs) =
     enc_string k @ '':'' @ enc F v @ (if kvs = [] then [] else CHR '','' # enc_members F kvs)"
  by (cases kvs) auto

lemma parse_elems_enc:
  assumes F: "float_conv_ok F" and "vs \<noteq> []" and "marshalable (GList vs)"
    and "\<And>v n r. v \<in> set vs \<Longrightarrow> marshalable v \<Longrightarrow> length (enc F v) < n \<Longrightarrow> stops r
           \<Longrightarrow> parse_value F n d (enc F v @ r) = Some (norm F v, r)"
    and "length (enc_elems F vs) + 1 < n"
  shows "parse_elems F n d (enc_elems F vs @ CHR '']'' # rest) = Some (map (norm F) vs, rest)"
  using assms(2-)
proof (induction vs arbitrary: n)
  case (Cons v vs)
  then obtain n' where n: "n = Suc n'" by (cases n) auto
  let ?r = "(if vs = [] then [] else CHR '','' # enc_elems F vs) @ CHR '']'' # rest"
  have "parse_value F n' d (enc F v @ ?r) = Some (norm F v, ?r)"
    using Cons.prems n by (intro Cons.prems(3)) (auto simp: enc_elems_Cons split: if_splits)
  moreover have "parse_elems F n' d (enc_elems F vs @ CHR '']'' # rest) = Some (map (norm F) vs, rest)"
    if "vs \<noteq> []"
    using Cons.prems n that by (intro Cons.IH) (auto simp: enc_elems_Cons split: if_splits)
  ultimately show ?case
    by (simp add: n enc_elems_Cons skip_ws_stop)
qed simp

lemma parse_members_enc:
  assumes F: "float_conv_ok F" and "kvs \<noteq> []" and "marshalable_members kvs"
    and "\<And>k v n r. (k, v) \<in> set kvs \<Longrightarrow> marshalable v \<Longrightarrow> length (enc F v) < n \<Longrightarrow> stops r
           \<Longrightarrow> parse_value F n d (enc F v @ r) = Some (norm F v, r)"
    and "length (enc_members F kvs) + 1 < n"
  shows "parse_members F n d (enc_members F kvs @ CHR ''}'' # rest) m = Some (norm_members F kvs m, rest)"
  using assms(2-)
proof (induction kvs arbitrary: n m)
  case (Cons kv kvs)
  obtain k v where kv: "kv = (k, v)" by force
  obtain n' where n: "n = Suc n'" using Cons.prems(4) by (cases n) auto
  let ?r = "(if kvs = [] then [] else CHR '','' # enc_members F kvs) @ CHR ''}'' # rest"
  have 1: "parse_value F n' d (enc F v @ ?r) = Some (norm F v, ?r)"
    using Cons.prems n kv by (intro Cons.prems(3)) (auto simp: enc_members_Cons split: if_splits)
  have 2: "parse_members F n' d (enc_members F kvs @ CHR ''}'' # rest) m'
      = Some (norm_members F kvs m', rest)" if "kvs \<noteq> []" for m'
    using Cons.prems n kv that by (intro Cons.IH) (auto simp: enc_members_Cons split: if_splits)
  have 3: "unquote (enc_chars k @ CHR 0x22 # CHR '':'' # enc F v @ ?r)
      = Some (to_valid k, CHR '':'' # enc F v @ ?r)"
    by (rule unquote_enc_chars)
  show ?case
    using 1 2 3 by (simp add: n kv enc_members_Cons enc_string_def skip_ws_stop split del: if_split)
      (simp add: skip_ws_stop)
qed simp

lemma members_depth_iff: "members_depth kvs \<le> d \<longleftrightarrow> (\<forall>(k, v) \<in> set kvs. gv_depth v \<le> d)"
  by (induction kvs) auto

lemma parse_value_enc:
  assumes F: "float_conv_ok F"
  shows "marshalable v \<Longrightarrow> gv_depth v \<le> d \<Longrightarrow> length (enc F v) < n \<Longrightarrow> stops r
    \<Longrightarrow> parse_value F n d (enc F v @ r) = Some (norm F v, r)"
proof (induction v arbitrary: d n r)
  case GNil
  then show ?case by (cases n) (simp_all add: skip_ws_def is_ws_def cv_def strip_lit_def)
next
  case (GBool b)
  then show ?case by (cases n) (auto simp: skip_ws_def is_ws_def cv_def strip_lit_def)
next
  case (GInt w)
  have "parse_float F (show_int (sint w)) \<noteq> None"
    using F sint_lt [of w] sint_ge [of w] by (simp add: float_conv_ok_def)
  then show ?case
    using GInt parse_number [OF json_number_show_int, of r F "sint w"] by (cases n) auto
next
  case (GUint w)
  have "parse_float F (show_int (uint w)) \<noteq> None"
    using F uint_bounded [of w] by (simp add: float_conv_ok_def)
  then show ?case
    using GUint parse_number [OF json_number_show_int, of r F "uint w"] by (cases n) auto
next
  case (GFloat x)
  then show ?case
    using F parse_number [of "json_float F x" r F x] by (cases n) (auto simp: float_conv_ok_def)
next
  case (GStr s)
  then show ?case using parse_enc_string [of F] by (cases n) auto
next
  case (GTime t)
  then show ?case using parse_enc_string [of F] by (cases n) auto
next
  case (GList vs)
  obtain n' d' where n: "n = Suc n'" and d: "d = Suc d'"
    using GList.prems by (cases n; cases d; cases vs) auto
  show ?case
  proof (cases vs)
    case Nil
    then show ?thesis by (simp add: n d skip_ws_stop)
  next
    case (Cons v vs')
    obtain c u where c: "enc F v = c # u" "val_head c"
      using enc_head [OF F, of v] GList.prems(1) Cons by auto
    have "parse_elems F n' d' (enc_elems F vs @ CHR '']'' # r) = Some (map (norm F) vs, r)"
      using GList n d by (intro parse_elems_enc [OF F]) (auto simp: Cons gv_depth_list)
    moreover have "skip_ws (enc_elems F vs @ CHR '']'' # r) = enc_elems F vs @ CHR '']'' # r"
      "\<exists>q. enc_elems F vs = c # q"
      using c by (simp_all add: Cons enc_elems_Cons skip_ws_Cons val_head_not_ws)
    ultimately show ?thesis
      using val_head_not_close [OF c(2)] by (auto simp: n d skip_ws_stop)
  qed
next
  case (GMap kvs)
  obtain n' d' where n: "n = Suc n'" and d: "d = Suc d'"
    using GMap.prems by (cases n; cases d) auto
  show ?case
  proof (cases kvs)
    case Nil
    then show ?thesis by (simp add: n d skip_ws_stop)
  next
    case (Cons kv kvs')
    have "parse_members F n' d' (enc_members F kvs @ CHR ''}'' # r) []
        = Some (norm_members F kvs [], r)"
    proof (intro parse_members_enc [OF F])
      show "parse_value F n d' (enc F v @ r) = Some (norm F v, r)"
        if "(k, v) \<in> set kvs" "marshalable v" "length (enc F v) < n" "stops r" for k v n r
        using that GMap.prems(2) GMap.IH [of "(k, v)" v d' n r] d
        by (auto simp: members_depth_iff)
    qed (use GMap.prems n Cons in auto)
    moreover have "skip_ws (enc_members F kvs @ CHR ''}'' # r) = enc_members F kvs @ CHR ''}'' # r"
      "\<exists>q. enc_members F kvs = CHR 0x22 # q"
      by (cases kv; simp add: Cons enc_members_Cons enc_string_def skip_ws_stop)+
    ultimately show ?thesis
      by (auto simp: n d skip_ws_stop)
  qed
qed

text \<open>\<^verbatim>\<open>json.Unmarshal\<close> after \<^verbatim>\<open>json.Marshal\<close>.\<close>

lemma Unmarshal_enc:
  assumes "float_conv_ok F" and "marshalable v" and "gv_depth v \<le> max_nesting"
  shows "Unmarshal F (enc F v) = Ok (norm F v)"
  using parse_value_enc [OF assms, of "Suc (length (enc F v))" "[]"]
  by (simp add: Unmarshal_def skip_ws_def)

section \<open>Normal values\<close>

text \<open>The values a decoder produces; \<open>norm\<close> leaves them alone.\<close>

fun normal :: "goval \<Rightarrow> bool" and normal_members :: "(string \<times> goval) list \<Rightarrow> bool" where
  "normal GNil = True"
| "normal (GBool b) = True"
| "normal (GInt w) = False"
| "normal (GUint w) = False"
| "normal (GFloat x) = f64_finite x"
| "normal (GStr s) = (to_valid s = s)"
| "normal (GTime t) = False"
| "normal (GList []) = True"
| "normal (GList (v # vs)) = (normal v \<and> normal (GList vs))"
| "normal (GMap kvs) = (gm_wf kvs \<and> normal_members kvs)"
| "normal_members [] = True"
| "normal_members ((k, v) # kvs) = (to_valid k = k \<and> normal v \<and> normal_members kvs)"

lemma to_valid_prefix:
  assumes "n = utf8_len (c # s)" and "n \<noteq> 0"
  shows "to_valid (take n (c # s) @ t) = take n (c # s) @ to_valid t"
proof -
  obtain u where u: "take n (c # s) @ t = c # u"
    using assms(2) by (cases n) auto
  have n: "utf8_len (c # u) = n"
    using utf8_len_prefix [of "c # s" n t] assms u by simp
  have "length (take n (c # s)) = n"
    using utf8_len_le [of "c # s"] assms(1) by simp
  then have "take n (c # u) = take n (c # s)" "drop n (c # u) = t"
    unfolding u [symmetric] by simp_all
  then show ?thesis
    unfolding u using assms(2) n by (simp add: to_valid.simps(2) [of c u])
qed

lemma to_valid_repl: "to_valid (repl_char @ t) = repl_char @ to_valid t"
  using to_valid_prefix [of 3 "char_of (239 :: nat)" "[char_of (191 :: nat), char_of (189 :: nat)]" t]
  by (simp add: repl_char_def is_cont_def)

lemma to_valid_idem [simp]: "to_valid (to_valid s) = to_valid s"
proof (induction s rule: to_valid.induct)
  case (2 c s)
  then show ?case
    by (simp add: to_valid.simps(2) [of c s] to_valid_repl to_valid_prefix)
qed (simp add: to_valid.simps)

lemma normal_list_iff [simp]: "normal (GList vs) \<longleftrightarrow> (\<forall>v \<in> set vs. normal v)"
  by (induction vs) auto

lemma normal_members_iff: "normal_members kvs \<longleftrightarrow> (\<forall>(k, v) \<in> set kvs. to_valid k = k \<and> normal v)"
  by (induction kvs) auto

lemma set_gm_update: "set (gm_update k v m) \<subseteq> insert (k, v) (set m)"
  by (induction k v m rule: gm_update.induct) auto

lemma gm_update_end: "gm_wf (m @ [(k, v)]) \<Longrightarrow> gm_update k v m = m @ [(k, v)]"
proof (induction m)
  case (Cons a m)
  then show ?case by (cases a) (force simp: gm_wf_Cons)
qed simp

lemma norm_members_id:
  assumes "gm_wf (m @ kvs)" and "\<forall>(k, v) \<in> set kvs. to_valid k = k \<and> norm F v = v"
  shows "norm_members F kvs m = m @ kvs"
  using assms
proof (induction kvs arbitrary: m)
  case (Cons kv kvs)
  obtain k v where kv: "kv = (k, v)" by force
  have "gm_wf (m @ [(k, v)])"
    using Cons.prems(1) by (simp add: kv gm_wf_def sorted_wrt_append)
  then show ?case
    using Cons kv by (simp add: gm_update_end)
qed simp

lemma norm_normal: "normal v \<Longrightarrow> norm F v = v"
proof (induction v)
  case (GList vs)
  then show ?case by (simp add: map_idI)
next
  case (GMap kvs)
  have "to_valid k = k \<and> norm F v = v" if "(k, v) \<in> set kvs" for k v
    using GMap.prems GMap.IH [of "(k, v)" v] that by (auto simp: normal_members_iff)
  then have "\<forall>(k, v) \<in> set kvs. to_valid k = k \<and> norm F v = v" by blast
  then show ?case
    using GMap.prems norm_members_id [of "[]" kvs F] by simp
qed auto

lemma norm_members_normal:
  assumes "gm_wf m" and "normal_members m" and "\<forall>(k, v) \<in> set kvs. normal (norm F v)"
  shows "gm_wf (norm_members F kvs m) \<and> normal_members (norm_members F kvs m)"
  using assms
proof (induction kvs arbitrary: m)
  case (Cons kv kvs)
  obtain k v where kv: "kv = (k, v)" by force
  have "normal_members (gm_update (to_valid k) (norm F v) m)"
    using Cons.prems set_gm_update [of "to_valid k" "norm F v" m]
    by (fastforce simp: kv normal_members_iff)
  then show ?case
    using Cons.IH [of "gm_update (to_valid k) (norm F v) m"] Cons.prems by (simp add: kv)
qed simp

lemma marshalable_members_iff: "marshalable_members kvs \<longleftrightarrow> (\<forall>(k, v) \<in> set kvs. marshalable v)"
  by (induction kvs) auto

lemma marshalable_list_iff [simp]: "marshalable (GList vs) \<longleftrightarrow> (\<forall>v \<in> set vs. marshalable v)"
  by (induction vs) auto

lemma parse_int_finite:
  assumes "float_conv_ok F" and "\<bar>i\<bar> < 2 ^ 64"
  shows "\<exists>x. parse_float F (show_int i) = Some x \<and> f64_finite x"
proof -
  obtain x where "parse_float F (show_int i) = Some x"
    using assms unfolding float_conv_ok_def by (metis not_None_eq)
  then show ?thesis
    using assms(1) json_number_show_int unfolding float_conv_ok_def by blast
qed

lemma normal_norm:
  assumes F: "float_conv_ok F"
  shows "marshalable v \<Longrightarrow> normal (norm F v)"
proof (induction v)
  case (GInt w)
  have "\<bar>sint w\<bar> < 2 ^ 64"
    using sint_lt [of w] sint_ge [of w] by simp
  then show ?case
    using parse_int_finite [OF F, of "sint w"] by auto
next
  case (GUint w)
  show ?case
    using parse_int_finite [OF F, of "uint w"] uint_bounded [of w] by auto
next
  case (GMap kvs)
  have "normal (norm F v)" if "(k, v) \<in> set kvs" for k v
    using GMap.prems GMap.IH [of "(k, v)" v] that by (auto simp: marshalable_members_iff)
  then show ?case
    using norm_members_normal [of "[]" kvs F] by auto
qed auto

lemma norm_norm: "float_conv_ok F \<Longrightarrow> marshalable v \<Longrightarrow> norm F (norm F v) = norm F v"
  by (simp add: norm_normal normal_norm)

lemma marshalable_normal: "normal v \<Longrightarrow> marshalable v"
proof (induction v)
  case (GMap kvs)
  have "marshalable v" if "(k, v) \<in> set kvs" for k v
    using GMap.prems GMap.IH [of "(k, v)" v] that by (auto simp: normal_members_iff)
  then show ?case by (auto simp: marshalable_members_iff)
qed auto

lemma norm_members_depth:
  assumes "members_depth m \<le> d" and "\<forall>(k, v) \<in> set kvs. gv_depth (norm F v) \<le> d"
  shows "members_depth (norm_members F kvs m) \<le> d"
  using assms
proof (induction kvs arbitrary: m)
  case (Cons kv kvs)
  obtain k v where kv: "kv = (k, v)" by force
  have "members_depth (gm_update (to_valid k) (norm F v) m) \<le> d"
    using Cons.prems set_gm_update [of "to_valid k" "norm F v" m]
    by (fastforce simp: kv members_depth_iff)
  then show ?case
    using Cons.IH [of "gm_update (to_valid k) (norm F v) m"] Cons.prems by (simp add: kv)
qed simp

lemma depth_norm: "gv_depth v \<le> d \<Longrightarrow> gv_depth (norm F v) \<le> d"
proof (induction v arbitrary: d)
  case (GList vs)
  obtain d' where "d = Suc d'" using GList.prems by (cases d; cases vs) auto
  then show ?case using GList by (simp add: gv_depth_list)
next
  case (GMap kvs)
  obtain d' where d: "d = Suc d'" using GMap.prems by (cases d) auto
  have "gv_depth (norm F v) \<le> d'" if "(k, v) \<in> set kvs" for k v
    using GMap.prems GMap.IH [of "(k, v)" v d'] that d by (auto simp: members_depth_iff)
  then show ?case
    using norm_members_depth [of "[]" d' kvs F] d by auto
qed simp_all

text \<open>Normalising some values of a map first does not change its normal form.\<close>

lemma norm_members_cong:
  "map (\<lambda>(k, v). (k, norm F v)) kvs = map (\<lambda>(k, v). (k, norm F v)) kvs'
     \<Longrightarrow> norm_members F kvs m = norm_members F kvs' m"
proof (induction kvs arbitrary: kvs' m)
  case (Cons kv kvs)
  obtain k v where kv: "kv = (k, v)" by force
  obtain v' kvs'' where kvs': "kvs' = (k, v') # kvs''" and v': "norm F v' = norm F v"
    and eq: "map (\<lambda>(k, v). (k, norm F v)) kvs = map (\<lambda>(k, v). (k, norm F v)) kvs''"
    using Cons.prems by (auto simp: kv Cons_eq_map_conv)
  show ?case
    unfolding kv kvs' norm_members.simps v' by (rule Cons.IH [OF eq])
qed simp

lemmas json_facts = norm_norm normal_norm norm_normal marshalable_normal depth_norm

end
