(* ===== verification/Go_Assert.thy ===== *)
theory Go_Assert
  imports Logryph_Prelude
begin

text \<open>
  The assertion library, \<^verbatim>\<open>src/internal/assert/assert.go\<close>. The package variable \<^verbatim>\<open>StrictMode\<close> is the
  argument \<open>strict\<close> of every operation of the development that asserts: a failed check panics when
  it is on (the default, which \<^verbatim>\<open>main.go\<close> does not change) and returns an error when it is off.
  Some modelled messages leave out operands of their format verbs; log output is not modelled.
\<close>

definition Check :: "bool \<Rightarrow> bool \<Rightarrow> string \<Rightarrow> unit outcome" where
  "Check strict condition msg =
     (if condition then Ok ()
      else if strict then Panic (AssertionFailed msg)
      else Err (AssertionFailed msg))"

text \<open>
  The argument of \<^verbatim>\<open>NotNil\<close> has type \<^verbatim>\<open>interface{}\<close>: it is the nil interface, or it carries a
  dynamic type with a pointer of that type, which may itself be nil.
\<close>

datatype iface = NilInterface | TypedPtr string bool

definition NotNil :: "bool \<Rightarrow> iface \<Rightarrow> string \<Rightarrow> unit outcome" where
  "NotNil strict obj name = Check strict (obj \<noteq> NilInterface) (name @ '' must not be nil'')"

definition InRange :: "bool \<Rightarrow> int \<Rightarrow> int \<Rightarrow> int \<Rightarrow> string \<Rightarrow> unit outcome" where
  "InRange strict val lo hi name =
     Check strict (val \<ge> lo \<and> val \<le> hi) (name @ '' out of range'')"

definition AssertTrue :: "bool \<Rightarrow> bool \<Rightarrow> string \<Rightarrow> unit outcome" where
  "AssertTrue strict condition msg = Check strict condition msg"

lemma Check_True [simp]: "Check strict True msg = Ok ()"
  by (simp add: Check_def)

lemma Check_Ok_iff [simp, outcome_simps]: "Check strict c msg = Ok u \<longleftrightarrow> c"
  by (simp add: Check_def)

lemma Check_strict [simp]: "\<not> c \<Longrightarrow> Check True c msg = Panic (AssertionFailed msg)"
  by (simp add: Check_def)

lemma Check_lenient [simp]: "\<not> c \<Longrightarrow> Check False c msg = Err (AssertionFailed msg)"
  by (simp add: Check_def)

lemma Check_Err_iff [outcome_simps]:
  "Check strict c msg = Err e \<longleftrightarrow> \<not> c \<and> \<not> strict \<and> e = AssertionFailed msg"
  by (auto simp: Check_def)

lemma Check_Panic_iff [outcome_simps]:
  "Check strict c msg = Panic e \<longleftrightarrow> \<not> c \<and> strict \<and> e = AssertionFailed msg"
  by (auto simp: Check_def)

lemma InRange_Ok_iff [simp, outcome_simps]:
  "InRange strict v lo hi name = Ok u \<longleftrightarrow> lo \<le> v \<and> v \<le> hi"
  by (simp add: InRange_def)

lemma InRange_in_range [simp]:
  "lo \<le> v \<Longrightarrow> v \<le> hi \<Longrightarrow> InRange strict v lo hi name = Ok ()"
  by (simp add: InRange_def)

end
