(* ===== verification/Event_Model.thy ===== *)
theory Event_Model
  imports Json_Values Go_Assert
begin

text \<open>
  The event record of \<^verbatim>\<open>src/internal/models/event.go\<close> and the payload map the ledger hashes. The
  same map literal stands in \<^verbatim>\<open>processor.go\<close>, \<^verbatim>\<open>genesis.go\<close> and \<^verbatim>\<open>verify.go\<close>. A Go map field is
  \<open>None\<close> when it is nil.
\<close>

record event =
  ID :: string
  RunID :: string
  SeqIndex :: u64
  Timestamp :: gotime
  Actor :: string
  EventType :: string
  Method :: string
  Params :: "goval gomap option"
  Response :: "goval gomap option"
  TaskID :: string
  TaskState :: string
  ParentID :: string
  PolicyID :: string
  RiskLevel :: string
  PrevHash :: string
  CurrentHash :: string
  Signature :: string
  WasBlocked :: bool

text \<open>The zero value \<^verbatim>\<open>models.Event{}\<close>.\<close>

definition zero_event :: event where
  "zero_event =
     \<lparr>ID = '''', RunID = '''', SeqIndex = 0, Timestamp = zero_time, Actor = '''', EventType = '''',
      Method = '''', Params = None, Response = None, TaskID = '''', TaskState = '''',
      ParentID = '''', PolicyID = '''', RiskLevel = '''', PrevHash = '''', CurrentHash = '''',
      Signature = '''', WasBlocked = False\<rparr>"

text \<open>A map field as an \<^verbatim>\<open>interface{}\<close> value.\<close>

definition map_value :: "goval gomap option \<Rightarrow> goval" where
  "map_value m = (case m of None \<Rightarrow> GNil | Some kvs \<Rightarrow> GMap kvs)"

definition event_payload :: "event \<Rightarrow> goval" where
  "event_payload e = GMap (gm_of_list
     [(''id'', GStr (ID e)),
      (''run_id'', GStr (RunID e)),
      (''seq_index'', GUint (SeqIndex e)),
      (''timestamp'', GStr (format_time (Timestamp e))),
      (''actor'', GStr (Actor e)),
      (''event_type'', GStr (EventType e)),
      (''method'', GStr (Method e)),
      (''params'', map_value (Params e)),
      (''response'', map_value (Response e)),
      (''task_id'', GStr (TaskID e)),
      (''task_state'', GStr (TaskState e)),
      (''parent_id'', GStr (ParentID e)),
      (''policy_id'', GStr (PolicyID e)),
      (''risk_level'', GStr (RiskLevel e))] [])"

text \<open>
  Events the JSON layer can carry: a printable time, and maps that encode and stay below the nesting
  limit once they are inside the payload.
\<close>

definition map_ok :: "goval gomap option \<Rightarrow> bool" where
  "map_ok m \<longleftrightarrow> marshalable (map_value m) \<and> gv_depth (map_value m) < max_nesting"

definition event_ok :: "event \<Rightarrow> bool" where
  "event_ok e \<longleftrightarrow> valid_time (Timestamp e) \<and> map_ok (Params e) \<and> map_ok (Response e)"

text \<open>The event as it reads back from the store: times without a monotonic reading, maps decoded.\<close>

definition norm_map :: "('a) float_conv_scheme \<Rightarrow> goval gomap option \<Rightarrow> goval gomap option" where
  "norm_map F m = map_option (\<lambda>kvs. norm_members F kvs []) m"

definition norm_event :: "('a) float_conv_scheme \<Rightarrow> event \<Rightarrow> event" where
  "norm_event F e = e\<lparr>Timestamp := Truncate0 (Timestamp e),
     Params := norm_map F (Params e), Response := norm_map F (Response e), WasBlocked := False\<rparr>"

section \<open>Lemmas\<close>

lemma event_payload_members:
  "event_payload e = GMap
     [(''actor'', GStr (Actor e)),
      (''event_type'', GStr (EventType e)),
      (''id'', GStr (ID e)),
      (''method'', GStr (Method e)),
      (''params'', map_value (Params e)),
      (''parent_id'', GStr (ParentID e)),
      (''policy_id'', GStr (PolicyID e)),
      (''response'', map_value (Response e)),
      (''risk_level'', GStr (RiskLevel e)),
      (''run_id'', GStr (RunID e)),
      (''seq_index'', GUint (SeqIndex e)),
      (''task_id'', GStr (TaskID e)),
      (''task_state'', GStr (TaskState e)),
      (''timestamp'', GStr (format_time (Timestamp e)))]"
  by (simp add: event_payload_def less_char_def)

lemma map_value_norm [simp]: "map_value (norm_map F m) = norm F (map_value m)"
  by (cases m) (simp_all add: map_value_def norm_map_def)

lemma payload_marshalable: "event_ok e \<Longrightarrow> marshalable (event_payload e)"
  by (simp add: event_payload_members event_ok_def map_ok_def)

lemma payload_depth: "event_ok e \<Longrightarrow> gv_depth (event_payload e) \<le> max_nesting"
  by (simp add: event_payload_members event_ok_def map_ok_def max_nesting_def)

lemma payload_not_nil [simp]: "event_payload e \<noteq> GNil"
  by (simp add: event_payload_def)

lemma map_ok_norm: "float_conv_ok F \<Longrightarrow> map_ok m \<Longrightarrow> map_ok (norm_map F m)"
  using depth_norm [of "map_value m" "max_nesting - 1" F]
  by (auto simp: map_ok_def marshalable_normal normal_norm max_nesting_def)

lemma event_ok_norm: "float_conv_ok F \<Longrightarrow> event_ok e \<Longrightarrow> event_ok (norm_event F e)"
  by (simp add: event_ok_def norm_event_def map_ok_norm)

lemma payload_norm_event:
  assumes "float_conv_ok F" and "event_ok e"
  shows "norm F (event_payload (norm_event F e)) = norm F (event_payload e)"
  using assms by (auto simp: event_payload_members norm_event_def event_ok_def map_ok_def norm_norm
      intro!: norm_members_cong simp del: norm_members.simps)

end
