(* ===== verification/Sha256.thy ===== *)
theory Sha256
  imports Logryph_Prelude
begin

unbundle bit_operations_syntax

text \<open>
  The two encodings of the Go standard library that the ledger's hashes rest on: SHA-256
  (\<^verbatim>\<open>crypto/sha256\<close>, FIPS 180-4) and hexadecimal text (\<^verbatim>\<open>encoding/hex\<close>). Both are executable.
\<close>

section \<open>SHA-256\<close>

type_synonym w32 = "32 word"

text \<open>
  The constants come from the standard's own recipe: the first 32 bits of the fractional parts of the
  cube roots (round constants) and square roots (initial state) of the first primes.
\<close>

primrec iroot :: "nat \<Rightarrow> int \<Rightarrow> nat \<Rightarrow> int \<Rightarrow> int" where
  "iroot k n 0 r = r"
| "iroot k n (Suc b) r = iroot k n b (if (r + 2 ^ b) ^ k \<le> n then r + 2 ^ b else r)"

definition root_bits :: "nat \<Rightarrow> int \<Rightarrow> w32" where
  "root_bits k p = of_int (iroot k (p * 2 ^ (32 * k)) 36 0)"

definition sha_primes :: "int list" where
  "sha_primes = [
    2, 3, 5, 7, 11, 13, 17, 19, 23, 29, 31, 37, 41, 43, 47, 53, 59, 61, 67, 71, 73, 79,
    83, 89, 97, 101, 103, 107, 109, 113, 127, 131, 137, 139, 149, 151, 157, 163, 167, 173, 179, 181, 191, 193,
    197, 199, 211, 223, 227, 229, 233, 239, 241, 251, 257, 263, 269, 271, 277, 281, 283, 293, 307, 311]"

definition sha_K :: "w32 list" where
  "sha_K = map (root_bits 3) sha_primes"

type_synonym sha_state = "w32 \<times> w32 \<times> w32 \<times> w32 \<times> w32 \<times> w32 \<times> w32 \<times> w32"

definition sha_init :: sha_state where
  "sha_init = (root_bits 2 2, root_bits 2 3, root_bits 2 5, root_bits 2 7,
               root_bits 2 11, root_bits 2 13, root_bits 2 17, root_bits 2 19)"

definition sha_ch :: "w32 \<Rightarrow> w32 \<Rightarrow> w32 \<Rightarrow> w32" where
  "sha_ch x y z = (x AND y) XOR (NOT x AND z)"

definition sha_maj :: "w32 \<Rightarrow> w32 \<Rightarrow> w32 \<Rightarrow> w32" where
  "sha_maj x y z = (x AND y) XOR (x AND z) XOR (y AND z)"

definition sha_S0 :: "w32 \<Rightarrow> w32" where
  "sha_S0 x = word_rotr 2 x XOR word_rotr 13 x XOR word_rotr 22 x"

definition sha_S1 :: "w32 \<Rightarrow> w32" where
  "sha_S1 x = word_rotr 6 x XOR word_rotr 11 x XOR word_rotr 25 x"

definition sha_s0 :: "w32 \<Rightarrow> w32" where
  "sha_s0 x = word_rotr 7 x XOR word_rotr 18 x XOR drop_bit 3 x"

definition sha_s1 :: "w32 \<Rightarrow> w32" where
  "sha_s1 x = word_rotr 17 x XOR word_rotr 19 x XOR drop_bit 10 x"

definition be_bytes4 :: "w32 \<Rightarrow> byte list" where
  "be_bytes4 w = [ucast (drop_bit 24 w), ucast (drop_bit 16 w), ucast (drop_bit 8 w), ucast w]"

definition be_bytes8 :: "u64 \<Rightarrow> byte list" where
  "be_bytes8 w = be_bytes4 (ucast (drop_bit 32 w)) @ be_bytes4 (ucast w)"

definition sha_pad :: "byte list \<Rightarrow> byte list" where
  "sha_pad m =
     m @ [0x80] @ replicate ((119 - length m mod 64) mod 64) 0 @ be_bytes8 (of_nat (8 * length m))"

fun be_words :: "byte list \<Rightarrow> w32 list" where
  "be_words (a # b # c # d # bs) =
     (push_bit 24 (ucast a) OR push_bit 16 (ucast b) OR push_bit 8 (ucast c) OR ucast d) # be_words bs"
| "be_words _ = []"

text \<open>The message schedule, kept in reverse: the newest word first.\<close>

primrec sha_schedule :: "nat \<Rightarrow> w32 list \<Rightarrow> w32 list" where
  "sha_schedule 0 ws = rev ws"
| "sha_schedule (Suc n) ws =
     sha_schedule n ((sha_s1 (ws ! 1) + ws ! 6 + sha_s0 (ws ! 14) + ws ! 15) # ws)"

fun sha_round :: "sha_state \<Rightarrow> w32 \<times> w32 \<Rightarrow> sha_state" where
  "sha_round (a, b, c, d, e, f, g, h) (k, w) =
     (let t1 = h + sha_S1 e + sha_ch e f g + k + w;
          t2 = sha_S0 a + sha_maj a b c
      in (t1 + t2, a, b, c, d + t1, e, f, g))"

fun sha_add :: "sha_state \<Rightarrow> sha_state \<Rightarrow> sha_state" where
  "sha_add (a, b, c, d, e, f, g, h) (a', b', c', d', e', f', g', h') =
     (a + a', b + b', c + c', d + d', e + e', f + f', g + g', h + h')"

definition sha_block :: "sha_state \<Rightarrow> byte list \<Rightarrow> sha_state" where
  "sha_block s blk =
     sha_add s (foldl sha_round s (zip sha_K (sha_schedule 48 (rev (be_words blk)))))"

fun sha_blocks :: "sha_state \<Rightarrow> byte list \<Rightarrow> sha_state" where
  "sha_blocks s m =
     (if length m < 64 then s else sha_blocks (sha_block s (take 64 m)) (drop 64 m))"

declare sha_blocks.simps [simp del]

fun sha_digest :: "sha_state \<Rightarrow> byte list" where
  "sha_digest (a, b, c, d, e, f, g, h) =
     concat (map be_bytes4 [a, b, c, d, e, f, g, h])"

definition sha256 :: "byte list \<Rightarrow> byte list" where
  "sha256 m = sha_digest (sha_blocks sha_init (sha_pad m))"

text \<open>A Go string is its bytes.\<close>

definition bytes_of :: "string \<Rightarrow> byte list" where
  "bytes_of s = map of_char s"

section \<open>Hexadecimal text\<close>

definition hex_digit :: "nat \<Rightarrow> char" where
  "hex_digit n = (if n < 10 then char_of (48 + n) else char_of (87 + n))"

definition hex_encode :: "byte list \<Rightarrow> string" where
  "hex_encode bs = concat (map (\<lambda>b. [hex_digit (unat b div 16), hex_digit (unat b mod 16)]) bs)"

definition from_hex_char :: "char \<Rightarrow> nat option" where
  "from_hex_char c =
     (let n = (of_char c :: nat) in
      if 48 \<le> n \<and> n \<le> 57 then Some (n - 48)
      else if 97 \<le> n \<and> n \<le> 102 then Some (n - 87)
      else if 65 \<le> n \<and> n \<le> 70 then Some (n - 55)
      else None)"

fun hex_decode :: "string \<Rightarrow> byte list outcome" where
  "hex_decode [] = Ok []"
| "hex_decode [c] =
     (case from_hex_char c of
        None \<Rightarrow> Err (ErrorString ''encoding/hex: invalid byte'')
      | Some _ \<Rightarrow> Err (ErrorString ''encoding/hex: odd length hex string''))"
| "hex_decode (c # d # s) =
     (case (from_hex_char c, from_hex_char d) of
        (Some h, Some l) \<Rightarrow>
          (case hex_decode s of
             Ok bs \<Rightarrow> Ok (of_nat (16 * h + l) # bs)
           | Err e \<Rightarrow> Err e
           | Panic e \<Rightarrow> Panic e)
      | _ \<Rightarrow> Err (ErrorString ''encoding/hex: invalid byte''))"

section \<open>Lemmas\<close>

text \<open>The search for a root finds the integer part of the root.\<close>

lemma iroot_bounds:
  "r ^ k \<le> n \<Longrightarrow> n < (r + 2 ^ b) ^ k \<Longrightarrow> iroot k n b r ^ k \<le> n \<and> n < (iroot k n b r + 1) ^ k"
proof (induction b arbitrary: r)
  case (Suc b)
  have "r + 2 ^ Suc b = (r + 2 ^ b) + 2 ^ b" by simp
  from Suc.prems(2) [unfolded this] show ?case
    unfolding iroot.simps using Suc.IH [of "r + 2 ^ b"] Suc.IH [of r] Suc.prems(1)
    by (auto simp only: not_le split: if_splits)
qed simp

lemma length_be_bytes4 [simp]: "length (be_bytes4 w) = 4"
  by (simp add: be_bytes4_def)

lemma length_be_bytes8 [simp]: "length (be_bytes8 w) = 8"
  by (simp add: be_bytes8_def)

lemma length_sha256 [simp]: "length (sha256 m) = 32"
  by (cases "sha_blocks sha_init (sha_pad m)" rule: sha_digest.cases) (simp add: sha256_def)

lemma sha_pad_blocks: "64 dvd length (sha_pad m)"
proof -
  define q r where "q = length m div 64" and "r = length m mod 64"
  have m: "length m = 64 * q + r" and r: "r < 64"
    by (simp_all add: q_def r_def)
  have "(119 - r) mod 64 = (if r \<le> 55 then 55 - r else 119 - r)"
    using r by (auto simp: mod_if)
  then have "length (sha_pad m) = 64 * (if r \<le> 55 then q + 1 else q + 2)"
    using r by (auto simp: sha_pad_def m)
  then show ?thesis
    by (simp only: dvd_triv_left)
qed

lemma length_hex_encode [simp]: "length (hex_encode bs) = 2 * length bs"
  by (induction bs) (simp_all add: hex_encode_def)

lemma from_hex_char_digit [simp]: "n < 16 \<Longrightarrow> from_hex_char (hex_digit n) = Some n"
  by (auto simp: from_hex_char_def hex_digit_def Let_def)

lemma hex_decode_encode [simp]: "hex_decode (hex_encode bs) = Ok bs"
proof (induction bs)
  case Nil
  then show ?case by (simp add: hex_encode_def)
next
  case (Cons b bs)
  have "unat b < 256"
    using unsigned_less [of b, where ?'a = nat] by simp
  then have "unat b div 16 < 16"
    by (simp add: less_mult_imp_div_less)
  moreover have "(of_nat (16 * (unat b div 16) + unat b mod 16) :: byte) = b"
    by simp
  ultimately show ?case
    using Cons by (simp add: hex_encode_def)
qed

lemma hex_encode_inject [simp]: "hex_encode a = hex_encode b \<longleftrightarrow> a = b"
  by (metis hex_decode_encode outcome.inject(1))

lemma of_char_byte_inj: "(of_char c :: byte) = of_char d \<longleftrightarrow> c = d"
proof
  assume "(of_char c :: byte) = of_char d"
  then have "unat (of_char c :: byte) = unat (of_char d :: byte)" by simp
  moreover have "unat (of_char x :: byte) = (of_char x :: nat)" for x
  proof -
    have "(of_char x :: byte) = of_nat (of_char x)"
      by (simp add: of_char_def)
    then show ?thesis
      by (simp add: unat_of_nat take_bit_eq_mod)
  qed
  ultimately show "c = d" by simp
qed simp

lemma bytes_of_inject [simp]: "bytes_of s = bytes_of t \<longleftrightarrow> s = t"
  unfolding bytes_of_def by (intro inj_map_eq_map injI) (simp add: of_char_byte_inj)

lemma bytes_of_append [simp]: "bytes_of (s @ t) = bytes_of s @ bytes_of t"
  by (simp add: bytes_of_def)

end
