(* ===== verification/Crypto_Engine.thy ===== *)
theory Crypto_Engine
  imports Event_Model Sha256
begin

text \<open>
  Event hashing and signing, \<^verbatim>\<open>src/internal/crypto/engine.go\<close> and \<^verbatim>\<open>src/internal/crypto/signer.go\<close>.
  SHA-256, hexadecimal and JSON are modelled; canonical JSON (package \<^verbatim>\<open>jcs\<close>) and the Ed25519 primitives
  are fields of the environment \<open>X\<close>, with their documented behaviour as the hypothesis \<open>crypto_ok\<close>.
\<close>

section \<open>Environment\<close>

record crypto_env = float_conv +
  jcs_format :: "goval \<Rightarrow> string outcome"
  ed_keygen :: "byte list \<Rightarrow> byte list"
  ed_sign :: "byte list \<Rightarrow> byte list \<Rightarrow> byte list"
  ed_verify :: "byte list \<Rightarrow> byte list \<Rightarrow> byte list \<Rightarrow> bool"

text \<open>A decoded value with every negative zero written as zero.\<close>

primrec pos_zero :: "goval \<Rightarrow> goval" where
  "pos_zero GNil = GNil"
| "pos_zero (GBool b) = GBool b"
| "pos_zero (GInt w) = GInt w"
| "pos_zero (GUint w) = GUint w"
| "pos_zero (GFloat x) = GFloat (if x = 0x8000000000000000 then 0 else x)"
| "pos_zero (GStr s) = GStr s"
| "pos_zero (GTime t) = GTime t"
| "pos_zero (GList vs) = GList (map pos_zero vs)"
| "pos_zero (GMap kvs) = GMap (map (map_prod id pos_zero) kvs)"

text \<open>
  RFC 8785: the canonical text of a JSON value is JSON for that value, except that it prints a negative
  zero as \<^verbatim>\<open>0\<close>. RFC 8032: a key made from a 32-byte seed has 64 bytes, a signature has 64 bytes, and it
  verifies under the key's public half.
\<close>

definition jcs_ok :: "('a) crypto_env_scheme \<Rightarrow> bool" where
  "jcs_ok X \<longleftrightarrow> (\<forall>v. normal v \<longrightarrow> gv_depth v \<le> max_nesting \<longrightarrow>
     (\<exists>c. jcs_format X v = Ok c \<and> Unmarshal X c = Ok (pos_zero v)))"

definition ed_ok :: "('a) crypto_env_scheme \<Rightarrow> bool" where
  "ed_ok X \<longleftrightarrow> (\<forall>seed m. length seed = 32 \<longrightarrow>
     length (ed_keygen X seed) = 64
     \<and> length (ed_sign X (ed_keygen X seed) m) = 64
     \<and> ed_verify X (drop 32 (ed_keygen X seed)) m (ed_sign X (ed_keygen X seed) m))"

definition crypto_ok :: "('a) crypto_env_scheme \<Rightarrow> bool" where
  "crypto_ok X \<longleftrightarrow> float_conv_ok X \<and> jcs_ok X \<and> ed_ok X"

section \<open>engine.go\<close>

definition zero_hash :: string where
  "zero_hash = replicate 64 CHR ''0''"

definition CalculateEventHash ::
    "bool \<Rightarrow> ('a) crypto_env_scheme \<Rightarrow> string \<Rightarrow> goval \<Rightarrow> string outcome" where
  "CalculateEventHash strict X prevHash payload =
     bind_outcome (Check strict (prevHash \<noteq> '''') ''prev_hash must be non-empty'') (\<lambda>_.
     bind_outcome (Check strict (count_list prevHash CHR ''0'' \<noteq> 64 \<or> prevHash = zero_hash)
                     ''invalid prev_hash format'') (\<lambda>_.
     bind_outcome (Check strict (payload \<noteq> GNil) ''payload must not be nil'') (\<lambda>_.
     (case Marshal X payload of
        Ok jsonBytes \<Rightarrow>
          (case Unmarshal X jsonBytes of
             Ok normalized \<Rightarrow>
               bind_outcome (jcs_format X normalized) (\<lambda>canonicalJSON.
                 Ok (hex_encode (sha256 (bytes_of prevHash @ bytes_of canonicalJSON))))
           | Err e \<Rightarrow> bind_outcome (Check strict False (''json unmarshal failed: '' @ error_msg e)) (\<lambda>_. Err e)
           | Panic e \<Rightarrow> Panic e)
      | Err e \<Rightarrow> bind_outcome (Check strict False (''json marshal failed: '' @ error_msg e)) (\<lambda>_. Err e)
      | Panic e \<Rightarrow> Panic e))))"

section \<open>signer.go\<close>

record signer =
  privateKey :: "byte list"
  publicKey :: "byte list"

text \<open>Key files: their contents, and the errors the file system returns.\<close>

record filesys =
  fs_files :: "string \<rightharpoonup> string"
  fs_read_err :: "string \<Rightarrow> error option"
  fs_write_err :: "string \<Rightarrow> error option"

definition ReadFile :: "filesys \<Rightarrow> string \<Rightarrow> string outcome" where
  "ReadFile fs path =
     (case fs_read_err fs path of
        Some e \<Rightarrow> Err e
      | None \<Rightarrow> (case fs_files fs path of
                   None \<Rightarrow> Err (ErrorString ''no such file or directory'')
                 | Some d \<Rightarrow> Ok d))"

definition WriteFile :: "filesys \<Rightarrow> string \<Rightarrow> string \<Rightarrow> filesys \<times> unit outcome" where
  "WriteFile fs path d =
     (case fs_write_err fs path of
        Some e \<Rightarrow> (fs, Err e)
      | None \<Rightarrow> (fs\<lparr>fs_files := (fs_files fs)(path \<mapsto> d)\<rparr>, Ok ()))"

text \<open>
  \<^verbatim>\<open>ed25519.GenerateKey\<close>: 32 random bytes (or the error of the reader) become a private key whose
  second half is the public key.
\<close>

definition GenerateKey ::
    "('a) crypto_env_scheme \<Rightarrow> byte list outcome \<Rightarrow> (byte list \<times> byte list) outcome" where
  "GenerateKey X rnd = bind_outcome rnd (\<lambda>seed. Ok (drop 32 (ed_keygen X seed), ed_keygen X seed))"

definition loadPrivateKey :: "filesys \<Rightarrow> string \<Rightarrow> byte list outcome" where
  "loadPrivateKey fs path =
     bind_outcome (ReadFile fs path) (\<lambda>data.
     bind_outcome (wrap_err ''decoding key'' (hex_decode data)) (\<lambda>keyBytes.
     if length keyBytes \<noteq> 64 then Err (ErrorString ''invalid key size'') else Ok keyBytes))"

definition savePrivateKey :: "filesys \<Rightarrow> string \<Rightarrow> byte list \<Rightarrow> filesys \<times> unit outcome" where
  "savePrivateKey fs path key = WriteFile fs path (hex_encode key)"

definition NewSigner ::
    "('a) crypto_env_scheme \<Rightarrow> filesys \<Rightarrow> byte list outcome \<Rightarrow> string \<Rightarrow> filesys \<times> signer outcome" where
  "NewSigner X fs rnd keyPath =
     (case loadPrivateKey fs keyPath of
        Ok k \<Rightarrow> (fs, Ok \<lparr>privateKey = k, publicKey = drop 32 k\<rparr>)
      | _ \<Rightarrow>
          (case GenerateKey X rnd of
             Ok (pub, priv) \<Rightarrow>
               (case savePrivateKey fs keyPath priv of
                  (fs', Ok _) \<Rightarrow> (fs', Ok \<lparr>privateKey = priv, publicKey = pub\<rparr>)
                | (fs', Err e) \<Rightarrow> (fs', Err (Wrap ''saving private key'' e))
                | (fs', Panic e) \<Rightarrow> (fs', Panic e))
           | Err e \<Rightarrow> (fs, Err (Wrap ''generating keypair'' e))
           | Panic e \<Rightarrow> (fs, Panic e)))"

definition SignHash :: "('a) crypto_env_scheme \<Rightarrow> signer \<Rightarrow> string \<Rightarrow> string outcome" where
  "SignHash X s hash =
     (if length (privateKey s) \<noteq> 64 then Panic (RuntimeError ''ed25519: bad private key length'')
      else Ok (hex_encode (ed_sign X (privateKey s) (bytes_of hash))))"

definition GetPublicKey :: "signer \<Rightarrow> string" where
  "GetPublicKey s = hex_encode (publicKey s)"

definition RotateKey ::
    "('a) crypto_env_scheme \<Rightarrow> filesys \<Rightarrow> byte list outcome \<Rightarrow> signer \<Rightarrow> string
       \<Rightarrow> filesys \<times> signer \<times> (string \<times> string) outcome" where
  "RotateKey X fs rnd s keyPath =
     (let oldPubKey = GetPublicKey s in
      case GenerateKey X rnd of
        Ok (pub, priv) \<Rightarrow>
          (case savePrivateKey fs keyPath priv of
             (fs', Ok _) \<Rightarrow>
               (let s' = s\<lparr>privateKey := priv, publicKey := pub\<rparr>
                in (fs', s', Ok (oldPubKey, GetPublicKey s')))
           | (fs', Err e) \<Rightarrow> (fs', s, Err (Wrap ''saving rotated key'' e))
           | (fs', Panic e) \<Rightarrow> (fs', s, Panic e))
      | Err e \<Rightarrow> (fs, s, Err (Wrap ''generating new keypair'' e))
      | Panic e \<Rightarrow> (fs, s, Panic e))"

definition VerifySignature ::
    "('a) crypto_env_scheme \<Rightarrow> signer \<Rightarrow> string \<Rightarrow> string \<Rightarrow> bool outcome" where
  "VerifySignature X s hash signatureHex =
     (case hex_decode signatureHex of
        Ok sig \<Rightarrow>
          if length (publicKey s) \<noteq> 32 then Panic (RuntimeError ''ed25519: bad public key length'')
          else Ok (ed_verify X (publicKey s) (bytes_of hash) sig)
      | _ \<Rightarrow> Ok False)"

section \<open>Lemmas\<close>

text \<open>A signer whose key came out of key generation.\<close>

definition signer_ok :: "('a) crypto_env_scheme \<Rightarrow> signer \<Rightarrow> bool" where
  "signer_ok X s \<longleftrightarrow> (\<exists>seed. length seed = 32 \<and> privateKey s = ed_keygen X seed
     \<and> publicKey s = drop 32 (privateKey s))"

text \<open>Two given messages that collide under SHA-256.\<close>

definition sha_collide :: "byte list \<Rightarrow> byte list \<Rightarrow> bool" where
  "sha_collide a b \<longleftrightarrow> a \<noteq> b \<and> sha256 a = sha256 b"

text \<open>The canonical text that is hashed.\<close>

definition canonical :: "('a) crypto_env_scheme \<Rightarrow> goval \<Rightarrow> string" where
  "canonical X v = (case jcs_format X (norm X v) of Ok c \<Rightarrow> c | _ \<Rightarrow> '''')"

definition valid_prev :: "string \<Rightarrow> bool" where
  "valid_prev p \<longleftrightarrow> p \<noteq> '''' \<and> (count_list p CHR ''0'' \<noteq> 64 \<or> p = zero_hash)"

lemma float_conv_of_crypto: "crypto_ok X \<Longrightarrow> float_conv_ok X"
  by (simp add: crypto_ok_def)

lemma jcs_canonical:
  assumes "crypto_ok X" and "marshalable v" and "gv_depth v \<le> max_nesting"
  shows "jcs_format X (norm X v) = Ok (canonical X v)"
proof -
  have "normal (norm X v)" "gv_depth (norm X v) \<le> max_nesting"
    using assms by (simp_all add: normal_norm depth_norm crypto_ok_def)
  then show ?thesis
    using assms(1) by (fastforce simp: crypto_ok_def jcs_ok_def canonical_def)
qed

lemma CalculateEventHash_Ok:
  assumes "crypto_ok X" and "marshalable v" and "gv_depth v \<le> max_nesting" and "v \<noteq> GNil"
    and "valid_prev p"
  shows "CalculateEventHash strict X p v = Ok (hex_encode (sha256 (bytes_of (p @ canonical X v))))"
  using assms jcs_canonical [OF assms(1-3)] Unmarshal_enc [of X v] assms(5)
  by (auto simp: CalculateEventHash_def Marshal_def float_conv_of_crypto valid_prev_def)

lemma CalculateEventHash_Ok_D:
  assumes "CalculateEventHash strict X p v = Ok h"
  shows "length h = 64 \<and> valid_prev p"
  using assms
  by (auto simp: CalculateEventHash_def valid_prev_def outcome_simps split: outcome.splits)

lemma count_list_le: "count_list xs x \<le> length xs"
  by (induction xs) auto

lemma count_list_length: "count_list xs x = length xs \<Longrightarrow> xs = replicate (length xs) x"
proof (induction xs)
  case (Cons y ys)
  then show ?case
    using count_list_le [of ys x] by (auto split: if_splits)
qed simp

text \<open>A 64-character hash always has the format the hasher asks of a previous hash.\<close>

lemma valid_prev_64: "length p = 64 \<Longrightarrow> valid_prev p"
  using count_list_length [of p "CHR ''0''"] by (auto simp: valid_prev_def zero_hash_def)

lemma SignHash_verifies:
  assumes "crypto_ok X" and "signer_ok X s"
  shows "\<exists>sg. SignHash X s h = Ok sg \<and> sg \<noteq> '''' \<and> VerifySignature X s h sg = Ok True"
proof -
  obtain seed where "length seed = 32" "privateKey s = ed_keygen X seed"
    "publicKey s = drop 32 (privateKey s)"
    using assms(2) by (auto simp: signer_ok_def)
  moreover have "hex_encode (ed_sign X (privateKey s) (bytes_of h)) \<noteq> ''''"
    using assms(1) calculation
    by (metis crypto_ok_def ed_ok_def length_hex_encode list.size(3) mult_eq_0_iff zero_neq_numeral)
  ultimately show ?thesis
    using assms(1) by (simp add: SignHash_def VerifySignature_def crypto_ok_def ed_ok_def)
qed

text \<open>
  What Ed25519 is for: a signature made with the key of one seed does not verify under the public half
  of the key of another seed.
\<close>

definition keys_separate :: "('a) crypto_env_scheme \<Rightarrow> byte list \<Rightarrow> byte list \<Rightarrow> bool" where
  "keys_separate X a b \<longleftrightarrow> (\<forall>m. \<not> ed_verify X (drop 32 (ed_keygen X b)) m (ed_sign X (ed_keygen X a) m))"

end
