(* ===== verification/Ledger_Interface.thy ===== *)
theory Ledger_Interface
  imports Crypto_Engine
begin

text \<open>
  The storage interface of the ledger, \<^verbatim>\<open>src/internal/ledger/interface.go\<close>: the two statistics structs,
  the method table \<^verbatim>\<open>EventRepository\<close> as a record of functions over a database state, and the contract
  the ledger relies on as a locale.
\<close>

section \<open>Statistics\<close>

record run_stats =
  rs_run_id :: string
  rs_total_events :: u64
  rs_call_count :: u64
  rs_blocked_count :: u64
  rs_risk_breakdown :: "int gomap"

record global_stats =
  gs_total_runs :: int
  gs_total_events :: u64
  gs_critical_count :: int

section \<open>The method table\<close>

record 'db repository =
  repo_StoreEvent :: "'db \<Rightarrow> event \<Rightarrow> 'db \<times> unit outcome"
  repo_InsertRun :: "'db \<Rightarrow> string \<Rightarrow> string \<Rightarrow> string \<Rightarrow> string \<Rightarrow> 'db \<times> unit outcome"
  repo_GetLastEvent :: "'db \<Rightarrow> string \<Rightarrow> (u64 \<times> string) outcome"
  repo_GetEventByID :: "'db \<Rightarrow> string \<Rightarrow> event outcome"
  repo_GetAllEvents :: "'db \<Rightarrow> string \<Rightarrow> event list outcome"
  repo_GetRecentEvents :: "'db \<Rightarrow> string \<Rightarrow> int \<Rightarrow> event list outcome"
  repo_GetEventsByTaskID :: "'db \<Rightarrow> string \<Rightarrow> event list outcome"
  repo_GetRiskEvents :: "'db \<Rightarrow> event list outcome"
  repo_HasRuns :: "'db \<Rightarrow> bool outcome"
  repo_GetRunID :: "'db \<Rightarrow> string outcome"
  repo_GetRunInfo :: "'db \<Rightarrow> string \<Rightarrow> (string \<times> string \<times> string) outcome"
  repo_GetRunStats :: "'db \<Rightarrow> string \<Rightarrow> run_stats outcome"
  repo_GetGlobalStats :: "'db \<Rightarrow> global_stats outcome"
  repo_Close :: "'db \<Rightarrow> 'db \<times> unit outcome"

section \<open>The contract\<close>

text \<open>
  \<open>log d r\<close> is the log of run \<open>r\<close> as it reads back, \<open>ids d\<close> the identifiers in use, \<open>up d\<close> that no
  fault is pending, \<open>bound\<close> the number of events one read returns and \<open>cap\<close> the number one run can
  hold. The laws: the log is numbered from zero; a successful store appends the event as it reads back
  and touches no other run, a failed one changes nothing; the readers return what the log says, and
  they do return when no fault is pending.
\<close>

locale event_repository =
  fixes R :: "'db repository"
    and X :: crypto_env
    and log :: "'db \<Rightarrow> string \<Rightarrow> event list"
    and ids :: "'db \<Rightarrow> string set"
    and up :: "'db \<Rightarrow> bool"
    and inv :: "'db \<Rightarrow> bool"
    and bound :: nat
    and cap :: nat
  assumes cap_word: "cap < 2 ^ 64"
    and log_cap: "inv d \<Longrightarrow> length (log d r) \<le> cap"
    and log_seq: "inv d \<Longrightarrow> i < length (log d r) \<Longrightarrow> SeqIndex (log d r ! i) = of_nat i"
    and stats_ok: "inv d \<Longrightarrow> repo_GetRunStats R d r = Ok st \<Longrightarrow>
          rs_total_events st = of_nat (length (log d r))"
    and stats_up: "up d \<Longrightarrow> r \<noteq> '''' \<Longrightarrow> is_ok (repo_GetRunStats R d r)"
    and last_ok: "inv d \<Longrightarrow> repo_GetLastEvent R d r = Ok (k, h) \<Longrightarrow>
          (k, h) = (if log d r = [] then (0, '''')
                    else (SeqIndex (last (log d r)), CurrentHash (last (log d r))))"
    and last_up: "up d \<Longrightarrow> r \<noteq> '''' \<Longrightarrow> is_ok (repo_GetLastEvent R d r)"
    and all_ok: "inv d \<Longrightarrow> repo_GetAllEvents R d r = Ok es \<Longrightarrow> es = take bound (log d r)"
    and all_up: "up d \<Longrightarrow> r \<noteq> '''' \<Longrightarrow> is_ok (repo_GetAllEvents R d r)"
    and store_ok: "float_conv_ok X \<Longrightarrow> inv d \<Longrightarrow> event_ok e \<Longrightarrow> SeqIndex e = of_nat (length (log d (RunID e))) \<Longrightarrow>
          repo_StoreEvent R d e = (d', Ok ()) \<Longrightarrow>
          inv d' \<and> (up d' \<longleftrightarrow> up d) \<and> ids d' = insert (ID e) (ids d)
          \<and> log d' = (log d)(RunID e := log d (RunID e) @ [norm_event X e])"
    and store_fail: "repo_StoreEvent R d e = (d', Err x) \<or> repo_StoreEvent R d e = (d', Panic x) \<Longrightarrow> d' = d"
    and store_up: "inv d \<Longrightarrow> up d \<Longrightarrow> event_ok e \<Longrightarrow> ID e \<notin> ids d \<Longrightarrow> ID e \<noteq> '''' \<Longrightarrow> RunID e \<noteq> '''' \<Longrightarrow>
          CurrentHash e \<noteq> '''' \<Longrightarrow> Signature e \<noteq> '''' \<Longrightarrow>
          SeqIndex e = of_nat (length (log d (RunID e))) \<Longrightarrow> length (log d (RunID e)) < cap \<Longrightarrow>
          snd (repo_StoreEvent R d e) = Ok ()"
    and run_keeps: "repo_InsertRun R d r agent hash key = (d', y) \<Longrightarrow>
          log d' = log d \<and> ids d' = ids d \<and> (up d' \<longleftrightarrow> up d) \<and> (inv d \<longrightarrow> inv d')"

end
