(* ===== verification/Event_Store.thy ===== *)
theory Event_Store
  imports Ledger_Interface "HOL-Library.Multiset"
begin

text \<open>
  The SQLite store, \<^verbatim>\<open>src/internal/ledger/store\<close>: the two tables of \<^verbatim>\<open>schema.sql\<close> and, for each method
  of \<^verbatim>\<open>DB\<close>, the checks around its SQL statement and the effect of that statement on the tables. A
  statement fails when the handle is closed or when the driver reports an error, which the
  environment sets for reads and for writes. SQL leaves the order of rows with equal sort keys open;
  the model takes insertion order there.
\<close>

section \<open>Tables\<close>

record run_row =
  r_id :: string
  r_agent_name :: string
  r_started_at :: int
  r_genesis_hash :: string
  r_ledger_pub_key :: string

record event_row =
  e_id :: string
  e_run_id :: string
  e_seq_index :: u64
  e_timestamp :: string
  e_actor :: string
  e_event_type :: string
  e_method :: string
  e_params :: string
  e_response :: string
  e_task_id :: string
  e_task_state :: string
  e_parent_id :: string
  e_policy_id :: string
  e_risk_level :: string
  e_prev_hash :: string
  e_current_hash :: string
  e_signature :: string

record db =
  db_runs :: "run_row list"
  db_events :: "event_row list"
  db_open :: bool
  db_read_err :: "error option"
  db_write_err :: "error option"
  db_rows_err :: "error option"
  db_close_err :: "error option"
  db_conn_err :: "error option"

definition db_closed_err :: error where
  "db_closed_err = ErrorString ''sql: database is closed''"

text \<open>What the driver answers before it runs a query or a write.\<close>

definition query_ready :: "db \<Rightarrow> unit outcome" where
  "query_ready d =
     (if \<not> db_open d then Err db_closed_err
      else case db_read_err d of Some e \<Rightarrow> Err e | None \<Rightarrow> Ok ())"

definition exec_ready :: "db \<Rightarrow> unit outcome" where
  "exec_ready d =
     (if \<not> db_open d then Err db_closed_err
      else case db_write_err d of Some e \<Rightarrow> Err e | None \<Rightarrow> Ok ())"

text \<open>
  The end of every loop over rows: \<^verbatim>\<open>rows.Err()\<close> is checked by an assertion, and the deferred
  \<^verbatim>\<open>rows.Close()\<close> turns a result into an error when closing fails.
\<close>

definition finish_rows :: "bool \<Rightarrow> db \<Rightarrow> string \<Rightarrow> string \<Rightarrow> 'a \<Rightarrow> 'a outcome" where
  "finish_rows strict d loop what result =
     bind_outcome (Check strict (db_rows_err d = None)
       (loop @ '' rows error: '' @ (case db_rows_err d of None \<Rightarrow> '''' | Some e \<Rightarrow> error_msg e))) (\<lambda>_.
     (case db_close_err d of
        Some e \<Rightarrow> Err (Wrap (''closing '' @ what @ '' rows'') e)
      | None \<Rightarrow> Ok result))"

text \<open>\<^verbatim>\<open>ORDER BY key ASC\<close> and \<^verbatim>\<open>ORDER BY key DESC\<close>.\<close>

definition order_asc :: "('r \<Rightarrow> 'k::linorder) \<Rightarrow> 'r list \<Rightarrow> 'r list" where
  "order_asc key rows = sort_key key rows"

definition order_desc :: "('r \<Rightarrow> 'k::linorder) \<Rightarrow> 'r list \<Rightarrow> 'r list" where
  "order_desc key rows = rev (sort_key key (rev rows))"

definition maxEventRows :: nat where
  "maxEventRows = 100000"

section \<open>sqlite.go\<close>

text \<open>
  \<^verbatim>\<open>NewDB\<close>: the errors of its four steps (and of closing after a failed step) come from outside; the
  schema keeps tables that are already there, and makes empty ones otherwise.
\<close>

definition NewDB ::
    "error option \<Rightarrow> error option \<Rightarrow> error option \<Rightarrow> error option \<Rightarrow> error option
       \<Rightarrow> (run_row list \<times> event_row list) option \<Rightarrow> db outcome" where
  "NewDB mkdirErr openErr walErr schemaErr closeErr existing =
     (case mkdirErr of
        Some e \<Rightarrow> Err (Wrap ''creating database directory'' e)
      | None \<Rightarrow>
          (case openErr of
             Some e \<Rightarrow> Err (Wrap ''opening database'' e)
           | None \<Rightarrow>
               (case walErr of
                  Some e \<Rightarrow>
                    (case closeErr of
                       Some c \<Rightarrow> Err (Wrap (''enabling WAL mode: '' @ error_msg e @ ''; closing database'') c)
                     | None \<Rightarrow> Err (Wrap ''enabling WAL mode'' e))
                | None \<Rightarrow>
                    (case schemaErr of
                       Some e \<Rightarrow>
                         (case closeErr of
                            Some c \<Rightarrow> Err (Wrap (''executing schema: '' @ error_msg e @ ''; closing database'') c)
                          | None \<Rightarrow> Err (Wrap ''executing schema'' e))
                     | None \<Rightarrow>
                         Ok \<lparr>db_runs = (case existing of None \<Rightarrow> [] | Some (rs, es) \<Rightarrow> rs),
                             db_events = (case existing of None \<Rightarrow> [] | Some (rs, es) \<Rightarrow> es),
                             db_open = True, db_read_err = None, db_write_err = None,
                             db_rows_err = None, db_close_err = None, db_conn_err = None\<rparr>))))"

text \<open>
  \<^verbatim>\<open>Close\<close>: the handle is closed even when closing a connection fails, with the error \<open>db_conn_err\<close>; a
  second call does nothing.
\<close>

definition CloseDB :: "db \<Rightarrow> db \<times> unit outcome" where
  "CloseDB d =
     (d\<lparr>db_open := False\<rparr>,
      if \<not> db_open d then Ok () else case db_conn_err d of Some e \<Rightarrow> Err e | None \<Rightarrow> Ok ())"

section \<open>events.go: writing\<close>

text \<open>
  \<^verbatim>\<open>InsertEvent\<close>, its seventeen arguments as the row they become. \<^verbatim>\<open>database/sql\<close> refuses a \<^verbatim>\<open>uint64\<close> with
  the high bit set, and the primary key refuses an identifier that is already there.
\<close>

definition InsertEvent :: "bool \<Rightarrow> db \<Rightarrow> event_row \<Rightarrow> db \<times> unit outcome" where
  "InsertEvent strict d row =
     (case bind_outcome (Check strict (e_id row \<noteq> '''') ''event id must not be empty'') (\<lambda>_.
           bind_outcome (Check strict (e_run_id row \<noteq> '''') ''run id must not be empty'') (\<lambda>_.
           bind_outcome (Check strict (e_current_hash row \<noteq> '''') ''current hash must not be empty'') (\<lambda>_.
           bind_outcome (Check strict (e_signature row \<noteq> '''') ''signature must not be empty'') (\<lambda>_.
           wrap_err ''inserting event'' (bind_outcome (exec_ready d) (\<lambda>_.
             if 2 ^ 63 \<le> unat (e_seq_index row)
             then Err (ErrorString ''uint64 values with high bit set are not supported'')
             else if e_id row \<in> set (map e_id (db_events d))
             then Err (ErrorString ''UNIQUE constraint failed: events.id'')
             else Ok ())))))) of
        Ok _ \<Rightarrow> (d\<lparr>db_events := db_events d @ [row]\<rparr>, Ok ())
      | Err e \<Rightarrow> (d, Err e)
      | Panic e \<Rightarrow> (d, Panic e))"

definition row_of :: "event \<Rightarrow> string \<Rightarrow> string \<Rightarrow> event_row" where
  "row_of event params response =
     \<lparr>e_id = ID event, e_run_id = RunID event, e_seq_index = SeqIndex event,
      e_timestamp = format_time (Timestamp event), e_actor = Actor event,
      e_event_type = EventType event, e_method = Method event,
      e_params = params, e_response = response,
      e_task_id = TaskID event, e_task_state = TaskState event,
      e_parent_id = ParentID event, e_policy_id = PolicyID event,
      e_risk_level = RiskLevel event, e_prev_hash = PrevHash event,
      e_current_hash = CurrentHash event, e_signature = Signature event\<rparr>"

definition StoreEvent :: "bool \<Rightarrow> ('a) float_conv_scheme \<Rightarrow> db \<Rightarrow> event \<Rightarrow> db \<times> unit outcome" where
  "StoreEvent strict F d event =
     (case wrap_err ''marshaling params'' (Marshal F (map_value (Params event))) of
        Err e \<Rightarrow> (d, Err e)
      | Panic e \<Rightarrow> (d, Panic e)
      | Ok paramsBytes \<Rightarrow>
          (case wrap_err ''marshaling response'' (Marshal F (map_value (Response event))) of
             Err e \<Rightarrow> (d, Err e)
           | Panic e \<Rightarrow> (d, Panic e)
           | Ok responseBytes \<Rightarrow> InsertEvent strict d (row_of event paramsBytes responseBytes)))"

section \<open>events.go: reading\<close>

definition run_rows :: "db \<Rightarrow> string \<Rightarrow> event_row list" where
  "run_rows d runID = filter (\<lambda>r. e_run_id r = runID) (db_events d)"

definition GetLastEvent :: "bool \<Rightarrow> db \<Rightarrow> string \<Rightarrow> (u64 \<times> string) outcome" where
  "GetLastEvent strict d runID =
     bind_outcome (Check strict (runID \<noteq> '''') ''runID must not be empty'') (\<lambda>_.
     bind_outcome (wrap_err ''querying last event'' (query_ready d)) (\<lambda>_.
     (case order_desc e_seq_index (run_rows d runID) of
        [] \<Rightarrow> Ok (0, '''')
      | r # _ \<Rightarrow> Ok (e_seq_index r, e_current_hash r))))"

text \<open>
  The fields every reader scans. \<^verbatim>\<open>GetAllEvents\<close> goes on to parse the time and the two JSON columns
  (a failure leaves the field at its zero value); the other readers leave them out.
\<close>

definition scan_row :: "event_row \<Rightarrow> event" where
  "scan_row r = zero_event\<lparr>ID := e_id r, RunID := e_run_id r, SeqIndex := e_seq_index r,
     Actor := e_actor r, EventType := e_event_type r, Method := e_method r,
     TaskID := e_task_id r, TaskState := e_task_state r, ParentID := e_parent_id r,
     PolicyID := e_policy_id r, RiskLevel := e_risk_level r,
     PrevHash := e_prev_hash r, CurrentHash := e_current_hash r, Signature := e_signature r\<rparr>"

definition read_map :: "('a) float_conv_scheme \<Rightarrow> string \<Rightarrow> goval gomap option" where
  "read_map F text =
     (if text \<noteq> '''' \<and> text \<noteq> ''null''
      then (case UnmarshalMap F text of Ok m \<Rightarrow> m | _ \<Rightarrow> None) else None)"

definition load_row :: "('a) float_conv_scheme \<Rightarrow> event_row \<Rightarrow> event" where
  "load_row F r = (scan_row r)\<lparr>
     Timestamp := (case parse_time (e_timestamp r) of Some t \<Rightarrow> t | None \<Rightarrow> zero_time),
     Params := read_map F (e_params r),
     Response := read_map F (e_response r)\<rparr>"

definition GetAllEvents ::
    "bool \<Rightarrow> ('a) float_conv_scheme \<Rightarrow> db \<Rightarrow> string \<Rightarrow> event list outcome" where
  "GetAllEvents strict F d runID =
     bind_outcome (Check strict (runID \<noteq> '''') ''runID must not be empty'') (\<lambda>_.
     bind_outcome (wrap_err ''querying events'' (query_ready d)) (\<lambda>_.
     finish_rows strict d ''get all events'' ''events''
       (map (load_row F) (take maxEventRows (order_asc e_seq_index (run_rows d runID))))))"

definition GetRecentEvents :: "bool \<Rightarrow> db \<Rightarrow> string \<Rightarrow> int \<Rightarrow> event list outcome" where
  "GetRecentEvents strict d runID limit =
     bind_outcome (Check strict (runID \<noteq> '''') ''runID must not be empty'') (\<lambda>_.
     bind_outcome (Check strict (limit > 0) ''limit must be positive'') (\<lambda>_.
     bind_outcome (wrap_err ''querying recent events'' (query_ready d)) (\<lambda>_.
     finish_rows strict d ''recent events'' ''recent events'' (map scan_row (take maxEventRows
       (take (nat limit) (order_desc e_seq_index (run_rows d runID))))))))"

definition GetEventByID :: "bool \<Rightarrow> db \<Rightarrow> string \<Rightarrow> event outcome" where
  "GetEventByID strict d eventID =
     bind_outcome (Check strict (eventID \<noteq> '''') ''eventID must not be empty'') (\<lambda>_.
     wrap_err ''querying event'' (bind_outcome (query_ready d) (\<lambda>_.
     (case filter (\<lambda>r. e_id r = eventID) (db_events d) of
        [] \<Rightarrow> Err (ErrorString ''sql: no rows in result set'')
      | r # _ \<Rightarrow> Ok (scan_row r)))))"

definition GetEventsByTaskID :: "bool \<Rightarrow> db \<Rightarrow> string \<Rightarrow> event list outcome" where
  "GetEventsByTaskID strict d taskID =
     bind_outcome (Check strict (taskID \<noteq> '''') ''taskID must not be empty'') (\<lambda>_.
     bind_outcome (wrap_err ''querying task events'' (query_ready d)) (\<lambda>_.
     finish_rows strict d ''task events'' ''task events'' (map scan_row (take maxEventRows
       (order_asc e_seq_index (filter (\<lambda>r. e_task_id r = taskID) (db_events d)))))))"

text \<open>\<^verbatim>\<open>GetRiskEvents\<close> does not copy the task columns into the event.\<close>

definition GetRiskEvents :: "bool \<Rightarrow> db \<Rightarrow> event list outcome" where
  "GetRiskEvents strict d =
     bind_outcome (query_ready d) (\<lambda>_.
     finish_rows strict d ''risk events'' ''risk events'' (map (\<lambda>r. (scan_row r)\<lparr>TaskID := '''', TaskState := ''''\<rparr>) (take maxEventRows
       (order_desc e_timestamp
         (filter (\<lambda>r. e_risk_level r \<in> {''high'', ''critical''}) (db_events d))))))"

definition GetUniqueTasks :: "bool \<Rightarrow> db \<Rightarrow> string list outcome" where
  "GetUniqueTasks strict d =
     bind_outcome (query_ready d) (\<lambda>_.
     finish_rows strict d ''unique tasks'' ''unique tasks'' (take maxEventRows (rev (remdups (rev
       (filter (\<lambda>t. t \<noteq> '''') (map e_task_id (db_events d))))))))"

section \<open>runs.go\<close>

definition InsertRun ::
    "bool \<Rightarrow> db \<Rightarrow> int \<Rightarrow> string \<Rightarrow> string \<Rightarrow> string \<Rightarrow> string \<Rightarrow> db \<times> unit outcome" where
  "InsertRun strict d now runID agentName genesisHash ledgerPubKey =
     (case bind_outcome (Check strict (runID \<noteq> '''') ''run id must not be empty'') (\<lambda>_.
           bind_outcome (Check strict (agentName \<noteq> '''') ''agent name must not be empty'') (\<lambda>_.
           bind_outcome (Check strict (genesisHash \<noteq> '''') ''genesis hash must not be empty'') (\<lambda>_.
           bind_outcome (Check strict (ledgerPubKey \<noteq> '''') ''ledger pub key must not be empty'') (\<lambda>_.
           wrap_err ''inserting run'' (bind_outcome (exec_ready d) (\<lambda>_.
             if runID \<in> set (map r_id (db_runs d))
             then Err (ErrorString ''UNIQUE constraint failed: runs.id'')
             else Ok ())))))) of
        Ok _ \<Rightarrow> (d\<lparr>db_runs := db_runs d @
                  [\<lparr>r_id = runID, r_agent_name = agentName, r_started_at = now,
                    r_genesis_hash = genesisHash, r_ledger_pub_key = ledgerPubKey\<rparr>]\<rparr>, Ok ())
      | Err e \<Rightarrow> (d, Err e)
      | Panic e \<Rightarrow> (d, Panic e))"

definition HasRuns :: "db \<Rightarrow> bool outcome" where
  "HasRuns d =
     bind_outcome (wrap_err ''checking runs'' (query_ready d)) (\<lambda>_. Ok (length (db_runs d) > 0))"

definition GetRunID :: "db \<Rightarrow> string outcome" where
  "GetRunID d =
     bind_outcome (wrap_err ''querying run ID'' (query_ready d)) (\<lambda>_.
     (case order_desc r_started_at (db_runs d) of
        [] \<Rightarrow> Ok ''''
      | r # _ \<Rightarrow> Ok (r_id r)))"

definition GetRunInfo :: "bool \<Rightarrow> db \<Rightarrow> string \<Rightarrow> (string \<times> string \<times> string) outcome" where
  "GetRunInfo strict d runID =
     bind_outcome (Check strict (runID \<noteq> '''') ''runID must not be empty'') (\<lambda>_.
     wrap_err ''querying run info'' (bind_outcome (query_ready d) (\<lambda>_.
     (case filter (\<lambda>r. r_id r = runID) (db_runs d) of
        [] \<Rightarrow> Err (ErrorString ''sql: no rows in result set'')
      | r # _ \<Rightarrow> Ok (r_agent_name r, r_genesis_hash r, r_ledger_pub_key r)))))"

section \<open>stats.go\<close>

definition count_type :: "string \<Rightarrow> event_row list \<Rightarrow> nat" where
  "count_type ty rows = length (filter (\<lambda>r. e_event_type r = ty) rows)"

text \<open>
  \<^verbatim>\<open>GROUP BY risk_level\<close> over the rows with a level: one row per level with its count, of which the
  loop takes at most \<^verbatim>\<open>maxRiskLevels\<close>, 32.
\<close>

definition risk_groups :: "event_row list \<Rightarrow> (string \<times> int) list" where
  "risk_groups rows =
     map (\<lambda>l. (l, int (length (filter (\<lambda>r. e_risk_level r = l) rows))))
       (sort (remdups (filter (\<lambda>l. l \<noteq> '''') (map e_risk_level rows))))"

definition GetRunStats :: "bool \<Rightarrow> db \<Rightarrow> string \<Rightarrow> run_stats outcome" where
  "GetRunStats strict d runID =
     bind_outcome (Check strict (runID \<noteq> '''') ''runID must not be empty'') (\<lambda>_.
     bind_outcome (query_ready d) (\<lambda>_.
     finish_rows strict d ''risk breakdown'' ''risk breakdown'' \<lparr>rs_run_id = runID,
         rs_total_events = of_nat (length (run_rows d runID)),
         rs_call_count = of_nat (count_type ''tool_call'' (run_rows d runID)),
         rs_blocked_count = of_nat (count_type ''blocked'' (run_rows d runID)),
         rs_risk_breakdown = gm_of_list (take 32 (risk_groups (run_rows d runID))) []\<rparr>))"

definition GetGlobalStats :: "db \<Rightarrow> global_stats outcome" where
  "GetGlobalStats d =
     bind_outcome (query_ready d) (\<lambda>_.
     Ok \<lparr>gs_total_runs = int (length (db_runs d)),
         gs_total_events = of_nat (length (db_events d)),
         gs_critical_count = int (length (filter (\<lambda>r. e_risk_level r = ''critical'') (db_events d)))\<rparr>)"

section \<open>The store as a repository\<close>

definition sqlite_repo :: "bool \<Rightarrow> ('a) float_conv_scheme \<Rightarrow> int \<Rightarrow> db repository" where
  "sqlite_repo strict F now =
     \<lparr>repo_StoreEvent = StoreEvent strict F, repo_InsertRun = (\<lambda>d. InsertRun strict d now),
      repo_GetLastEvent = GetLastEvent strict, repo_GetEventByID = GetEventByID strict,
      repo_GetAllEvents = GetAllEvents strict F, repo_GetRecentEvents = GetRecentEvents strict,
      repo_GetEventsByTaskID = GetEventsByTaskID strict, repo_GetRiskEvents = GetRiskEvents strict,
      repo_HasRuns = HasRuns, repo_GetRunID = GetRunID, repo_GetRunInfo = GetRunInfo strict,
      repo_GetRunStats = GetRunStats strict, repo_GetGlobalStats = GetGlobalStats,
      repo_Close = CloseDB\<rparr>"

text \<open>
  The rows of each run carry the numbers 0, 1, 2, ... in insertion order. \<open>db_up\<close> says that no fault
  is pending, \<open>run_log\<close> is a run as it reads back.
\<close>

definition store_inv :: "db \<Rightarrow> bool" where
  "store_inv d \<longleftrightarrow> (\<forall>r. map e_seq_index (run_rows d r) = map of_nat [0..<length (run_rows d r)]
     \<and> length (run_rows d r) \<le> 2 ^ 63)"

definition db_up :: "db \<Rightarrow> bool" where
  "db_up d \<longleftrightarrow> db_open d \<and> db_read_err d = None \<and> db_write_err d = None
     \<and> db_rows_err d = None \<and> db_close_err d = None"

definition run_log :: "('a) float_conv_scheme \<Rightarrow> db \<Rightarrow> string \<Rightarrow> event list" where
  "run_log F d r = map (load_row F) (order_asc e_seq_index (run_rows d r))"

definition db_ids :: "db \<Rightarrow> string set" where
  "db_ids d = set (map e_id (db_events d))"

section \<open>Lemmas\<close>

lemma query_ready_up [simp]: "db_up d \<Longrightarrow> query_ready d = Ok ()"
  by (simp add: query_ready_def db_up_def)

lemma exec_ready_up [simp]: "db_up d \<Longrightarrow> exec_ready d = Ok ()"
  by (simp add: exec_ready_def db_up_def)

lemma finish_rows_up [simp]: "db_up d \<Longrightarrow> finish_rows strict d l w x = Ok x"
  by (simp add: finish_rows_def db_up_def)

lemma finish_rows_Ok: "finish_rows strict d l w x = Ok y \<Longrightarrow> y = x"
  by (auto simp: finish_rows_def outcome_simps split: option.splits)

lemma sort_key_unique:
  assumes "mset xs = mset ys" and "distinct (map f ys)" and "sorted (map f ys)"
  shows "sort_key f xs = ys"
proof (rule properties_for_sort_key [OF assms(1) [symmetric] _ assms(3)])
  fix k
  assume k: "k \<in> set ys"
  have "filter (\<lambda>x. f k = f x) zs = [k]" if "mset zs = mset ys" for zs
  proof -
    have d: "distinct (map f zs)"
      using that assms(2) by (metis mset_eq_imp_distinct_iff mset_map)
    have "k \<in> set zs" using that k by (metis mset_eq_setD)
    with d show ?thesis
      by (induction zs) (auto simp: filter_empty_conv intro: rev_image_eqI)
  qed
  then show "filter (\<lambda>x. f k = f x) ys = filter (\<lambda>x. f k = f x) xs"
    using assms(1) by simp
qed

lemma seq_numbers_sorted:
  assumes "n \<le> 2 ^ 63"
  shows "sorted (map (of_nat :: nat \<Rightarrow> u64) [0..<n])" and "distinct (map (of_nat :: nat \<Rightarrow> u64) [0..<n])"
proof -
  have u: "unat (of_nat i :: u64) = i" if "i < n" for i
    using that assms by (simp add: unat_of_nat take_bit_nat_eq_self)
  show "sorted (map (of_nat :: nat \<Rightarrow> u64) [0..<n])"
    by (auto simp: sorted_iff_nth_mono word_le_nat_alt u)
  have "inj_on (of_nat :: nat \<Rightarrow> u64) {0..<n}"
    by (rule inj_onI) (metis atLeastLessThan_iff u)
  then show "distinct (map (of_nat :: nat \<Rightarrow> u64) [0..<n])"
    by (simp add: distinct_map)
qed

lemma store_inv_order:
  assumes "store_inv d"
  shows "order_asc e_seq_index (run_rows d r) = run_rows d r"
    and "order_desc e_seq_index (run_rows d r) = rev (run_rows d r)"
proof -
  have "sorted (map e_seq_index (run_rows d r))" "distinct (map e_seq_index (run_rows d r))"
    using assms seq_numbers_sorted [of "length (run_rows d r)"] by (simp_all add: store_inv_def)
  then show "order_asc e_seq_index (run_rows d r) = run_rows d r"
    and "order_desc e_seq_index (run_rows d r) = rev (run_rows d r)"
    by (simp_all add: order_asc_def order_desc_def sort_key_unique)
qed

lemma run_log_inv: "store_inv d \<Longrightarrow> run_log F d r = map (load_row F) (run_rows d r)"
  by (simp add: run_log_def store_inv_order)

lemma load_row_simps [simp]:
  "SeqIndex (load_row F r) = e_seq_index r" "CurrentHash (load_row F r) = e_current_hash r"
  by (simp_all add: load_row_def scan_row_def)

text \<open>What \<^verbatim>\<open>StoreEvent\<close> writes reads back as the event with its time and maps normalised.\<close>

lemma read_map_enc:
  assumes "float_conv_ok F" and "map_ok m"
  shows "read_map F (enc F (map_value m)) = norm_map F m"
proof (cases m)
  case None
  then show ?thesis by (simp add: read_map_def map_value_def norm_map_def)
next
  case (Some kvs)
  then show ?thesis
    using Unmarshal_enc [of F "map_value m"] assms
    by (simp add: read_map_def map_value_def norm_map_def map_ok_def UnmarshalMap_def)
qed

lemma load_row_of:
  assumes "float_conv_ok F" and "event_ok e"
  shows "load_row F (row_of e (enc F (map_value (Params e))) (enc F (map_value (Response e))))
    = norm_event F e"
  using assms
  by (simp add: load_row_def row_of_def scan_row_def zero_event_def norm_event_def event_ok_def
      read_map_enc parse_format_time)

lemma InsertEvent_Ok:
  "InsertEvent strict d row = (d', Ok ()) \<Longrightarrow>
     d' = d\<lparr>db_events := db_events d @ [row]\<rparr> \<and> unat (e_seq_index row) < 2 ^ 63
     \<and> e_id row \<notin> db_ids d"
  by (auto simp: InsertEvent_def outcome_simps db_ids_def split: outcome.splits if_splits)

lemma InsertEvent_fail: "InsertEvent strict d row = (d', x) \<Longrightarrow> x \<noteq> Ok () \<Longrightarrow> d' = d"
  by (auto simp: InsertEvent_def split: outcome.splits)

lemma StoreEvent_fail: "StoreEvent strict F d e = (d', x) \<Longrightarrow> x \<noteq> Ok () \<Longrightarrow> d' = d"
  by (auto simp: StoreEvent_def dest: InsertEvent_fail split: outcome.splits)

lemma StoreEvent_Ok:
  assumes "StoreEvent strict F d e = (d', Ok ())"
  shows "d' = d\<lparr>db_events := db_events d @
            [row_of e (enc F (map_value (Params e))) (enc F (map_value (Response e)))]\<rparr>
    \<and> unat (SeqIndex e) < 2 ^ 63 \<and> ID e \<notin> db_ids d"
  using assms
  by (auto simp: StoreEvent_def outcome_simps Marshal_def row_of_def dest!: InsertEvent_Ok
      split: outcome.splits if_splits)

lemma run_rows_append:
  "run_rows (d\<lparr>db_events := db_events d @ [row]\<rparr>) r
     = run_rows d r @ (if e_run_id row = r then [row] else [])"
  by (simp add: run_rows_def)

lemma store_inv_append:
  assumes "store_inv d" and "e_seq_index row = of_nat (length (run_rows d (e_run_id row)))"
    and "unat (e_seq_index row) < 2 ^ 63"
  shows "store_inv (d\<lparr>db_events := db_events d @ [row]\<rparr>)"
proof -
  let ?n = "length (run_rows d (e_run_id row))"
  have "?n \<le> 2 ^ 63" using assms(1) by (simp add: store_inv_def)
  then have "unat (of_nat ?n :: u64) = ?n" by (simp add: unat_of_nat take_bit_nat_eq_self)
  then have "?n < 2 ^ 63" using assms(2,3) by simp
  then show ?thesis
    using assms(1,2) by (simp add: store_inv_def run_rows_append)
qed

lemma InsertRun_keeps:
  "InsertRun strict d now r a g k = (d', x) \<Longrightarrow>
     db_events d' = db_events d \<and> (db_up d' \<longleftrightarrow> db_up d)"
  by (auto simp: InsertRun_def db_up_def split: outcome.splits)

lemma store_view_cong:
  assumes "db_events d' = db_events d"
  shows "run_log F d' = run_log F d" "db_ids d' = db_ids d" "store_inv d' = store_inv d"
  using assms by (simp_all add: run_log_def run_rows_def db_ids_def store_inv_def fun_eq_iff)

lemma StoreEvent_up:
  assumes "db_up d" and "event_ok e" and "ID e \<notin> db_ids d" and "unat (SeqIndex e) < 2 ^ 63"
    and "ID e \<noteq> ''''" "RunID e \<noteq> ''''" "CurrentHash e \<noteq> ''''" "Signature e \<noteq> ''''"
  shows "snd (StoreEvent strict F d e) = Ok ()"
  using assms
  by (simp add: StoreEvent_def Marshal_def event_ok_def map_ok_def InsertEvent_def row_of_def db_ids_def)

lemma unat_length_small: "n \<le> 2 ^ 63 \<Longrightarrow> unat (of_nat n :: u64) = n"
  by (simp add: unat_of_nat take_bit_nat_eq_self)

text \<open>The store keeps the contract of \<^verbatim>\<open>EventRepository\<close>.\<close>

interpretation sq: event_repository "sqlite_repo strict X now" X "run_log X" db_ids db_up store_inv
    maxEventRows "2 ^ 63"
  for strict X now
proof
  show "(2::nat) ^ 63 < 2 ^ 64" by simp
next
  fix d r
  assume "store_inv d"
  then show "length (run_log X d r) \<le> 2 ^ 63" by (simp add: run_log_inv) (simp add: store_inv_def)
next
  fix d r i
  assume d: "store_inv d" and i: "i < length (run_log X d r)"
  have "map e_seq_index (run_rows d r) = map of_nat [0..<length (run_rows d r)]"
    using d by (simp add: store_inv_def)
  then have "map e_seq_index (run_rows d r) ! i = map of_nat [0..<length (run_rows d r)] ! i"
    by (rule arg_cong)
  then show "SeqIndex (run_log X d r ! i) = of_nat i"
    using d i by (simp add: run_log_inv)
next
  fix d r st
  assume "store_inv d" "repo_GetRunStats (sqlite_repo strict X now) d r = Ok st"
  then show "rs_total_events st = of_nat (length (run_log X d r))"
    by (auto simp: sqlite_repo_def GetRunStats_def outcome_simps run_log_inv dest!: finish_rows_Ok)
next
  fix d r k h
  assume "store_inv d" "repo_GetLastEvent (sqlite_repo strict X now) d r = Ok (k, h)"
  then show "(k, h) = (if run_log X d r = [] then (0, '''')
      else (SeqIndex (last (run_log X d r)), CurrentHash (last (run_log X d r))))"
    by (auto simp: sqlite_repo_def GetLastEvent_def outcome_simps run_log_inv store_inv_order last_map
        hd_rev [symmetric] split: list.splits)
next
  fix d r es
  assume "store_inv d" "repo_GetAllEvents (sqlite_repo strict X now) d r = Ok es"
  then show "es = take maxEventRows (run_log X d r)"
    by (auto simp: sqlite_repo_def GetAllEvents_def outcome_simps run_log_def take_map
        dest!: finish_rows_Ok)
next
  fix d e d'
  assume F: "float_conv_ok X" and d: "store_inv d" and e: "event_ok e"
    and seq: "SeqIndex e = of_nat (length (run_log X d (RunID e)))"
    and st: "repo_StoreEvent (sqlite_repo strict X now) d e = (d', Ok ())"
  let ?row = "row_of e (enc X (map_value (Params e))) (enc X (map_value (Response e)))"
  have d': "d' = d\<lparr>db_events := db_events d @ [?row]\<rparr>" and small: "unat (SeqIndex e) < 2 ^ 63"
    using StoreEvent_Ok [of strict X d e d'] st by (simp_all add: sqlite_repo_def)
  have inv: "store_inv d'"
    using store_inv_append [OF d, of ?row] seq small d by (simp add: d' row_of_def run_log_inv)
  moreover have "run_log X d' r = ((run_log X d)(RunID e := run_log X d (RunID e) @ [norm_event X e])) r"
    for r
    unfolding run_log_inv [OF inv] fun_upd_def run_log_inv [OF d]
    by (simp add: d' run_rows_append load_row_of [OF F e]) (simp add: row_of_def)
  ultimately show "store_inv d' \<and> (db_up d' \<longleftrightarrow> db_up d) \<and> db_ids d' = insert (ID e) (db_ids d)
      \<and> run_log X d' = (run_log X d)(RunID e := run_log X d (RunID e) @ [norm_event X e])"
    by (simp add: fun_eq_iff) (simp add: d' db_up_def db_ids_def row_of_def)
next
  fix d e d' x
  assume "repo_StoreEvent (sqlite_repo strict X now) d e = (d', Err x)
    \<or> repo_StoreEvent (sqlite_repo strict X now) d e = (d', Panic x)"
  then show "d' = d" by (auto simp: sqlite_repo_def dest: StoreEvent_fail)
next
  fix d e
  assume "store_inv d" "db_up d" "event_ok e" "ID e \<notin> db_ids d" "ID e \<noteq> ''''" "RunID e \<noteq> ''''"
    "CurrentHash e \<noteq> ''''" "Signature e \<noteq> ''''"
    "SeqIndex e = of_nat (length (run_log X d (RunID e)))" "length (run_log X d (RunID e)) < 2 ^ 63"
  then show "snd (repo_StoreEvent (sqlite_repo strict X now) d e) = Ok ()"
    by (simp add: sqlite_repo_def StoreEvent_up unat_length_small)
next
  fix d r agent hash key d' y
  assume "repo_InsertRun (sqlite_repo strict X now) d r agent hash key = (d', y)"
  then show "run_log X d' = run_log X d \<and> db_ids d' = db_ids d \<and> (db_up d' \<longleftrightarrow> db_up d)
      \<and> (store_inv d \<longrightarrow> store_inv d')"
    using InsertRun_keeps [of strict d now r agent hash key d' y] store_view_cong [of d' d]
    by (simp add: sqlite_repo_def)
qed (simp_all add: sqlite_repo_def GetRunStats_def GetLastEvent_def GetAllEvents_def outcome_simps
    split: list.splits)

end
