(* ===== verification/Go_Text.thy ===== *)
theory Go_Text
  imports Json_Values
begin

text \<open>
  The text the command line tool prints: \<^verbatim>\<open>time.Duration\<close> with \<^verbatim>\<open>Sub\<close>, \<^verbatim>\<open>Truncate\<close> and \<^verbatim>\<open>String\<close>, the
  time layouts it uses, the padding of \<^verbatim>\<open>fmt\<close>, indented JSON, \<^verbatim>\<open>filepath.Ext\<close> and the flag parser of
  package \<^verbatim>\<open>flag\<close>.
\<close>

section \<open>Durations\<close>

text \<open>Days since the first of January of year 1, and seconds since then in UTC.\<close>

definition days_before_year :: "nat \<Rightarrow> int" where
  "days_before_year y = (let p = int y - 1 in 365 * p + p div 4 - p div 100 + p div 400)"

definition abs_days :: "gotime \<Rightarrow> int" where
  "abs_days t = days_before_year (t_year t)
     + (\<Sum>m \<leftarrow> [1..<t_month t]. int (days_in m (t_year t))) + int (t_day t) - 1"

definition abs_seconds :: "gotime \<Rightarrow> int" where
  "abs_seconds t = abs_days t * 86400 + int (t_hour t) * 3600 + int (t_min t) * 60 + int (t_sec t)
     - t_off t * 60"

text \<open>\<^verbatim>\<open>t.Sub(u)\<close>: the monotonic readings when both have one, and the result cut to 64 bits.\<close>

definition max_duration :: int where
  "max_duration = 2 ^ 63 - 1"

definition Sub :: "gotime \<Rightarrow> gotime \<Rightarrow> int" where
  "Sub t u =
     (let d = (case (t_mono t, t_mono u) of
                 (Some a, Some b) \<Rightarrow> a - b
               | _ \<Rightarrow> (abs_seconds t - abs_seconds u) * 1000000000 + int (t_nsec t) - int (t_nsec u))
      in max (- max_duration - 1) (min max_duration d))"

text \<open>\<^verbatim>\<open>d.Truncate(m)\<close> rounds towards zero to a multiple of \<open>m\<close>.\<close>

definition Truncate :: "int \<Rightarrow> int \<Rightarrow> int" where
  "Truncate d m = (if m \<le> 0 then d else sgn d * (\<bar>d\<bar> div m * m))"

definition frac_text :: "nat \<Rightarrow> nat \<Rightarrow> string" where
  "frac_text prec u =
     (let ds = strip_zeros (show_padded prec u) in if ds = [] then [] else CHR ''.'' # ds)"

definition show_duration :: "int \<Rightarrow> string" where
  "show_duration d =
     (let u = nat \<bar>d\<bar>; s = u div 1000000000 in
      (if d < 0 then ''-'' else '''') @
      (if u = 0 then ''0s''
       else if u < 1000 then show_nat u @ ''ns''
       else if u < 1000000 then show_nat (u div 1000) @ frac_text 3 u @ [CHR 0xC2, CHR 0xB5, CHR ''s'']
       else if u < 1000000000 then show_nat (u div 1000000) @ frac_text 6 u @ ''ms''
       else (if 3600 \<le> s then show_nat (s div 3600) @ ''h'' else '''')
            @ (if 60 \<le> s then show_nat (s div 60 mod 60) @ ''m'' else '''')
            @ show_nat (s mod 60) @ frac_text 9 u @ ''s''))"

section \<open>Layouts\<close>

definition clock_text :: "gotime \<Rightarrow> string" where
  "clock_text t = show_padded 2 (t_hour t) @ '':'' @ show_padded 2 (t_min t) @ '':'' @ show_padded 2 (t_sec t)"

definition date_text :: "gotime \<Rightarrow> string" where
  "date_text t = show_padded 4 (t_year t) @ ''-'' @ show_padded 2 (t_month t) @ ''-'' @ show_padded 2 (t_day t)"

text \<open>\<^verbatim>\<open>time.RFC3339\<close>, \<^verbatim>\<open>15:04:05.000\<close>, \<^verbatim>\<open>2006-01-02 15:04:05\<close> and \<^verbatim>\<open>20060102T150405Z\<close>.\<close>

definition format_rfc3339 :: "gotime \<Rightarrow> string" where
  "format_rfc3339 t = date_text t @ ''T'' @ clock_text t @ format_zone (t_off t)"

definition format_millis :: "gotime \<Rightarrow> string" where
  "format_millis t = clock_text t @ ''.'' @ show_padded 3 (t_nsec t div 1000000)"

definition format_plain :: "gotime \<Rightarrow> string" where
  "format_plain t = date_text t @ '' '' @ clock_text t"

definition format_stamp :: "gotime \<Rightarrow> string" where
  "format_stamp t =
     show_padded 4 (t_year t) @ show_padded 2 (t_month t) @ show_padded 2 (t_day t) @ ''T''
     @ show_padded 2 (t_hour t) @ show_padded 2 (t_min t) @ show_padded 2 (t_sec t) @ ''Z''"

text \<open>\<^verbatim>\<open>time.RFC1123\<close>; \<open>zone\<close> is the abbreviation of the local time zone.\<close>

definition weekday_text :: "gotime \<Rightarrow> string" where
  "weekday_text t = [''Mon'', ''Tue'', ''Wed'', ''Thu'', ''Fri'', ''Sat'', ''Sun''] ! nat (abs_days t mod 7)"

definition month_text :: "gotime \<Rightarrow> string" where
  "month_text t = [''Jan'', ''Feb'', ''Mar'', ''Apr'', ''May'', ''Jun'', ''Jul'', ''Aug'', ''Sep'', ''Oct'',
     ''Nov'', ''Dec''] ! (t_month t - 1)"

definition format_rfc1123 :: "string \<Rightarrow> gotime \<Rightarrow> string" where
  "format_rfc1123 zone t =
     weekday_text t @ '', '' @ show_padded 2 (t_day t) @ '' '' @ month_text t @ '' ''
     @ show_padded 4 (t_year t) @ '' '' @ clock_text t @ '' '' @ zone"

section \<open>Padding\<close>

text \<open>A width counts characters: the runes of the string, with one for every ill-formed byte.\<close>

function rune_count :: "string \<Rightarrow> nat" where
  "rune_count [] = 0"
| "rune_count (c # s) = Suc (rune_count (drop (utf8_len (c # s) - 1) s))"
  by pat_completeness auto
termination
  by (relation "measure length") auto

definition pad_right :: "nat \<Rightarrow> string \<Rightarrow> string" where
  "pad_right w s = s @ replicate (w - rune_count s) CHR '' ''"

section \<open>Indented JSON\<close>

definition newline_indent :: "nat \<Rightarrow> string" where
  "newline_indent n = CHR 0x0A # replicate (2 * n) CHR '' ''"

text \<open>\<^verbatim>\<open>json.MarshalIndent(v, "", "  ")\<close>; empty arrays and objects stay on their line.\<close>

fun indent :: "('a) float_conv_scheme \<Rightarrow> nat \<Rightarrow> goval \<Rightarrow> string"
and indent_elems :: "('a) float_conv_scheme \<Rightarrow> nat \<Rightarrow> goval list \<Rightarrow> string"
and indent_members :: "('a) float_conv_scheme \<Rightarrow> nat \<Rightarrow> (string \<times> goval) list \<Rightarrow> string" where
  "indent F n (GList (v # vs)) =
     ''['' @ newline_indent (Suc n) @ indent_elems F (Suc n) (v # vs) @ newline_indent n @ '']''"
| "indent F n (GMap (kv # kvs)) =
     ''{'' @ newline_indent (Suc n) @ indent_members F (Suc n) (kv # kvs) @ newline_indent n @ ''}''"
| "indent F n v = enc F v"
| "indent_elems F n [] = []"
| "indent_elems F n [v] = indent F n v"
| "indent_elems F n (v # vs) = indent F n v @ '','' @ newline_indent n @ indent_elems F n vs"
| "indent_members F n [] = []"
| "indent_members F n [(k, v)] = enc_string k @ '': '' @ indent F n v"
| "indent_members F n ((k, v) # kvs) =
     enc_string k @ '': '' @ indent F n v @ '','' @ newline_indent n @ indent_members F n kvs"

definition MarshalIndent :: "('a) float_conv_scheme \<Rightarrow> goval \<Rightarrow> string outcome" where
  "MarshalIndent F v =
     (if marshalable v then Ok (indent F 0 v) else Err (ErrorString ''json: unsupported value''))"

section \<open>File names\<close>

text \<open>\<^verbatim>\<open>filepath.Ext\<close>: the suffix from the last dot of the last path element, empty when there is none.\<close>

definition Ext :: "string \<Rightarrow> string" where
  "Ext path =
     (let r = takeWhile (\<lambda>c. c \<noteq> CHR ''.'' \<and> c \<noteq> CHR ''/'') (rev path); n = length path - length r in
      if n > 0 \<and> path ! (n - 1) = CHR ''.'' then CHR ''.'' # rev r else '''')"

end
