(* ===== verification/Go_Flags.thy ===== *)
theory Go_Flags
  imports Go_Text
begin

text \<open>
  Package \<^verbatim>\<open>flag\<close> as the two programs use it, with \<^verbatim>\<open>ExitOnError\<close>: the formal flags with their current
  values, the loop over the arguments, and the conversions of \<^verbatim>\<open>strconv\<close> behind boolean and integer
  flags. Whether an integer has the base of its prefix and where underscores may stand is decided as
  \<^verbatim>\<open>strconv.ParseInt(s, 0, 64)\<close> decides it.
\<close>

section \<open>strconv\<close>

definition ParseBool :: "string \<Rightarrow> bool option" where
  "ParseBool s =
     (if s \<in> set [''1'', ''t'', ''T'', ''TRUE'', ''true'', ''True''] then Some True
      else if s \<in> set [''0'', ''f'', ''F'', ''FALSE'', ''false'', ''False''] then Some False else None)"

text \<open>\<^verbatim>\<open>c | 0x20\<close>, which makes a letter lower case.\<close>

definition ascii_lower :: "char \<Rightarrow> nat" where
  "ascii_lower c = (let n = cv c in if n div 32 mod 2 = 0 then n + 32 else n)"

definition base_digit :: "nat \<Rightarrow> char \<Rightarrow> nat option" where
  "base_digit base c =
     (let d = (if is_digit c then digit_val c
               else if 97 \<le> ascii_lower c \<and> ascii_lower c \<le> 122 then ascii_lower c - 87 else 255) in
      if d < base then Some d else None)"

fun read_base :: "nat \<Rightarrow> string \<Rightarrow> nat \<Rightarrow> nat option" where
  "read_base base [] n = Some n"
| "read_base base (c # s) n =
     (if c = CHR ''_'' then read_base base s n
      else case base_digit base c of None \<Rightarrow> None | Some d \<Rightarrow> read_base base s (base * n + d))"

definition base_prefix :: "string \<Rightarrow> nat \<times> string" where
  "base_prefix s =
     (case s of
        z # r \<Rightarrow>
          if z \<noteq> CHR ''0'' then (10, s)
          else (case r of
                  p # q # _ \<Rightarrow>
                    if ascii_lower p = 98 then (2, tl r)
                    else if ascii_lower p = 111 then (8, tl r)
                    else if ascii_lower p = 120 then (16, tl r)
                    else (8, r)
                | _ \<Rightarrow> (8, r))
      | [] \<Rightarrow> (10, []))"

text \<open>Every underscore follows a digit, or the prefix, and comes before a digit.\<close>

fun underscores_ok :: "bool \<Rightarrow> string \<Rightarrow> bool" where
  "underscores_ok digit [] = True"
| "underscores_ok digit [c] = (c \<noteq> CHR ''_'')"
| "underscores_ok digit (c # s) =
     (if c = CHR ''_'' then digit \<and> underscores_ok False s else underscores_ok True s)"

definition ParseUint0 :: "string \<Rightarrow> nat option" where
  "ParseUint0 s =
     (if s = '''' then None
      else case base_prefix s of (base, r) \<Rightarrow>
        if (if length r + 2 = length s then underscores_ok True r else underscores_ok False s)
        then read_base base r 0 else None)"

definition ParseInt0 :: "string \<Rightarrow> int option" where
  "ParseInt0 s =
     (case s of
        [] \<Rightarrow> None
      | c # r \<Rightarrow>
          if c = CHR ''-'' then
            (case ParseUint0 r of None \<Rightarrow> None | Some n \<Rightarrow> if n \<le> 2 ^ 63 then Some (- int n) else None)
          else
            (case ParseUint0 (if c = CHR ''+'' then r else s) of
               None \<Rightarrow> None | Some n \<Rightarrow> if n < 2 ^ 63 then Some (int n) else None))"

section \<open>The flag set\<close>

datatype flag_value = FBool bool | FInt int | FString string

type_synonym flag_set = "(string \<times> flag_value) list"

text \<open>\<^verbatim>\<open>Value.Set\<close> of the kind of flag that is there.\<close>

fun set_value :: "flag_value \<Rightarrow> string \<Rightarrow> flag_value option" where
  "set_value (FBool b) s = map_option FBool (ParseBool s)"
| "set_value (FInt i) s = map_option FInt (ParseInt0 s)"
| "set_value (FString t) s = Some (FString s)"

definition set_flag :: "string \<Rightarrow> flag_value \<Rightarrow> flag_set \<Rightarrow> flag_set" where
  "set_flag name v fs = map (\<lambda>(k, old). (k, if k = name then v else old)) fs"

datatype flag_arg = NotFlag | BadSyntax | FlagArg string "string option"

definition split_flag :: "string \<Rightarrow> flag_arg" where
  "split_flag s =
     (if length s < 2 \<or> hd s \<noteq> CHR ''-'' \<or> s = ''--'' then NotFlag
      else let name = (if s ! 1 = CHR ''-'' then drop 2 s else tl s) in
        if name = '''' \<or> hd name = CHR ''-'' \<or> hd name = CHR ''='' then BadSyntax
        else let key = takeWhile (\<lambda>c. c \<noteq> CHR ''='') name in
          FlagArg key (if length key < length name then Some (drop (Suc (length key)) name) else None))"

text \<open>
  The loop of \<^verbatim>\<open>Parse\<close>: it stops at the first argument that is not a flag, or at \<^verbatim>\<open>--\<close>. A request for
  help leaves the program with status 0, an error with status 2.
\<close>

datatype flag_result = Parsed flag_set | Leave nat

fun parse_flags :: "flag_set \<Rightarrow> string list \<Rightarrow> flag_result" where
  "parse_flags fs [] = Parsed fs"
| "parse_flags fs (s # args) =
     (case split_flag s of
        NotFlag \<Rightarrow> Parsed fs
      | BadSyntax \<Rightarrow> Leave 2
      | FlagArg name val \<Rightarrow>
          (case map_of fs name of
             None \<Rightarrow> Leave (if name = ''help'' \<or> name = ''h'' then 0 else 2)
           | Some old \<Rightarrow>
               (case val of
                  Some v \<Rightarrow>
                    (case set_value old v of
                       None \<Rightarrow> Leave 2 | Some new \<Rightarrow> parse_flags (set_flag name new fs) args)
                | None \<Rightarrow>
                    (case old of
                       FBool b \<Rightarrow> parse_flags (set_flag name (FBool True) fs) args
                     | _ \<Rightarrow>
                         (case args of
                            [] \<Rightarrow> Leave 2
                          | v # rest \<Rightarrow>
                              (case set_value old v of
                                 None \<Rightarrow> Leave 2 | Some new \<Rightarrow> parse_flags (set_flag name new fs) rest))))))"

definition flag_int :: "flag_set \<Rightarrow> string \<Rightarrow> int" where
  "flag_int fs name = (case map_of fs name of Some (FInt i) \<Rightarrow> i | _ \<Rightarrow> 0)"

definition flag_bool :: "flag_set \<Rightarrow> string \<Rightarrow> bool" where
  "flag_bool fs name = (case map_of fs name of Some (FBool b) \<Rightarrow> b | _ \<Rightarrow> False)"

definition flag_string :: "flag_set \<Rightarrow> string \<Rightarrow> string" where
  "flag_string fs name = (case map_of fs name of Some (FString s) \<Rightarrow> s | _ \<Rightarrow> '''')"

section \<open>Lemmas\<close>

text \<open>Reading back a printed decimal number.\<close>

lemma read_base_digits:
  "list_all is_digit s \<Longrightarrow> read_base 10 s n = Some (foldl (\<lambda>a c. 10 * a + digit_val c) n s)"
proof (induction s arbitrary: n)
  case (Cons c s)
  moreover have "base_digit 10 c = Some (digit_val c)" "c \<noteq> CHR ''_''"
    using Cons.prems by (auto simp: base_digit_def is_digit_def digit_val_def Let_def)
  ultimately show ?case by simp
qed simp

lemma underscores_ok_digits: "list_all is_digit s \<Longrightarrow> underscores_ok d s"
  by (induction d s rule: underscores_ok.induct) (auto simp: is_digit_def)

lemma show_nat_lead: "n > 0 \<Longrightarrow> hd (show_nat n) \<noteq> CHR ''0''"
proof (induction n rule: show_nat.induct)
  case (1 n)
  then show ?case
    by (auto simp: show_nat.simps [of n] digit_char_def hd_append
        dest: arg_cong [where f = "of_char :: char \<Rightarrow> nat"])
qed

lemma ParseUint0_show: "ParseUint0 (show_nat n) = Some n"
proof (cases "n = 0")
  case True
  have "ParseUint0 (show_nat 0) = Some 0" by code_simp
  with True show ?thesis by simp
next
  case False
  obtain c r where s: "show_nat n = c # r" using show_nat_nonempty [of n] by (cases "show_nat n") auto
  have "c \<noteq> CHR ''0''" using show_nat_lead [of n] s False by simp
  then have "base_prefix (show_nat n) = (10, show_nat n)" by (simp add: base_prefix_def s)
  then show ?thesis
    using underscores_ok_digits [OF show_nat_digits [of n]] read_base_digits [OF show_nat_digits [of n], of 0]
      read_show_nat [of n] s
    by (simp add: ParseUint0_def read_digits_def)
qed

lemma ParseInt0_show:
  assumes "- (2 ^ 63) \<le> i" and "i < 2 ^ 63"
  shows "ParseInt0 (show_int i) = Some i"
proof (cases "i < 0")
  case True
  then show ?thesis using assms by (simp add: show_int_def ParseInt0_def ParseUint0_show nat_le_iff)
next
  case False
  obtain c r where s: "show_nat (nat i) = c # r" using show_nat_nonempty [of "nat i"] by (cases "show_nat (nat i)") auto
  then have "is_digit c" using show_nat_digits [of "nat i"] by simp
  then have "c \<noteq> CHR ''-''" "c \<noteq> CHR ''+''" by (auto simp: is_digit_def)
  then show ?thesis
    using False assms s ParseUint0_show [of "nat i"] by (simp add: show_int_def ParseInt0_def nat_less_iff)
qed

end
