(* ===== verification/Cli_Console.thy ===== *)
theory Cli_Console
  imports Event_Store Crypto_Engine Go_Flags
begin

text \<open>
  What the commands of \<^verbatim>\<open>logyctl\<close> share. A command prints to the standard output and ends by returning, by
  \<^verbatim>\<open>os.Exit\<close>, by \<^verbatim>\<open>log.Fatalf\<close> (whose message goes to the standard error, status 1) or by a panic. It
  opens the database file with \<^verbatim>\<open>store.NewDB\<close>; the deferred \<^verbatim>\<open>Close\<close> can only add a log message. The
  file system has, beside what the signer uses, \<^verbatim>\<open>os.Stat\<close>, \<^verbatim>\<open>os.Rename\<close> and \<^verbatim>\<open>os.Create\<close>.
\<close>

section \<open>Output and exit status\<close>

datatype exit = Return | Exit nat | Fatal string | Crash error

type_synonym console = "string \<times> exit"

abbreviation nl :: string where
  "nl \<equiv> [CHR 0x0A]"

definition say :: "string \<Rightarrow> console \<Rightarrow> console" where
  "say s k = (s @ fst k, snd k)"

definition println :: "string \<Rightarrow> console \<Rightarrow> console" where
  "println s k = say (s @ nl) k"

definition fatal :: "string \<Rightarrow> error \<Rightarrow> console" where
  "fatal msg e = ('''', Fatal (msg @ '': '' @ error_msg e))"

abbreviation stop :: "exit \<Rightarrow> console" where
  "stop x \<equiv> ('''', x)"

text \<open>The status the operating system sees.\<close>

fun status :: "exit \<Rightarrow> nat" where
  "status Return = 0"
| "status (Exit n) = n"
| "status (Fatal m) = 1"
| "status (Crash e) = 2"

text \<open>A call whose error ends the command in \<open>h\<close>.\<close>

definition attempt :: "'a outcome \<Rightarrow> (error \<Rightarrow> console) \<Rightarrow> ('a \<Rightarrow> console) \<Rightarrow> console" where
  "attempt r h k = (case r of Ok x \<Rightarrow> k x | Err e \<Rightarrow> h e | Panic e \<Rightarrow> stop (Crash e))"

text \<open>An expression that has a value or panics.\<close>

definition or_crash :: "'a outcome \<Rightarrow> ('a \<Rightarrow> console) \<Rightarrow> console" where
  "or_crash r k = attempt r (\<lambda>e. stop (Crash e)) k"

text \<open>A call whose error goes through \<^verbatim>\<open>assert.Check\<close> before it ends the command.\<close>

definition checked :: "bool \<Rightarrow> string \<Rightarrow> string \<Rightarrow> 'a outcome \<Rightarrow> ('a \<Rightarrow> console) \<Rightarrow> console" where
  "checked strict what msg r k =
     (case r of
        Ok x \<Rightarrow> k x
      | Err e \<Rightarrow> attempt (Check strict False (what @ '': '' @ error_msg e)) (fatal msg) (\<lambda>_. stop Return)
      | Panic e \<Rightarrow> stop (Crash e))"

section \<open>The database file\<close>

text \<open>The tables of \<^verbatim>\<open>logryph.db\<close>, the errors opening it meets, and those its queries meet.\<close>

record disk =
  dk_tables :: "(run_row list \<times> event_row list) option"
  dk_mkdir_err :: "error option"
  dk_open_err :: "error option"
  dk_wal_err :: "error option"
  dk_schema_err :: "error option"
  dk_close_err :: "error option"
  dk_read_err :: "error option"
  dk_rows_err :: "error option"
  dk_rows_close_err :: "error option"

definition OpenDB :: "disk \<Rightarrow> db outcome" where
  "OpenDB k =
     bind_outcome (NewDB (dk_mkdir_err k) (dk_open_err k) (dk_wal_err k) (dk_schema_err k) (dk_close_err k)
       (dk_tables k)) (\<lambda>d.
     Ok (d\<lparr>db_read_err := dk_read_err k, db_rows_err := dk_rows_err k, db_close_err := dk_rows_close_err k,
           db_conn_err := dk_close_err k\<rparr>))"

text \<open>A database file without faults.\<close>

definition good_disk :: "run_row list \<Rightarrow> event_row list \<Rightarrow> disk" where
  "good_disk rs es =
     \<lparr>dk_tables = Some (rs, es), dk_mkdir_err = None, dk_open_err = None, dk_wal_err = None,
      dk_schema_err = None, dk_close_err = None, dk_read_err = None, dk_rows_err = None,
      dk_rows_close_err = None\<rparr>"

section \<open>Files\<close>

definition StatErr :: "filesys \<Rightarrow> string \<Rightarrow> error option" where
  "StatErr fs path =
     (case fs_files fs path of None \<Rightarrow> Some (ErrorString ''no such file or directory'') | Some _ \<Rightarrow> None)"

definition Rename :: "filesys \<Rightarrow> string \<Rightarrow> string \<Rightarrow> filesys \<times> unit outcome" where
  "Rename fs old new =
     (case (fs_write_err fs new, fs_files fs old) of
        (Some e, _) \<Rightarrow> (fs, Err e)
      | (None, None) \<Rightarrow> (fs, Err (ErrorString ''no such file or directory''))
      | (None, Some d) \<Rightarrow> (fs\<lparr>fs_files := ((fs_files fs)(old := None))(new \<mapsto> d)\<rparr>, Ok ()))"

text \<open>
  A file open for writing: how many writes it has seen and its content; \<open>werr i\<close> is the error of the
  write number \<open>i\<close>.
\<close>

type_synonym out_file = "nat \<times> string"

definition fput :: "(nat \<Rightarrow> error option) \<Rightarrow> out_file \<Rightarrow> string \<Rightarrow> out_file \<times> unit outcome" where
  "fput werr f s =
     (case werr (fst f) of
        Some e \<Rightarrow> ((Suc (fst f), snd f), Err e)
      | None \<Rightarrow> ((Suc (fst f), snd f @ s), Ok ()))"

text \<open>Going on with a file after a step that may have failed.\<close>

definition fthen :: "out_file \<times> 'a outcome \<Rightarrow> (out_file \<Rightarrow> out_file \<times> 'b outcome) \<Rightarrow> out_file \<times> 'b outcome" where
  "fthen r k =
     (case r of (f, Ok _) \<Rightarrow> k f | (f, Err e) \<Rightarrow> (f, Err e) | (f, Panic e) \<Rightarrow> (f, Panic e))"

section \<open>Lemmas\<close>

lemma console_simps [simp]:
  "fst (say s k) = s @ fst k" "snd (say s k) = snd k"
  "fst (println s k) = s @ nl @ fst k" "snd (println s k) = snd k"
  "snd (fatal m e) = Fatal (m @ '': '' @ error_msg e)" "fst (fatal m e) = ''''"
  by (simp_all add: say_def println_def fatal_def)

lemma attempt_simps [simp]:
  "attempt (Ok x) h k = k x" "attempt (Err e) h k = h e" "attempt (Panic e) h k = stop (Crash e)"
  by (simp_all add: attempt_def)

lemma or_crash_Ok [simp]: "or_crash (Ok x) k = k x"
  by (simp add: or_crash_def)

lemma checked_Ok [simp]: "checked strict what msg (Ok x) k = k x"
  by (simp add: checked_def)

lemma checked_fails: "\<not> is_ok r \<Longrightarrow> snd (checked strict what msg r k) \<noteq> Return"
  by (cases r; cases strict) (simp_all add: checked_def fatal_def)

lemma OpenDB_good [simp]:
  "OpenDB (good_disk rs es) = Ok \<lparr>db_runs = rs, db_events = es, db_open = True, db_read_err = None,
     db_write_err = None, db_rows_err = None, db_close_err = None, db_conn_err = None\<rparr>"
  by (simp add: OpenDB_def NewDB_def good_disk_def)

end
