(* ===== verification/Observer.thy ===== *)
theory Observer
  imports Crypto_Engine
begin

text \<open>
  The policy engine, \<^verbatim>\<open>src/internal/observer/engine.go\<close>: loading and hot reload of the policy file, and
  the two tests a rule consists of, \<^verbatim>\<open>MatchPattern\<close> and \<^verbatim>\<open>CheckConditions\<close>. The YAML decoder (package
  \<^verbatim>\<open>yaml.v3\<close>), the resolution of a path against the working directory and the text \<^verbatim>\<open>fmt\<close> prints for a
  \<^verbatim>\<open>float64\<close> are arguments.
\<close>

section \<open>Configuration\<close>

record Rule =
  r_ID :: string
  MatchMethods :: "string list"
  r_RiskLevel :: string
  r_LogLevel :: string
  MatchConditions :: "string gomap list"
  Redact :: "string list"

record Config =
  Version :: string
  RetentionDays :: int
  SigningEnabled :: bool
  LogLevel :: string
  Policies :: "Rule list"

record ObserverEngine =
  o_config :: Config
  o_configPath :: string
  o_stopped :: bool

type_synonym yaml_decoder = "string \<Rightarrow> Config outcome"

definition loadConfig :: "yaml_decoder \<Rightarrow> filesys \<Rightarrow> string \<Rightarrow> Config outcome" where
  "loadConfig yaml fs path =
     bind_outcome (wrap_err ''reading policy file'' (ReadFile fs path)) (\<lambda>data.
     wrap_err ''parsing policy YAML'' (yaml data))"

definition NewObserverEngine ::
    "bool \<Rightarrow> (string \<Rightarrow> string outcome) \<Rightarrow> yaml_decoder \<Rightarrow> filesys \<Rightarrow> string \<Rightarrow> ObserverEngine outcome" where
  "NewObserverEngine strict absPath yaml fs configPath =
     bind_outcome (Check strict (configPath \<noteq> '''') ''config path must not be empty'') (\<lambda>_.
     let path = (case absPath configPath of Ok p \<Rightarrow> p | _ \<Rightarrow> configPath) in
     bind_outcome (loadConfig yaml fs path) (\<lambda>config.
     Ok \<lparr>o_config = config, o_configPath = path, o_stopped = False\<rparr>))"

definition Reload :: "yaml_decoder \<Rightarrow> filesys \<Rightarrow> ObserverEngine \<Rightarrow> ObserverEngine \<times> unit outcome" where
  "Reload yaml fs e =
     (case loadConfig yaml fs (o_configPath e) of
        Ok newConfig \<Rightarrow> (e\<lparr>o_config := newConfig\<rparr>, Ok ())
      | Err x \<Rightarrow> (e, Err x)
      | Panic x \<Rightarrow> (e, Panic x))"

text \<open>
  \<^verbatim>\<open>Watch\<close>: each tick has the file system it sees and the modification time \<^verbatim>\<open>os.Stat\<close> reports, if it
  does; instants are nanoseconds after the zero time. \<open>ticks\<close> are those before \<^verbatim>\<open>Stop\<close>.
\<close>

definition maxWatchTicks :: nat where
  "maxWatchTicks = 2 ^ 30"

definition watch_tick ::
    "yaml_decoder \<Rightarrow> filesys \<times> int option \<Rightarrow> ObserverEngine \<times> int \<Rightarrow> ObserverEngine \<times> int" where
  "watch_tick yaml tick st =
     (case (tick, st) of ((fs, stat), (e, lastMod)) \<Rightarrow>
        (case stat of
           None \<Rightarrow> (e, lastMod)
         | Some modTime \<Rightarrow>
             if modTime > lastMod
             then (case Reload yaml fs e of (e', Ok _) \<Rightarrow> (e', modTime) | (e', _) \<Rightarrow> (e', lastMod))
             else (e, lastMod)))"

definition Watch ::
    "bool \<Rightarrow> yaml_decoder \<Rightarrow> int option \<Rightarrow> (filesys \<times> int option) list \<Rightarrow> ObserverEngine
       \<Rightarrow> ObserverEngine \<times> unit outcome" where
  "Watch strict yaml stat ticks e =
     (let lastMod = (case stat of None \<Rightarrow> 0 | Some m \<Rightarrow> m);
          (e', _) = fold (watch_tick yaml) (take maxWatchTicks ticks) (e, lastMod) in
      (e', if length ticks < maxWatchTicks then Ok ()
           else case Check strict False ''watch loop exceeded max ticks'' of
                  Panic x \<Rightarrow> Panic x | _ \<Rightarrow> Ok ()))"

definition StopWatch :: "ObserverEngine \<Rightarrow> ObserverEngine \<times> unit outcome" where
  "StopWatch e = (e\<lparr>o_stopped := True\<rparr>, Ok ())"

definition GetVersion :: "ObserverEngine \<Rightarrow> string" where
  "GetVersion e = Version (o_config e)"

definition GetRuleCount :: "ObserverEngine \<Rightarrow> int" where
  "GetRuleCount e = int (length (Policies (o_config e)))"

definition GetPolicies :: "ObserverEngine \<Rightarrow> Rule list" where
  "GetPolicies e = Policies (o_config e)"

section \<open>Matching\<close>

definition HasPrefix :: "string \<Rightarrow> string \<Rightarrow> bool" where
  "HasPrefix s p \<longleftrightarrow> take (length p) s = p"

definition HasSuffix :: "string \<Rightarrow> string \<Rightarrow> bool" where
  "HasSuffix s p \<longleftrightarrow> length p \<le> length s \<and> drop (length s - length p) s = p"

definition TrimSuffix :: "string \<Rightarrow> string \<Rightarrow> string" where
  "TrimSuffix s p = (if HasSuffix s p then take (length s - length p) s else s)"

definition MatchPattern :: "bool \<Rightarrow> string \<Rightarrow> string \<Rightarrow> bool outcome" where
  "MatchPattern strict pattern mthd =
     (case bind_outcome (Check strict (pattern \<noteq> '''') ''pattern is non-empty'') (\<lambda>_.
           Check strict (mthd \<noteq> '''') ''method is non-empty'') of
        Panic x \<Rightarrow> Panic x
      | Err _ \<Rightarrow> Ok False
      | Ok _ \<Rightarrow> Ok (if pattern = mthd then True
                    else if HasSuffix pattern ''*'' then HasPrefix mthd (TrimSuffix pattern ''*'')
                    else False))"

text \<open>
  \<^verbatim>\<open>fmt.Sprintf("%v", x)\<close>: the text of a \<^verbatim>\<open>float64\<close> and of a \<^verbatim>\<open>time.Time\<close> come from the environment.
\<close>

record fmt_conv =
  fmt_float :: "u64 \<Rightarrow> string"
  fmt_time :: "gotime \<Rightarrow> string"

fun intersperse_sp :: "string list \<Rightarrow> string" where
  "intersperse_sp [] = ''''"
| "intersperse_sp [s] = s"
| "intersperse_sp (s # ss) = s @ '' '' @ intersperse_sp ss"

fun fmt_v :: "fmt_conv \<Rightarrow> goval \<Rightarrow> string" and fmt_members :: "fmt_conv \<Rightarrow> (string \<times> goval) list \<Rightarrow> string list" where
  "fmt_v M GNil = ''<nil>''"
| "fmt_v M (GBool b) = (if b then ''true'' else ''false'')"
| "fmt_v M (GInt w) = show_int (sint w)"
| "fmt_v M (GUint w) = show_int (uint w)"
| "fmt_v M (GFloat x) = fmt_float M x"
| "fmt_v M (GStr s) = s"
| "fmt_v M (GTime t) = fmt_time M t"
| "fmt_v M (GList vs) = ''['' @ intersperse_sp (map (fmt_v M) vs) @ '']''"
| "fmt_v M (GMap kvs) = ''map['' @ intersperse_sp (fmt_members M kvs) @ '']''"
| "fmt_members M [] = []"
| "fmt_members M ((k, v) # kvs) = (k @ '':'' @ fmt_v M v) # fmt_members M kvs"

text \<open>The order of \<^verbatim>\<open>float64\<close> values on their bits: a NaN compares with nothing, the two zeros are equal.\<close>

definition f64_nan :: "u64 \<Rightarrow> bool" where
  "f64_nan x \<longleftrightarrow> (drop_bit 52 x) mod 2048 = 2047 \<and> take_bit 52 x \<noteq> 0"

definition f64_rank :: "u64 \<Rightarrow> int" where
  "f64_rank x = (if bit x 63 then - uint (take_bit 63 x) else uint (take_bit 63 x))"

definition f64_less :: "u64 \<Rightarrow> u64 \<Rightarrow> bool" where
  "f64_less x y \<longleftrightarrow> \<not> f64_nan x \<and> \<not> f64_nan y \<and> f64_rank x < f64_rank y"

definition f64_leq :: "u64 \<Rightarrow> u64 \<Rightarrow> bool" where
  "f64_leq x y \<longleftrightarrow> \<not> f64_nan x \<and> \<not> f64_nan y \<and> f64_rank x \<le> f64_rank y"

text \<open>\<^verbatim>\<open>float64(i)\<close> of a signed integer: exact up to 53 bits, then rounded to the nearest, ties to even.\<close>

fun top_bit :: "nat \<Rightarrow> nat" where
  "top_bit n = (if n < 2 then 0 else Suc (top_bit (n div 2)))"

definition f64_of_int :: "int \<Rightarrow> u64" where
  "f64_of_int i =
     (if i = 0 then 0
      else let m = nat \<bar>i\<bar>; e = top_bit m;
               mant = (if e \<le> 52 then m * 2 ^ (52 - e)
                       else let q = m div 2 ^ (e - 52); r = m mod 2 ^ (e - 52); h = 2 ^ (e - 53) in
                            if r > h \<or> (r = h \<and> odd q) then q + 1 else q)
           in (if i < 0 then push_bit 63 1 else 0) + of_nat ((e + 1023) * 2 ^ 52 + (mant - 2 ^ 52)))"

definition toFloat :: "('a) float_conv_scheme \<Rightarrow> goval \<Rightarrow> u64 option" where
  "toFloat F v =
     (case v of
        GFloat x \<Rightarrow> Some x
      | GInt w \<Rightarrow> Some (f64_of_int (sint w))
      | GStr s \<Rightarrow> parse_float F s
      | _ \<Rightarrow> None)"

definition cond_get :: "string gomap \<Rightarrow> string \<Rightarrow> string" where
  "cond_get c k = (case gm_lookup c k of None \<Rightarrow> '''' | Some v \<Rightarrow> v)"

fun check_loop ::
    "('a) float_conv_scheme \<Rightarrow> fmt_conv \<Rightarrow> goval gomap \<Rightarrow> string gomap list \<Rightarrow> bool" where
  "check_loop F M params [] = True"
| "check_loop F M params (cond # conds) =
     (let key = cond_get cond ''key''; operator = cond_get cond ''operator''; value = cond_get cond ''value'' in
      case gm_lookup params key of
        None \<Rightarrow> False
      | Some val \<Rightarrow>
          if operator = ''eq'' then
            (if fmt_v M val \<noteq> value then False else check_loop F M params conds)
          else if operator \<in> {''gt'', ''lt'', ''gte'', ''lte''} then
            (case (toFloat F val, parse_float F value) of
               (Some fVal, Some fTarget) \<Rightarrow>
                 if operator = ''gt'' \<and> \<not> f64_less fTarget fVal then False
                 else if operator = ''lt'' \<and> \<not> f64_less fVal fTarget then False
                 else if operator = ''gte'' \<and> \<not> f64_leq fTarget fVal then False
                 else if operator = ''lte'' \<and> \<not> f64_leq fVal fTarget then False
                 else check_loop F M params conds
             | _ \<Rightarrow> False)
          else check_loop F M params conds)"

definition maxConditions :: nat where
  "maxConditions = 64"

definition CheckConditions ::
    "bool \<Rightarrow> ('a) float_conv_scheme \<Rightarrow> fmt_conv \<Rightarrow> string gomap list \<Rightarrow> goval gomap option \<Rightarrow> bool outcome" where
  "CheckConditions strict F M conditions params =
     (if conditions = [] then Ok True
      else case bind_outcome (Check strict (params \<noteq> None) ''params must not be nil'') (\<lambda>_.
             Check strict (length conditions \<le> maxConditions)
               (''conditions exceed max: '' @ show_nat (length conditions))) of
          Panic x \<Rightarrow> Panic x
        | Err _ \<Rightarrow> Ok False
        | Ok _ \<Rightarrow> Ok (check_loop F M (the params) (take maxConditions conditions)))"

section \<open>Lemmas\<close>

lemma HasPrefix_iff: "HasPrefix s p \<longleftrightarrow> (\<exists>t. s = p @ t)"
  by (auto simp: HasPrefix_def) (metis append_take_drop_id)

lemma HasSuffix_iff: "HasSuffix s p \<longleftrightarrow> (\<exists>t. s = t @ p)"
  by (auto simp: HasSuffix_def) (metis append_take_drop_id)

lemma TrimSuffix_append [simp]: "TrimSuffix (t @ p) p = t"
  by (simp add: TrimSuffix_def HasSuffix_def)

lemma MatchPattern_Ok:
  "pattern \<noteq> '''' \<Longrightarrow> mthd \<noteq> '''' \<Longrightarrow>
     MatchPattern strict pattern mthd = Ok (pattern = mthd \<or> (\<exists>p t. pattern = p @ ''*'' \<and> mthd = p @ t))"
  by (auto simp: MatchPattern_def HasSuffix_iff HasPrefix_iff)

text \<open>One condition, stated on its own.\<close>

definition num_rel :: "string \<Rightarrow> u64 \<Rightarrow> u64 \<Rightarrow> bool" where
  "num_rel operator x y \<longleftrightarrow>
     (if operator = ''gt'' then f64_less y x else if operator = ''lt'' then f64_less x y
      else if operator = ''gte'' then f64_leq y x else f64_leq x y)"

definition cond_holds :: "('a) float_conv_scheme \<Rightarrow> fmt_conv \<Rightarrow> goval gomap \<Rightarrow> string gomap \<Rightarrow> bool" where
  "cond_holds F M params c \<longleftrightarrow>
     (case gm_lookup params (cond_get c ''key'') of
        None \<Rightarrow> False
      | Some val \<Rightarrow>
          (cond_get c ''operator'' = ''eq'' \<longrightarrow> fmt_v M val = cond_get c ''value'')
          \<and> (cond_get c ''operator'' \<in> {''gt'', ''lt'', ''gte'', ''lte''} \<longrightarrow>
               (case (toFloat F val, parse_float F (cond_get c ''value'')) of
                  (Some x, Some y) \<Rightarrow> num_rel (cond_get c ''operator'') x y
                | _ \<Rightarrow> False)))"

lemma check_loop_iff: "check_loop F M params cs \<longleftrightarrow> list_all (cond_holds F M params) cs"
proof (induction cs)
  case (Cons c cs)
  have "check_loop F M params (c # cs) \<longleftrightarrow> cond_holds F M params c \<and> check_loop F M params cs"
  proof (cases "gm_lookup params (cond_get c ''key'')")
    case (Some v)
    consider "cond_get c ''operator'' = ''eq''" | "cond_get c ''operator'' = ''gt''"
      | "cond_get c ''operator'' = ''lt''" | "cond_get c ''operator'' = ''gte''"
      | "cond_get c ''operator'' = ''lte''"
      | "cond_get c ''operator'' \<notin> {''eq'', ''gt'', ''lt'', ''gte'', ''lte''}"
      by blast
    then show ?thesis
      by cases (simp_all add: cond_holds_def num_rel_def Some cong: conj_cong split: option.split)
  qed (simp add: cond_holds_def)
  then show ?case using Cons.IH by simp
qed simp

lemma f64_order:
  "\<not> f64_nan x \<Longrightarrow> \<not> f64_nan y \<Longrightarrow> f64_less x y \<longleftrightarrow> \<not> f64_leq y x"
  by (auto simp: f64_less_def f64_leq_def)

text \<open>The configuration after any ticks is the first one or what some version of the file decoded to.\<close>

lemma watch_fold:
  assumes "fold (watch_tick yaml) ticks (e, m) = (e', m')"
  shows "o_configPath e' = o_configPath e \<and> o_stopped e' = o_stopped e \<and> m \<le> m'
    \<and> (o_config e' = o_config e \<or> (\<exists>(fs, st) \<in> set ticks. loadConfig yaml fs (o_configPath e) = Ok (o_config e')))"
  using assms
proof (induction ticks arbitrary: e m)
  case (Cons t ticks)
  obtain fs st where t: "t = (fs, st)" by force
  obtain e1 m1 where s: "watch_tick yaml t (e, m) = (e1, m1)" by force
  have 1: "o_configPath e1 = o_configPath e \<and> o_stopped e1 = o_stopped e \<and> m \<le> m1
      \<and> (o_config e1 = o_config e \<or> loadConfig yaml fs (o_configPath e) = Ok (o_config e1))"
    using s by (auto simp: t watch_tick_def Reload_def split: option.splits outcome.splits if_splits)
  have "fold (watch_tick yaml) ticks (e1, m1) = (e', m')" using Cons.prems s by simp
  from Cons.IH [OF this] 1 show ?case by (fastforce simp: t)
qed simp

lemma watch_fold_bound:
  assumes "fold (watch_tick yaml) ticks (e, m) = (e', m')" and "m < b" and "\<forall>(fs, st) \<in> set ticks. \<forall>t. st = Some t \<longrightarrow> t < b"
  shows "m' < b"
  using assms
proof (induction ticks arbitrary: e m)
  case (Cons t ticks)
  obtain fs st where t: "t = (fs, st)" by force
  obtain e1 m1 where s: "watch_tick yaml t (e, m) = (e1, m1)" by force
  have "m1 < b"
    using s Cons.prems(2,3) by (auto simp: t watch_tick_def split: option.splits outcome.splits prod.splits if_splits)
  then show ?case using Cons.IH [of e1 m1] Cons.prems s by simp
qed simp

lemma watch_fold_idle:
  assumes "\<forall>(fs, st) \<in> set ticks. \<forall>t. st = Some t \<longrightarrow> t \<le> m"
  shows "fold (watch_tick yaml) ticks (e, m) = (e, m)"
  using assms by (induction ticks) (auto simp: watch_tick_def split: option.splits)

end
