(* ===== verification/Cli_Trace.thy ===== *)
theory Cli_Trace
  imports Cli_Console Observer
begin

text \<open>
  \<^verbatim>\<open>src/cmd/logyctl/commands/trace.go\<close>: the timeline of a task. \<open>buildTree\<close> sorts the events under their
  parents, \<open>printTraceTree\<close> walks the forest with an explicit stack, \<open>generateHTMLReport\<close> writes the
  report file. The top of the stack is the head of the list. The lemmas relate the loop over the stack
  to the recursive reading of the forest, the predicate \<open>shown\<close>.
\<close>

section \<open>buildTree\<close>

definition maxTreeEvents :: nat where
  "maxTreeEvents = 100000"

fun tree_loop :: "event list \<Rightarrow> event list \<times> event list gomap \<Rightarrow> event list \<times> event list gomap" where
  "tree_loop [] acc = acc"
| "tree_loop (e # es) (roots, childrenMap) =
     tree_loop es
       (if ParentID e = '''' then (roots @ [e], childrenMap)
        else (roots, gm_update (ParentID e)
          ((case gm_lookup childrenMap (ParentID e) of None \<Rightarrow> [] | Some cs \<Rightarrow> cs) @ [e]) childrenMap))"

definition buildTree :: "bool \<Rightarrow> event list \<Rightarrow> (event list \<times> event list gomap) outcome" where
  "buildTree strict events =
     (case Check strict (length events \<le> maxTreeEvents) (''events exceed max: '' @ show_nat (length events)) of
        Panic x \<Rightarrow> Panic x
      | Err x \<Rightarrow> Ok ([], [])
      | Ok _ \<Rightarrow> Ok (tree_loop (take maxTreeEvents events) ([], [])))"

section \<open>printTraceTree\<close>

record traceFrame =
  tf_node :: event
  tf_prefix :: string
  tf_isLast :: bool

definition maxTraceNodes :: nat where
  "maxTraceNodes = 100000"

definition maxChildren :: nat where
  "maxChildren = 10000"

text \<open>
  Nodes are pushed from the last to the first, and only the last one is marked; nothing is pushed on a
  full stack.
\<close>

fun push_frames :: "string \<Rightarrow> bool \<Rightarrow> event list \<Rightarrow> traceFrame list \<Rightarrow> traceFrame list" where
  "push_frames prefix isLast [] stack = stack"
| "push_frames prefix isLast (e # es) stack =
     (if maxTraceNodes \<le> length stack then stack
      else push_frames prefix False es (\<lparr>tf_node = e, tf_prefix = prefix, tf_isLast = isLast\<rparr> # stack))"

definition status_sym :: "event \<Rightarrow> string" where
  "status_sym e =
     (if RiskLevel e = ''critical'' then ''[!!]''
      else if WasBlocked e then ''[X]''
      else if EventType e = ''tool_response'' then ''[x]'' else ''[ ]'')"

definition trace_line :: "gotime \<Rightarrow> traceFrame \<Rightarrow> string outcome" where
  "trace_line startTime frame =
     (let e = tf_node frame in
      bind_outcome (go_prefix 6 (ID e)) (\<lambda>shortID.
      Ok (tf_prefix frame @ (if tf_isLast frame then ''`-- '' else ''|-- '') @ status_sym e @ '' ''
          @ pad_right 15 (Method e) @ '' ['' @ shortID @ ''] (+''
          @ show_duration (Truncate (Sub (Timestamp e) startTime) 1000000) @ '')'' @ nl)))"

definition new_prefix :: "traceFrame \<Rightarrow> string" where
  "new_prefix frame = tf_prefix frame @ (if tf_isLast frame then ''    '' else ''|   '')"

definition children_of :: "event list gomap \<Rightarrow> event \<Rightarrow> event list" where
  "children_of childrenMap e = (case gm_lookup childrenMap (ID e) of None \<Rightarrow> [] | Some cs \<Rightarrow> cs)"

fun trace_loop ::
    "bool \<Rightarrow> event list gomap \<Rightarrow> gotime \<Rightarrow> nat \<Rightarrow> traceFrame list \<Rightarrow> console" where
  "trace_loop strict childrenMap startTime 0 stack = stop Return"
| "trace_loop strict childrenMap startTime (Suc n) [] = stop Return"
| "trace_loop strict childrenMap startTime (Suc n) (frame # stack) =
     (case trace_line startTime frame of
        Panic x \<Rightarrow> stop (Crash x)
      | Err x \<Rightarrow> stop Return
      | Ok line \<Rightarrow>
          (let children = children_of childrenMap (tf_node frame) in
           say line
             (case Check strict (length children \<le> maxChildren)
                (''children exceed max for node='' @ ID (tf_node frame) @ '': '' @ show_nat (length children)) of
                Panic x \<Rightarrow> stop (Crash x)
              | Err x \<Rightarrow> trace_loop strict childrenMap startTime n stack
              | Ok _ \<Rightarrow> trace_loop strict childrenMap startTime n
                  (push_frames (new_prefix frame) True (take maxChildren (rev children)) stack))))"

definition printTraceTree :: "bool \<Rightarrow> event list \<Rightarrow> event list gomap \<Rightarrow> gotime \<Rightarrow> console" where
  "printTraceTree strict roots childrenMap startTime =
     attempt (Check strict (length roots \<le> maxTraceNodes) (''roots exceed max: '' @ show_nat (length roots)))
       (\<lambda>_. stop Return)
       (\<lambda>_. trace_loop strict childrenMap startTime maxTraceNodes
          (push_frames '''' True (take maxTraceNodes (rev roots)) []))"

text \<open>Two steps of a command: the second runs when the first returns.\<close>

definition and_then :: "console \<Rightarrow> console \<Rightarrow> console" where
  "and_then a b = (if snd a = Return then say (fst a) b else a)"

section \<open>generateHTMLReport\<close>

text \<open>The text of the report up to its variable parts; the pieces are the literals of the format strings.\<close>

definition html_head :: "string list" where
  \<open>html_head =
    [''<!DOCTYPE html>'', ''<html>'', ''<head>'', ''    <title>'']\<close>

definition html_style :: "string list" where
  \<open>html_style =
    [''    <style>'',
     ''        body { font-family: -apple-system, BlinkMacSystemFont, "Segoe UI", Roboto, sans-serif; line-height: 1.6; color: #333; max-width: 1000px; margin: 0 auto; padding: 20px; background: #f9f9f9; }'',
     ''        .header { background: #1a1a1a; color: white; padding: 20px; border-radius: 8px; margin-bottom: 30px; }'',
     ''        .event { background: white; border: 1px solid #ddd; padding: 15px; border-radius: 6px; margin-bottom: 10px; border-left: 5px solid #eee; }'',
     ''        .event-call { border-left-color: #007bff; }'',
     ''        .event-response { border-left-color: #28a745; }'',
     ''        .event-risk-high { border-left-color: #ffc107; background: #fffdf5; }'',
     ''        .event-risk-critical { border-left-color: #dc3545; background: #fff5f5; }'',
     ''        .meta { font-size: 0.85em; color: #666; margin-bottom: 5px; }'',
     ''        .payload { background: #f1f1f1; padding: 10px; border-radius: 4px; font-family: "SFMono-Regular", Consolas, "Liberation Mono", Menlo, monospace; font-size: 0.9em; white-space: pre-wrap; overflow-x: auto; margin-top: 10px; }'',
     ''        .id { color: #007bff; font-weight: bold; }'',
     ''        .risk-badge { display: inline-block; padding: 2px 8px; border-radius: 12px; font-size: 0.8em; font-weight: bold; text-transform: uppercase; }'',
     ''        .risk-low { background: #e2fcd4; color: #2e7d32; }'',
     ''        .risk-high { background: #fff3cd; color: #856404; }'',
     ''        .risk-critical { background: #f8d7da; color: #721c24; }'',
     ''    </style>'', ''</head>'', ''<body>'', ''    <div class="header">'',
     ''        <h1>Forensic Evidence Report</h1>'']\<close>

definition joined :: "string list \<Rightarrow> string" where
  "joined ls = concat (map (\<lambda>l. l @ nl) ls)"

text \<open>Lines that end in a newline, but for the last.\<close>

definition html_prologue :: "string \<Rightarrow> string \<Rightarrow> string \<Rightarrow> string" where
  \<open>html_prologue taskID runID generated =
     joined (butlast html_head) @ last html_head @ ''Logryph Forensic Report - Task '' @ taskID @ ''</title>'' @ nl
     @ joined html_style
     @ joined
        [''        <p><strong>Task ID:</strong> '' @ taskID @ ''</p>'',
         ''        <p><strong>Run ID:</strong> '' @ runID @ ''</p>'',
         ''        <p><strong>Generated:</strong> '' @ generated @ ''</p>'', ''    </div>'']\<close>

definition formatRiskBadge :: "string \<Rightarrow> string" where
  \<open>formatRiskBadge risk =
     (if risk = '''' \<or> risk = ''low'' then ''<span class="risk-badge risk-low">Low Risk</span>''
      else if risk = ''high'' then ''<span class="risk-badge risk-high">High Risk</span>''
      else ''<span class="risk-badge risk-critical">Critical Risk</span>'')\<close>

definition formatPayload :: "fmt_conv \<Rightarrow> goval gomap \<Rightarrow> string" where
  "formatPayload M p = fmt_v M (GMap p)"

definition risk_class :: "event \<Rightarrow> string" where
  "risk_class e =
     (if RiskLevel e = ''high'' then ''event-risk-high''
      else if RiskLevel e = ''critical'' then ''event-risk-critical''
      else if EventType e = ''tool_call'' then ''event-call'' else ''event-response'')"

definition html_event :: "event \<Rightarrow> string \<Rightarrow> string" where
  \<open>html_event e shortID =
     nl @ joined
       [''    <div class="event '' @ risk_class e @ ''">'',
        ''        <div class="meta">'',
        ''            <span class="id">['' @ shortID @ '']</span> '' @ format_millis (Timestamp e)
          @ '' &bull; <strong>'' @ Actor e @ ''</strong> &bull; '' @ EventType e,
        ''            '' @ formatRiskBadge (RiskLevel e),
        ''        </div>'',
        ''        <div><strong>Method:</strong> '' @ Method e @ ''</div>'']\<close>

definition put_payload ::
    "(nat \<Rightarrow> error option) \<Rightarrow> fmt_conv \<Rightarrow> string \<Rightarrow> goval gomap option \<Rightarrow> out_file \<Rightarrow> out_file \<times> unit outcome" where
  \<open>put_payload werr M label p f =
     (case p of
        None \<Rightarrow> (f, Ok ())
      | Some m \<Rightarrow>
          if m = [] then (f, Ok ())
          else fput werr f (''        <div class="payload"><strong>'' @ label @ '':</strong> ''
                 @ formatPayload M m @ ''</div>''))\<close>

definition put_event ::
    "(nat \<Rightarrow> error option) \<Rightarrow> fmt_conv \<Rightarrow> event \<Rightarrow> out_file \<Rightarrow> out_file \<times> unit outcome" where
  "put_event werr M e f =
     (case go_prefix 8 (ID e) of
        Panic x \<Rightarrow> (f, Panic x)
      | Err x \<Rightarrow> (f, Err x)
      | Ok shortID \<Rightarrow>
          fthen (fput werr f (html_event e shortID)) (\<lambda>f.
          fthen (put_payload werr M ''Params'' (Params e) f) (\<lambda>f.
          fthen (put_payload werr M ''Response'' (Response e) f) (\<lambda>f.
          fput werr f ''    </div>''))))"

fun put_events ::
    "(nat \<Rightarrow> error option) \<Rightarrow> fmt_conv \<Rightarrow> event list \<Rightarrow> out_file \<Rightarrow> out_file \<times> unit outcome" where
  "put_events werr M [] f = (f, Ok ())"
| "put_events werr M (e # es) f = fthen (put_event werr M e f) (put_events werr M es)"

definition maxReportEvents :: nat where
  "maxReportEvents = 100000"

definition report_text ::
    "bool \<Rightarrow> (nat \<Rightarrow> error option) \<Rightarrow> fmt_conv \<Rightarrow> string \<Rightarrow> string \<Rightarrow> event list \<Rightarrow> out_file \<times> unit outcome" where
  "report_text strict werr M generated taskID events =
     (case go_index events 0 of
        Panic x \<Rightarrow> ((0, ''''), Panic x)
      | Err x \<Rightarrow> ((0, ''''), Err x)
      | Ok first \<Rightarrow>
          fthen (fput werr (0, '''') (html_prologue taskID (RunID first) generated)) (\<lambda>f.
          fthen (f, Check strict (length events \<le> maxReportEvents)
            (''report events exceed max: '' @ show_nat (length events))) (\<lambda>f.
          fthen (put_events werr M (take maxReportEvents events) f) (\<lambda>f.
          fput werr f (nl @ joined [''</body>'', ''</html>''])))))"

text \<open>\<open>generated\<close> is the present time in the layout of \<^verbatim>\<open>time.RFC1123\<close>.\<close>

definition generateHTMLReport ::
    "bool \<Rightarrow> (nat \<Rightarrow> error option) \<Rightarrow> fmt_conv \<Rightarrow> string \<Rightarrow> string \<Rightarrow> event list \<Rightarrow> string \<Rightarrow> filesys
       \<Rightarrow> filesys \<times> unit outcome" where
  "generateHTMLReport strict werr M generated taskID events outputPath fs =
     (case WriteFile fs outputPath '''' of
        (fs1, Ok _) \<Rightarrow>
          (case report_text strict werr M generated taskID events of
             ((n, content), r) \<Rightarrow> (fs1\<lparr>fs_files := (fs_files fs1)(outputPath \<mapsto> content)\<rparr>, r))
      | (fs1, Err e) \<Rightarrow> (fs1, Err e)
      | (fs1, Panic e) \<Rightarrow> (fs1, Panic e))"

section \<open>TraceCommand\<close>

definition maxTasks :: nat where
  "maxTasks = 10000"

definition list_tasks :: "bool \<Rightarrow> string list \<Rightarrow> console" where
  "list_tasks strict tasks =
     (if tasks = [] then println ''No recorded tasks found in ledger.'' (stop Return)
      else attempt (Check strict (length tasks \<le> maxTasks) (''tasks exceed max: '' @ show_nat (length tasks)))
        (fatal ''Tasks exceed max'') (\<lambda>_.
        println ''Available Tasks for Forensic Trace:'' (
        println (replicate 30 CHR ''-'') (
        say (concat (map (\<lambda>t. [CHR 0xE2, CHR 0x80, CHR 0xA2, CHR '' ''] @ t @ nl)
              (filter (\<lambda>t. t \<noteq> '''') (take maxTasks tasks)))) (
        println (nl @ ''Usage: logyctl trace <task-id>'') (stop Return))))))"

definition maxRoots :: nat where
  "maxRoots = 10000"

definition show_trace :: "bool \<Rightarrow> string \<Rightarrow> event list \<Rightarrow> console" where
  "show_trace strict taskID events =
     println (''Forensic Timeline Trace: '' @ taskID) (
     or_crash (go_prefix 8 (RunID (hd events))) (\<lambda>shortRun.
     println (''Run ID: '' @ shortRun) (
     println (''Start:  '' @ format_rfc3339 (Timestamp (hd events))) (
     println (replicate 60 CHR ''='') (
     or_crash (buildTree strict events) (\<lambda>(roots, childrenMap).
     attempt (Check strict (length roots \<le> maxRoots) (''root nodes exceed max: '' @ show_nat (length roots)))
       (fatal ''Root nodes exceed max'') (\<lambda>_.
     and_then (printTraceTree strict roots childrenMap (Timestamp (hd events))) (
     println (replicate 60 CHR ''-'') (
     println (''Summary: '' @ show_nat (length events) @ '' events | Total Duration: ''
       @ show_duration (Truncate (Sub (Timestamp (last events)) (Timestamp (hd events))) 1000000))
     (stop Return))))))))))"

text \<open>\<open>args\<close> is \<^verbatim>\<open>os.Args\<close>.\<close>

definition TraceCommand ::
    "bool \<Rightarrow> (nat \<Rightarrow> error option) \<Rightarrow> fmt_conv \<Rightarrow> string \<Rightarrow> disk \<Rightarrow> string list \<Rightarrow> filesys \<Rightarrow> filesys \<times> console" where
  "TraceCommand strict werr M generated dk args fs =
     (case OpenDB dk of
        Panic x \<Rightarrow> (fs, stop (Crash x))
      | Err e \<Rightarrow> (fs, fatal ''Failed to open database'' e)
      | Ok d \<Rightarrow>
          if length args < 3 then
            (fs, attempt (GetUniqueTasks strict d) (fatal ''Failed to get tasks'') (list_tasks strict))
          else
            (let taskID = args ! 2;
                 htmlOutput = (if 5 \<le> length args \<and> args ! 3 = ''--html'' then args ! 4 else '''') in
             case GetEventsByTaskID strict d taskID of
               Panic x \<Rightarrow> (fs, stop (Crash x))
             | Err e \<Rightarrow> (fs, fatal ''Failed to get events'' e)
             | Ok events \<Rightarrow>
                 if events = [] then
                   (fs, println (''No events found for task '' @ taskID) (stop Return))
                 else if htmlOutput \<noteq> '''' then
                   (case generateHTMLReport strict werr M generated taskID events htmlOutput fs of
                      (fs1, r) \<Rightarrow> (fs1, attempt r (fatal ''Failed to generate HTML report'') (\<lambda>_.
                        println (''[OK] Forensic HTML report generated: '' @ htmlOutput) (stop Return))))
                 else (fs, show_trace strict taskID events)))"

section \<open>Lemmas: the forest\<close>

definition kids :: "event list \<Rightarrow> event \<Rightarrow> event list" where
  "kids es e = filter (\<lambda>c. ParentID c = ID e \<and> ParentID c \<noteq> '''') es"

abbreviation tree_roots :: "event list \<Rightarrow> event list" where
  "tree_roots es \<equiv> filter (\<lambda>e. ParentID e = '''') es"

lemma tree_loop_roots: "fst (tree_loop es (r, cm)) = r @ tree_roots es"
  by (induction es arbitrary: r cm) auto

lemma tree_loop_children:
  assumes "k \<noteq> ''''"
  shows "(case gm_lookup (snd (tree_loop es (r, cm))) k of None \<Rightarrow> [] | Some cs \<Rightarrow> cs) =
    (case gm_lookup cm k of None \<Rightarrow> [] | Some cs \<Rightarrow> cs) @ filter (\<lambda>c. ParentID c = k \<and> ParentID c \<noteq> '''') es"
  using assms by (induction es arbitrary: r cm) auto

lemma children_of_tree: "ID e \<noteq> '''' \<Longrightarrow> children_of (snd (tree_loop es ([], []))) e = kids es e"
  using tree_loop_children [of "ID e" es "[]" "[]"] by (simp add: children_of_def kids_def)

text \<open>The frames of a list of siblings, and the recursive reading of the forest below a frame.\<close>

definition child_frames :: "string \<Rightarrow> event list \<Rightarrow> traceFrame list" where
  "child_frames prefix cs =
     (if cs = [] then []
      else map (\<lambda>e. \<lparr>tf_node = e, tf_prefix = prefix, tf_isLast = False\<rparr>) (butlast cs)
           @ [\<lparr>tf_node = last cs, tf_prefix = prefix, tf_isLast = True\<rparr>])"

inductive shown :: "event list \<Rightarrow> traceFrame \<Rightarrow> traceFrame list \<Rightarrow> bool" for es where
  shown_node: "list_all2 (shown es) (child_frames (new_prefix f) (kids es (tf_node f))) xss
    \<Longrightarrow> shown es f (f # concat xss)"

inductive_cases shown_E: "shown es f xs"

lemma nodes_child_frames [simp]: "map tf_node (child_frames prefix cs) = cs"
  by (simp add: child_frames_def comp_def)

lemma image_child_frames [simp]: "tf_node ` set (child_frames prefix cs) = set cs"
  by (simp only: set_map [symmetric] nodes_child_frames)

lemma length_child_frames [simp]: "length (child_frames prefix cs) = length cs"
  by (simp add: child_frames_def)

lemma push_frames_plain:
  "length es + length st \<le> maxTraceNodes \<Longrightarrow>
     push_frames p False es st = map (\<lambda>e. \<lparr>tf_node = e, tf_prefix = p, tf_isLast = False\<rparr>) (rev es) @ st"
  by (induction es arbitrary: st) auto

lemma push_frames_siblings:
  assumes "length cs + length st \<le> maxTraceNodes"
  shows "push_frames p True (rev cs) st = child_frames p cs @ st"
proof (cases cs rule: rev_cases)
  case Nil
  then show ?thesis by (simp add: child_frames_def)
next
  case (snoc ds c)
  then show ?thesis
    using assms push_frames_plain [of "rev ds" "\<lparr>tf_node = c, tf_prefix = p, tf_isLast = True\<rparr> # st" p]
    by (simp add: child_frames_def)
qed

lemma shown_nonempty: "list_all2 (shown es) fs xss \<Longrightarrow> length fs \<le> length (concat xss)"
  by (induction fs xss rule: list_all2_induct) (auto elim: shown_E)

text \<open>The loop over the stack prints the frames in the order of the recursive reading.\<close>

definition trace_text :: "gotime \<Rightarrow> traceFrame \<Rightarrow> string" where
  "trace_text start f = (case trace_line start f of Ok l \<Rightarrow> l | _ \<Rightarrow> '''')"

lemma trace_line_Ok: "6 \<le> length (ID (tf_node f)) \<Longrightarrow> trace_line start f = Ok (trace_text start f)"
  by (simp add: trace_text_def trace_line_def go_prefix_def Let_def)

lemma kids_subset: "set (kids es e) \<subseteq> set es"
  by (auto simp: kids_def)

lemma length_kids: "length (kids es e) \<le> length es"
  by (simp add: kids_def)

lemma trace_loop_shown:
  assumes ids: "\<forall>e \<in> set es. 6 \<le> length (ID e)" and len: "length es \<le> maxChildren"
    and cm: "\<forall>e \<in> set es. children_of cm e = kids es e"
  shows "list_all2 (shown es) st xss \<Longrightarrow> tf_node ` set st \<subseteq> set es \<Longrightarrow> length (concat xss) \<le> n
    \<Longrightarrow> length (concat xss) \<le> maxTraceNodes
    \<Longrightarrow> trace_loop strict cm start n st = (concat (map (trace_text start) (concat xss)), Return)"
proof (induction n arbitrary: st xss)
  case 0
  then have "concat xss = []" by simp
  then show ?case by (simp del: concat_eq_Nil_conv)
next
  case (Suc n)
  show ?case
  proof (cases st)
    case Nil
    then show ?thesis using Suc.prems(1) by simp
  next
    case (Cons f st')
    then obtain xs xss' where x: "xss = xs # xss'" "shown es f xs" "list_all2 (shown es) st' xss'"
      using Suc.prems(1) by (auto simp: list_all2_Cons1)
    from x(2) obtain yss where y: "xs = f # concat yss"
      "list_all2 (shown es) (child_frames (new_prefix f) (kids es (tf_node f))) yss"
      by (auto elim: shown_E)
    let ?cs = "child_frames (new_prefix f) (kids es (tf_node f))"
    have f: "tf_node f \<in> set es" using Suc.prems(2) Cons by simp
    have all: "list_all2 (shown es) (?cs @ st') (yss @ xss')"
      using y(2) x(3) by (rule list_all2_appendI)
    have room: "length (kids es (tf_node f)) + length st' \<le> maxTraceNodes"
      using shown_nonempty [OF all] Suc.prems(4) x(1) y(1) by simp
    have "tf_node ` set (?cs @ st') \<subseteq> set es"
      using Suc.prems(2) Cons kids_subset [of es "tf_node f"]
      by (simp add: image_Un)
    then have "trace_loop strict cm start n (?cs @ st') = (concat (map (trace_text start) (concat (yss @ xss'))), Return)"
      using Suc.prems(3,4) x(1) y(1) by (intro Suc.IH [OF all]) auto
    moreover have "length (kids es (tf_node f)) \<le> maxChildren" using length_kids len by (rule order_trans)
    ultimately show ?thesis
      using f ids cm Cons x(1) y(1) push_frames_siblings [OF room, of "new_prefix f"]
      by (simp add: trace_line_Ok say_def)
  qed
qed

section \<open>Lemmas: every event is shown once\<close>

text \<open>
  Events in the order they were recorded: identifiers are unique and a parent comes before its children.
\<close>

definition parents_first :: "event list \<Rightarrow> bool" where
  "parents_first es \<longleftrightarrow> distinct (map ID es)
     \<and> (\<forall>i < length es. ParentID (es ! i) = '''' \<or> (\<exists>j < i. ID (es ! j) = ParentID (es ! i)))"

lemma parents_first_Nil: "parents_first []"
  by (simp add: parents_first_def)

lemma parents_first_snoc:
  assumes "parents_first es" and "ID e \<notin> ID ` set es" and "ParentID e = '''' \<or> ParentID e \<in> ID ` set es"
  shows "parents_first (es @ [e])"
  unfolding parents_first_def
proof (intro conjI allI impI)
  show "distinct (map ID (es @ [e]))" using assms(1,2) by (simp add: parents_first_def)
  fix i assume i: "i < length (es @ [e])"
  show "ParentID ((es @ [e]) ! i) = '''' \<or> (\<exists>j<i. ID ((es @ [e]) ! j) = ParentID ((es @ [e]) ! i))"
  proof (cases "i < length es")
    case True
    then have "ParentID (es ! i) = '''' \<or> (\<exists>j<i. ID (es ! j) = ParentID (es ! i))"
      using assms(1) unfolding parents_first_def by blast
    moreover have "(es @ [e]) ! j = es ! j" if "j \<le> i" for j using True that by (simp add: nth_append)
    ultimately show ?thesis by (metis less_imp_le order_refl)
  next
    case False
    then have "i = length es" using i by simp
    moreover have "ParentID e = '''' \<or> (\<exists>j<length es. ID (es ! j) = ParentID e)"
      using assms(3) by (metis imageE in_set_conv_nth)
    ultimately show ?thesis by (metis nth_append nth_append_length)
  qed
qed

lemma parent_index:
  assumes "parents_first es" and "i < length es" and "c \<in> set (kids es (es ! i))"
  shows "\<exists>k. i < k \<and> k < length es \<and> c = es ! k"
proof -
  obtain k where k: "k < length es" "c = es ! k" "ParentID c = ID (es ! i)" "ParentID c \<noteq> ''''"
    using assms(3) by (auto simp: kids_def in_set_conv_nth)
  then obtain j where j: "j < k" "ID (es ! j) = ID (es ! i)"
    using assms(1) by (auto simp: parents_first_def)
  then have "map ID es ! j = map ID es ! i" using k(1) assms(2) by simp
  then have "j = i"
    using assms(1,2) j(1) k(1) nth_eq_iff_index_eq [of "map ID es" j i] by (simp add: parents_first_def)
  then show ?thesis using j(1) k by auto
qed

lemma list_all2_choice: "\<forall>x \<in> set xs. \<exists>y. P x y \<Longrightarrow> \<exists>ys. list_all2 P xs ys"
  by (induction xs) (auto simp: list_all2_Cons1)

lemma shown_exists:
  assumes "parents_first es"
  shows "i < length es \<Longrightarrow> tf_node f = es ! i \<Longrightarrow> \<exists>xs. shown es f xs"
proof (induction "length es - i" arbitrary: i f rule: less_induct)
  case less
  let ?cs = "child_frames (new_prefix f) (kids es (tf_node f))"
  have "\<exists>xs. shown es g xs" if g: "g \<in> set ?cs" for g
  proof -
    have "tf_node g \<in> tf_node ` set ?cs" using g by blast
    then have "tf_node g \<in> set (kids es (es ! i))" using less.prems by simp
    then obtain k where "i < k" "k < length es" "tf_node g = es ! k"
      using parent_index [OF assms less.prems(1)] by blast
    then show ?thesis using less.hyps [of k g] by simp
  qed
  then obtain xss where "list_all2 (shown es) ?cs xss"
    using list_all2_choice [of ?cs "shown es"] by blast
  then show ?case by (blast intro: shown_node)
qed

abbreviation nodes :: "traceFrame list \<Rightarrow> event multiset" where
  "nodes fs \<equiv> mset (map tf_node fs)"

lemma shown_list_nodes:
  assumes "list_all2 (\<lambda>f xs. nodes xs = {#tf_node f#} + (\<Sum>y \<in># nodes xs. mset (kids es y))) fs xss"
  shows "nodes (concat xss) = nodes fs + (\<Sum>y \<in># nodes (concat xss). mset (kids es y))"
  using assms
proof (induction fs xss rule: list_all2_induct)
  case (Cons f fs xs xss)
  define S where "S M = (\<Sum>y \<in># M. mset (kids es y))" for M
  define A where "A = nodes xs"
  define B where "B = nodes (concat xss)"
  have "A + B = ({#tf_node f#} + S A) + (nodes fs + S B)"
    unfolding A_def B_def S_def by (rule arg_cong2 [where f = "(+)", OF Cons.hyps(1) Cons.IH])
  moreover have "S (A + B) = S A + S B" by (simp add: S_def)
  ultimately have "A + B = nodes (f # fs) + S (A + B)" by (simp add: ac_simps)
  moreover have "nodes (concat (xs # xss)) = A + B" by (simp add: A_def B_def)
  ultimately show ?case by (simp only: S_def)
qed simp

lemma shown_nodes:
  "shown es f xs \<Longrightarrow> nodes xs = {#tf_node f#} + (\<Sum>y \<in># nodes xs. mset (kids es y))"
proof (induction rule: shown.induct)
  case (shown_node f xss)
  then have "list_all2 (\<lambda>f xs. nodes xs = {#tf_node f#} + (\<Sum>y \<in># nodes xs. mset (kids es y)))
      (child_frames (new_prefix f) (kids es (tf_node f))) xss"
    by (auto elim: list_all2_mono)
  from shown_list_nodes [OF this] show ?case by simp
qed

lemma shown_list_subset:
  assumes "list_all2 (\<lambda>g ys. tf_node g \<in> set es \<longrightarrow> tf_node ` set ys \<subseteq> set es) gs yss"
    and "tf_node ` set gs \<subseteq> set es"
  shows "tf_node ` set (concat yss) \<subseteq> set es"
  using assms by (induction gs yss rule: list_all2_induct) (simp_all add: image_Un)

lemma shown_subset: "shown es f xs \<Longrightarrow> tf_node f \<in> set es \<Longrightarrow> tf_node ` set xs \<subseteq> set es"
proof (induction rule: shown.induct)
  case (shown_node f xss)
  then have "list_all2 (\<lambda>g ys. tf_node g \<in> set es \<longrightarrow> tf_node ` set ys \<subseteq> set es)
      (child_frames (new_prefix f) (kids es (tf_node f))) xss"
    by (auto elim: list_all2_mono)
  from shown_list_subset [OF this] show ?case using shown_node.prems kids_subset [of es] by simp
qed

text \<open>A multiset of events that holds the roots, and the children of what it holds, once each.\<close>

lemma count_mset_filter_if:
  "distinct xs \<Longrightarrow> x \<in> set xs \<Longrightarrow> count (mset (filter P xs)) x = (if P x then 1 else 0)"
  by (induction xs) (auto simp: not_in_iff [symmetric])

lemma count_sum_over: "count (\<Sum>y \<in># M. f y) x = (\<Sum>y \<in># M. count (f y) x)"
  by (induction M) simp_all

lemma forest_count:
  assumes pf: "parents_first es" and sub: "set_mset M \<subseteq> set es"
    and M: "M = mset (tree_roots es) + (\<Sum>y \<in># M. mset (kids es y))"
  shows "i < length es \<Longrightarrow> count M (es ! i) = 1"
proof (induction i rule: less_induct)
  case (less i)
  let ?x = "es ! i"
  have dist: "distinct es" using pf by (auto simp: parents_first_def distinct_map)
  note cnt = count_mset_filter_if [OF dist nth_mem [OF less.prems]]
  have "count M ?x = count (mset (tree_roots es)) ?x + (\<Sum>y \<in># M. count (mset (kids es y)) ?x)"
    by (rule trans [OF arg_cong [where f = "\<lambda>m. count m ?x", OF M]]) (simp only: count_union count_sum_over)
  also have "\<dots> = (if ParentID ?x = '''' then 1 else 0)
      + (\<Sum>y \<in># M. if ParentID ?x = ID y \<and> ParentID ?x \<noteq> '''' then 1 else 0)"
    by (simp only: kids_def cnt)
  also have "\<dots> = 1"
  proof (cases "ParentID ?x = ''''")
    case False
    then obtain j where j: "j < i" "ID (es ! j) = ParentID ?x"
      using pf less.prems by (auto simp: parents_first_def)
    have uniq: "y = es ! j" if "y \<in># M" "ID y = ParentID ?x" for y
    proof -
      obtain k where k: "k < length es" "y = es ! k" using sub \<open>y \<in># M\<close> by (metis in_set_conv_nth subsetD)
      then have "map ID es ! k = map ID es ! j" using that(2) j less.prems by simp
      then show ?thesis
        using pf j(1) k less.prems nth_eq_iff_index_eq [of "map ID es" k j] by (simp add: parents_first_def)
    qed
    have "(\<Sum>y \<in># M. if ParentID ?x = ID y \<and> ParentID ?x \<noteq> '''' then 1 else 0) =
        (\<Sum>y \<in># M. if y = es ! j then 1 else (0::nat))"
    proof (rule arg_cong [where f = sum_mset], rule image_mset_cong)
      fix y assume "y \<in># M"
      then have "ParentID ?x = ID y \<longleftrightarrow> y = es ! j" using uniq j(2) by metis
      then show "(if ParentID ?x = ID y \<and> ParentID ?x \<noteq> '''' then 1 else 0) = (if y = es ! j then 1 else (0::nat))"
        using False by simp
    qed
    also have "\<dots> = count M (es ! j)" by (simp add: sum_mset_delta)
    finally show ?thesis using False less.IH [OF j(1)] j less.prems by simp
  qed simp
  finally show ?case .
qed

lemma forest_all:
  assumes "parents_first es" and "list_all2 (shown es) (child_frames '''' (tree_roots es)) xss"
  shows "nodes (concat xss) = mset es"
proof (rule multiset_eqI)
  fix x
  let ?M = "nodes (concat xss)"
  have "list_all2 (\<lambda>g ys. tf_node g \<in> set es \<longrightarrow> tf_node ` set ys \<subseteq> set es) (child_frames '''' (tree_roots es)) xss"
    using assms(2) by (auto elim!: list_all2_mono dest: shown_subset)
  from shown_list_subset [OF this] have sub: "set_mset ?M \<subseteq> set es" by simp
  have M: "?M = mset (tree_roots es) + (\<Sum>y \<in># ?M. mset (kids es y))"
    using shown_list_nodes [OF list_all2_mono [OF assms(2) shown_nodes]] by simp
  have dist: "distinct es" using assms(1) by (auto simp: parents_first_def distinct_map)
  show "count ?M x = count (mset es) x"
  proof (cases "x \<in> set es")
    case True
    then obtain i where "i < length es" "x = es ! i" by (auto simp: in_set_conv_nth)
    then show ?thesis
      using forest_count [OF assms(1) sub M] count_mset_filter_if [OF dist True, of "\<lambda>_. True"] by simp
  next
    case False
    then have "x \<notin># ?M" "x \<notin># mset es" using sub by auto
    then show ?thesis by (simp only: not_in_iff)
  qed
qed

end
