(* ===== verification/Json_Decoder.thy ===== *)
theory Json_Decoder
  imports Json_Values
begin

text \<open>
  What \<^verbatim>\<open>json.Unmarshal\<close> can return on any text at all: a value in normal form (finite numbers, valid
  UTF-8, maps in canonical order) nested no deeper than the decoder's limit.
\<close>

section \<open>Decoded strings are valid UTF-8\<close>

definition utf8_piece :: "string \<Rightarrow> bool" where
  "utf8_piece p \<longleftrightarrow> (\<forall>t. to_valid (p @ t) = p @ to_valid t)"

lemma piece_prefix: "utf8_len (c # s) \<noteq> 0 \<Longrightarrow> utf8_piece (take (utf8_len (c # s)) (c # s))"
  by (auto simp: utf8_piece_def intro: to_valid_prefix)

lemma piece_len:
  assumes "utf8_len p = length p" and "p \<noteq> []"
  shows "utf8_piece p"
proof -
  obtain c s where "p = c # s" using assms(2) by (cases p) auto
  then show ?thesis using piece_prefix [of c s] assms by simp
qed

lemma piece_ascii: "cv c < 128 \<Longrightarrow> utf8_piece [c]"
  by (rule piece_len) simp_all

lemma piece_repl: "utf8_piece repl_char"
  by (simp add: utf8_piece_def to_valid_repl)

lemma mod64_le: "(n :: nat) mod 64 \<le> 63"
  using mod_less_divisor [of 64 n] by linarith

lemma piece_encode: "utf8_piece (utf8_encode r)"
proof (cases "r < 128 \<or> (55296 \<le> r \<and> r \<le> 57343) \<or> 1114111 < r")
  case True
  then show ?thesis
    by (auto simp: utf8_encode_def piece_repl intro: piece_ascii)
next
  case False
  show ?thesis
  proof (rule piece_len)
    consider "r < 2048" | "2048 \<le> r" "r < 65536" | "65536 \<le> r" by linarith
    then show "utf8_len (utf8_encode r) = length (utf8_encode r)"
    proof cases
      case 1
      then have "194 \<le> 192 + r div 64" "192 + r div 64 \<le> 223" using False by auto
      then show ?thesis using False 1 by (simp add: utf8_encode_def is_cont_def)
    next
      case 2
      have "r div 4096 < 16" "r div 64 mod 64 < 64" "r mod 64 < 64" using 2 by auto
      moreover have "32 \<le> r div 64 mod 64" if "r div 4096 = 0"
      proof -
        have "r < 4096" using that by (simp add: div_eq_0_iff)
        then have "r div 64 < 64" by auto
        then show ?thesis using 2 by auto
      qed
      moreover have "r div 64 mod 64 \<le> 31" if "r div 4096 = 13"
      proof -
        have "r div 64 div 64 = 13" using that by (simp add: div_mult2_eq [symmetric])
        moreover have "r < 4096 + r div 4096 * 4096" by (rule dividend_less_div_times) simp
        then have "r div 64 < 864" using False that by (simp add: div_less_iff_less_mult)
        ultimately show ?thesis using div_mult_mod_eq [of "r div 64" 64] by linarith
      qed
      ultimately show ?thesis using False 2 by (auto simp: utf8_encode_def is_cont_def mod64_le)
    next
      case 3
      have "r div 262144 < 5" "r div 4096 mod 64 < 64" "r div 64 mod 64 < 64" "r mod 64 < 64"
        using False by auto
      moreover have "16 \<le> r div 4096 mod 64" if "r div 262144 = 0"
      proof -
        have "r div 4096 < 64" using that by (simp add: div_eq_0_iff)
        then show ?thesis using 3 by auto
      qed
      moreover have "r div 4096 mod 64 \<le> 15" if "r div 262144 = 4"
      proof -
        have "r div 4096 div 64 = 4" using that by (simp add: div_mult2_eq [symmetric])
        moreover have "r div 4096 < 272" using False by (simp add: div_less_iff_less_mult)
        ultimately show ?thesis using div_mult_mod_eq [of "r div 4096" 64] by linarith
      qed
      ultimately show ?thesis using False 3 by (auto simp: utf8_encode_def is_cont_def mod64_le)
    qed
    show "utf8_encode r \<noteq> []" by (simp add: utf8_encode_def repl_char_def)
  qed
qed

lemma simple_escape_ascii: "simple_escape e = Some ch \<Longrightarrow> cv ch < 128"
  by (auto simp: simple_escape_def cv_def split: if_splits)

lemma cons_fst_valid:
  assumes "cons_fst p x = Some (s, r)" and "utf8_piece p"
    and "\<And>s' r'. x = Some (s', r') \<Longrightarrow> to_valid s' = s'"
  shows "to_valid s = s"
  using assms by (auto simp: cons_fst_def utf8_piece_def)

lemma unquote_valid: "unquote s = Some (t, r) \<Longrightarrow> to_valid t = t"
proof (induction s arbitrary: t r rule: unquote.induct)
  case 1
  then show ?case by (simp add: unquote.simps)
next
  case (2 c s)
  note step = "2.prems" [unfolded unquote.simps(2) [of c s]]
  show ?case
  proof (cases "c = CHR 0x22")
    case True
    then show ?thesis using step by (auto simp: to_valid.simps)
  next
    case quote: False
    show ?thesis
    proof (cases "c = CHR 0x5C")
      case True
      then show ?thesis
        using step quote "2.IH"(1-4)
        by (auto split: list.splits if_splits option.splits
            elim!: cons_fst_valid intro: piece_encode piece_repl piece_ascii simple_escape_ascii)
    next
      case False
      then show ?thesis
        using step quote "2.IH"(5-7)
        by (auto simp: Let_def split: if_splits elim!: cons_fst_valid
            intro: piece_ascii piece_repl piece_prefix)
    qed
  qed
qed

section \<open>Scanned tokens are numbers\<close>

lemma digits1_token:
  assumes "digits1 s = Some (d, q)" and "r = [] \<or> \<not> is_digit (hd r)"
  shows "digits1 (d @ r) = Some (d, r) \<and> d \<noteq> [] \<and> is_digit (hd d)"
proof -
  have d: "d = takeWhile is_digit s" "d \<noteq> []"
    using assms(1) by (auto simp: digits1_def split: if_splits)
  have all: "\<forall>c \<in> set d. is_digit c" unfolding d(1) by (auto dest: set_takeWhileD)
  have "takeWhile is_digit (d @ r) = d" "dropWhile is_digit (d @ r) = r"
    using all assms(2) by (cases r; simp add: takeWhile_append dropWhile_append)+
  then show ?thesis
    using d(2) all by (simp add: digits1_def)
qed

lemma scan_int_token:
  assumes "scan_int s = Some (i, q)" and "r = [] \<or> \<not> is_digit (hd r)"
  shows "scan_int (i @ r) = Some (i, r) \<and> i \<noteq> [] \<and> is_digit (hd i)"
proof (cases "i = [CHR ''0'']")
  case True
  then show ?thesis by (simp add: scan_int_def is_digit_def)
next
  case False
  then have "digits1 s = Some (i, q)" "hd s \<noteq> CHR ''0''"
    using assms(1) by (auto simp: scan_int_def split: list.splits if_splits)
  moreover have "hd i = hd s" if "digits1 s = Some (i, q)"
    using that by (cases s) (auto simp: digits1_def split: if_splits)
  ultimately show ?thesis
    using digits1_token [of s i q r] assms(2) by (cases i) (auto simp: scan_int_def)
qed

lemma scan_frac_token:
  assumes "scan_frac s = Some (f, q)" and "r = [] \<or> hd r = CHR ''e'' \<or> hd r = CHR ''E''"
  shows "scan_frac (f @ r) = Some (f, r) \<and> (f = [] \<or> hd f = CHR ''.'')"
proof -
  have r: "r = [] \<or> \<not> is_digit (hd r)" using assms(2) by (auto simp: is_digit_def)
  show ?thesis
    using assms digits1_token [OF _ r]
    by (cases r) (auto simp: scan_frac_def split: list.splits if_splits)
qed

lemma scan_exp_token:
  assumes "scan_exp s = Some (e, q)"
  shows "scan_exp e = Some (e, []) \<and> (e = [] \<or> hd e = CHR ''e'' \<or> hd e = CHR ''E'')"
proof -
  have sign: "\<not> is_digit CHR ''+''" "\<not> is_digit CHR ''-''" by (simp_all add: is_digit_def)
  show ?thesis
    using assms digits1_token [of _ _ _ "[]"] sign
    by (auto simp: scan_exp_def split: list.splits if_splits)
      (metis list.sel(1))+
qed

lemma scan_number_token:
  assumes "scan_number s = Some (t, q)"
  shows "json_number t"
proof -
  obtain g s1 where s1: "scan_sign s = (g, s1)" by fastforce
  obtain i s2 f s3 e s4 where s2: "scan_int s1 = Some (i, s2)" and s3: "scan_frac s2 = Some (f, s3)"
    and s4: "scan_exp s3 = Some (e, s4)" and t: "t = g @ i @ f @ e"
    using assms s1 by (auto simp: scan_number_def split: bind_splits)
  have e: "scan_exp e = Some (e, [])" "e = [] \<or> hd e = CHR ''e'' \<or> hd e = CHR ''E''"
    using scan_exp_token [OF s4] by auto
  have f: "scan_frac (f @ e) = Some (f, e)" "f = [] \<or> hd f = CHR ''.''"
    using scan_frac_token [OF s3 e(2)] by auto
  have "f @ e = [] \<or> \<not> is_digit (hd (f @ e))"
    using e(2) f(2) by (cases f; cases e) (auto simp: is_digit_def)
  then have i: "scan_int (i @ f @ e) = Some (i, f @ e)" "i \<noteq> []" "is_digit (hd i)"
    using scan_int_token [OF s2] by auto
  have "\<not> is_digit CHR ''-''" by (simp add: is_digit_def)
  then have "scan_sign (g @ i @ f @ e) = (g, i @ f @ e)"
    using s1 i by (cases i) (auto simp: scan_sign_def split: list.splits if_splits)
  then show ?thesis
    using e f i by (simp add: json_number_def scan_number_def t)
qed

section \<open>Decoded values\<close>

lemma normal_members_update:
  "normal_members m \<Longrightarrow> to_valid k = k \<Longrightarrow> normal v \<Longrightarrow> normal_members (gm_update k v m)"
  using set_gm_update [of k v m] by (auto simp: normal_members_iff)

lemma members_depth_update:
  "members_depth m \<le> d \<Longrightarrow> gv_depth v \<le> d \<Longrightarrow> members_depth (gm_update k v m) \<le> d"
  using set_gm_update [of k v m] by (auto simp: members_depth_iff)

definition decoded :: "nat \<Rightarrow> goval \<Rightarrow> bool" where
  "decoded d v \<longleftrightarrow> normal v \<and> gv_depth v \<le> d"

definition decoded_map :: "nat \<Rightarrow> goval gomap \<Rightarrow> bool" where
  "decoded_map d m \<longleftrightarrow> gm_wf m \<and> normal_members m \<and> members_depth m \<le> d"

lemma decoded_map_update:
  "decoded_map d m \<Longrightarrow> to_valid k = k \<Longrightarrow> decoded d v \<Longrightarrow> decoded_map d (gm_update k v m)"
  by (simp add: decoded_map_def decoded_def normal_members_update members_depth_update)

lemma decoded_list: "\<forall>v \<in> set vs. decoded d v \<Longrightarrow> decoded (Suc d) (GList vs)"
  by (auto simp: decoded_def gv_depth_list)

lemma decoded_obj: "decoded_map d m \<Longrightarrow> decoded (Suc d) (GMap m)"
  by (auto simp: decoded_def decoded_map_def)

lemma decoded_leaf: "decoded d GNil" "decoded d (GBool b)" "to_valid s = s \<Longrightarrow> decoded d (GStr s)"
  "f64_finite x \<Longrightarrow> decoded d (GFloat x)"
  by (simp_all add: decoded_def)

lemma parse_value_step:
  assumes F: "float_conv_ok F"
    and elems: "\<And>d s vs q. parse_elems F n d s = Some (vs, q) \<Longrightarrow> \<forall>v \<in> set vs. decoded d v"
    and members: "\<And>d s m m' q. parse_members F n d s m = Some (m', q) \<Longrightarrow> decoded_map d m \<Longrightarrow> decoded_map d m'"
    and parse: "parse_value F (Suc n) d s = Some (v, q)"
  shows "decoded d v"
proof -
  obtain c r where c: "skip_ws s = c # r" using parse by (cases "skip_ws s") auto
  note step = parse [unfolded parse_value.simps c list.case]
  consider "c = CHR ''{''" | "c = CHR ''[''" | "c = CHR 0x22" | "c = CHR ''n''" | "c = CHR ''t''"
    | "c = CHR ''f''" | "c \<notin> {CHR ''{'', CHR ''['', CHR 0x22, CHR ''n'', CHR ''t'', CHR ''f''}"
    by blast
  then show ?thesis
  proof cases
    case 1
    have "decoded_map d []" for d by (simp add: decoded_map_def)
    then show ?thesis
      using step 1 decoded_obj members
      by (cases d) (auto split: list.splits if_splits)
  next
    case 2
    then show ?thesis
      using step decoded_list [of "[]"] decoded_list elems
      by (cases d) (auto split: list.splits if_splits)
  next
    case 7
    then obtain t x where "scan_number (c # r) = Some (t, q)" "parse_float F t = Some x" "v = GFloat x"
      using step by (auto split: bind_splits)
    then show ?thesis
      using F scan_number_token [of "c # r" t q] by (auto simp: float_conv_ok_def intro: decoded_leaf)
  qed (use step in \<open>auto intro: decoded_leaf dest: unquote_valid\<close>)
qed

lemma parse_normal:
  assumes F: "float_conv_ok F"
  shows "(\<forall>d s v q. parse_value F n d s = Some (v, q) \<longrightarrow> decoded d v)
    \<and> (\<forall>d s vs q. parse_elems F n d s = Some (vs, q) \<longrightarrow> (\<forall>v \<in> set vs. decoded d v))
    \<and> (\<forall>d s m m' q. parse_members F n d s m = Some (m', q) \<longrightarrow> decoded_map d m \<longrightarrow> decoded_map d m')"
proof (induction n)
  case (Suc n)
  have v: "decoded d v" if "parse_value F n d s = Some (v, q)" for d s v q
    using Suc.IH that by blast
  have es: "\<forall>v \<in> set vs. decoded d v" if "parse_elems F n d s = Some (vs, q)" for d s vs q
    using Suc.IH that by blast
  have ms: "decoded_map d m'" if "parse_members F n d s m = Some (m', q)" "decoded_map d m" for d s m m' q
    using Suc.IH that by blast
  have "decoded d v" if "parse_value F (Suc n) d s = Some (v, q)" for d s v q
    using parse_value_step [OF F es ms that] .
  moreover have "\<forall>v \<in> set vs. decoded d v" if "parse_elems F (Suc n) d s = Some (vs, q)" for d s vs q
    using that v es by (fastforce split: option.splits list.splits if_splits)
  moreover have "decoded_map d m'"
    if "parse_members F (Suc n) d s m = Some (m', q)" "decoded_map d m" for d s m m' q
    using that by (auto split: option.splits list.splits if_splits dest!: v unquote_valid ms)
      (simp_all add: decoded_map_update)
  ultimately show ?case by blast
qed simp

text \<open>Whatever the text, a decoded value is in normal form and within the nesting limit.\<close>

lemma Unmarshal_decoded:
  "float_conv_ok F \<Longrightarrow> Unmarshal F s = Ok v \<Longrightarrow> normal v \<and> gv_depth v \<le> max_nesting"
  using parse_normal [of F "Suc (length s)"]
  by (fastforce simp: Unmarshal_def decoded_def split: option.splits if_splits)

end
