(* ===== verification/Mcp_Message.thy ===== *)
theory Mcp_Message
  imports Json_Decoder Event_Model
begin

text \<open>
  The JSON-RPC messages of \<^verbatim>\<open>src/internal/mcp/types.go\<close> and how \<^verbatim>\<open>encoding/json\<close> decodes them: member
  names match struct fields up to case folding, a repeated member is decoded on top of the earlier one,
  unknown members are only scanned, and a value of the wrong kind makes the whole call fail.
\<close>

section \<open>Messages\<close>

record MCPRequest =
  rq_JSONRPC :: string
  rq_ID :: goval
  rq_Method :: string
  rq_Params :: "goval gomap option"

record MCPResponse =
  rs_JSONRPC :: string
  rs_ID :: goval
  rs_Result :: "goval gomap option"
  rs_Error :: "goval gomap option"

definition zero_request :: MCPRequest where
  "zero_request = \<lparr>rq_JSONRPC = '''', rq_ID = GNil, rq_Method = '''', rq_Params = None\<rparr>"

definition zero_response :: MCPResponse where
  "zero_response = \<lparr>rs_JSONRPC = '''', rs_ID = GNil, rs_Result = None, rs_Error = None\<rparr>"

section \<open>Decoding into a struct\<close>

text \<open>
  Case folding of member names: ASCII letters, and the two letters outside ASCII that fold to one (the
  long s and the Kelvin sign).
\<close>

definition lower_char :: "char \<Rightarrow> char" where
  "lower_char c = (if 65 \<le> cv c \<and> cv c \<le> 90 then char_of (cv c + 32) else c)"

function fold_name :: "string \<Rightarrow> string" where
  "fold_name [] = []"
| "fold_name (c # s) =
     (if cv c = 197 \<and> s \<noteq> [] \<and> cv (hd s) = 191 then CHR ''s'' # fold_name (tl s)
      else if cv c = 226 \<and> 2 \<le> length s \<and> cv (s ! 0) = 132 \<and> cv (s ! 1) = 170 then CHR ''k'' # fold_name (drop 2 s)
      else lower_char c # fold_name s)"
  by pat_completeness auto

termination
  by (relation "measure length") auto

text \<open>
  A number that does not fit a \<^verbatim>\<open>float64\<close> is an error only where a value is made of it, so scanning uses
  a conversion that accepts every number.
\<close>

definition lenient :: "('a) float_conv_scheme \<Rightarrow> ('a) float_conv_scheme" where
  "lenient F = F\<lparr>parse_float := \<lambda>_. Some 0\<rparr>"

text \<open>The members of the top-level object in order, repeated ones included; \<open>None\<close> for a value with such a number.\<close>

fun parse_fields ::
    "('a) float_conv_scheme \<Rightarrow> nat \<Rightarrow> nat \<Rightarrow> string \<Rightarrow> ((string \<times> goval option) list \<times> string) option" where
  "parse_fields F 0 d s = None"
| "parse_fields F (Suc n) d s =
     (case skip_ws s of
        [] \<Rightarrow> None
      | c # r \<Rightarrow>
          if c \<noteq> CHR 0x22 then None
          else case unquote r of
            None \<Rightarrow> None
          | Some (k, q) \<Rightarrow>
              (case skip_ws q of
                 [] \<Rightarrow> None
               | c' # r' \<Rightarrow>
                   if c' \<noteq> CHR '':'' then None
                   else case parse_value (lenient F) n d r' of
                     None \<Rightarrow> None
                   | Some (_, q') \<Rightarrow>
                       (let kv = (k, map_option fst (parse_value F n d r')) in
                        case skip_ws q' of
                          [] \<Rightarrow> None
                        | c'' # r'' \<Rightarrow>
                            if c'' = CHR '','' then map_option (\<lambda>(fs, t). (kv # fs, t)) (parse_fields F n d r'')
                            else if c'' = CHR ''}'' then Some ([kv], r'')
                            else None)))"

definition struct_members :: "('a) float_conv_scheme \<Rightarrow> string \<Rightarrow> (string \<times> goval option) list outcome" where
  "struct_members F s =
     (case Unmarshal (lenient F) s of
        Err e \<Rightarrow> Err e
      | Panic e \<Rightarrow> Panic e
      | Ok GNil \<Rightarrow> Ok []
      | Ok (GMap m) \<Rightarrow>
          if m = [] then Ok []
          else (case parse_fields F (length s) (max_nesting - 1) (tl (skip_ws s)) of
                  Some (fs, _) \<Rightarrow> Ok fs
                | None \<Rightarrow> Err (ErrorString ''invalid JSON''))
      | Ok _ \<Rightarrow> Err (ErrorString ''json: cannot unmarshal into Go value''))"

text \<open>Storing a decoded member into a field; the flag tells whether the kinds agree.\<close>

definition set_string :: "goval option \<Rightarrow> string \<Rightarrow> string \<times> bool" where
  "set_string v old = (case v of Some (GStr t) \<Rightarrow> (t, True) | Some GNil \<Rightarrow> (old, True) | _ \<Rightarrow> (old, False))"

definition set_iface :: "goval option \<Rightarrow> goval \<Rightarrow> goval \<times> bool" where
  "set_iface v old = (case v of Some x \<Rightarrow> (x, True) | None \<Rightarrow> (old, False))"

definition set_map :: "goval option \<Rightarrow> goval gomap option \<Rightarrow> goval gomap option \<times> bool" where
  "set_map v old =
     (case v of
        Some (GMap m) \<Rightarrow> (Some (gm_of_list m (case old of None \<Rightarrow> [] | Some o' \<Rightarrow> o')), True)
      | Some GNil \<Rightarrow> (None, True)
      | _ \<Rightarrow> (old, False))"

fun request_field :: "MCPRequest \<times> bool \<Rightarrow> string \<times> goval option \<Rightarrow> MCPRequest \<times> bool" where
  "request_field (r, ok) (k, v) =
     (if fold_name k = ''jsonrpc'' then
        (let (x, b) = set_string v (rq_JSONRPC r) in (r\<lparr>rq_JSONRPC := x\<rparr>, ok \<and> b))
      else if fold_name k = ''id'' then
        (let (x, b) = set_iface v (rq_ID r) in (r\<lparr>rq_ID := x\<rparr>, ok \<and> b))
      else if fold_name k = ''method'' then
        (let (x, b) = set_string v (rq_Method r) in (r\<lparr>rq_Method := x\<rparr>, ok \<and> b))
      else if fold_name k = ''params'' then
        (let (x, b) = set_map v (rq_Params r) in (r\<lparr>rq_Params := x\<rparr>, ok \<and> b))
      else (r, ok))"

fun response_field :: "MCPResponse \<times> bool \<Rightarrow> string \<times> goval option \<Rightarrow> MCPResponse \<times> bool" where
  "response_field (r, ok) (k, v) =
     (if fold_name k = ''jsonrpc'' then
        (let (x, b) = set_string v (rs_JSONRPC r) in (r\<lparr>rs_JSONRPC := x\<rparr>, ok \<and> b))
      else if fold_name k = ''id'' then
        (let (x, b) = set_iface v (rs_ID r) in (r\<lparr>rs_ID := x\<rparr>, ok \<and> b))
      else if fold_name k = ''result'' then
        (let (x, b) = set_map v (rs_Result r) in (r\<lparr>rs_Result := x\<rparr>, ok \<and> b))
      else if fold_name k = ''error'' then
        (let (x, b) = set_map v (rs_Error r) in (r\<lparr>rs_Error := x\<rparr>, ok \<and> b))
      else (r, ok))"

definition decode_struct :: "'r \<times> bool \<Rightarrow> 'r outcome" where
  "decode_struct x = (if snd x then Ok (fst x) else Err (ErrorString ''json: cannot unmarshal into Go struct field''))"

definition UnmarshalRequest :: "('a) float_conv_scheme \<Rightarrow> string \<Rightarrow> MCPRequest outcome" where
  "UnmarshalRequest F s =
     bind_outcome (struct_members F s) (\<lambda>fs. decode_struct (foldl request_field (zero_request, True) fs))"

definition UnmarshalResponse :: "('a) float_conv_scheme \<Rightarrow> string \<Rightarrow> MCPResponse outcome" where
  "UnmarshalResponse F s =
     bind_outcome (struct_members F s) (\<lambda>fs. decode_struct (foldl response_field (zero_response, True) fs))"

text \<open>\<^verbatim>\<open>json.Marshal\<close> of a request: the fields in declaration order.\<close>

definition request_members :: "MCPRequest \<Rightarrow> (string \<times> goval) list" where
  "request_members r =
     [(''jsonrpc'', GStr (rq_JSONRPC r)), (''id'', rq_ID r), (''method'', GStr (rq_Method r)),
      (''params'', map_value (rq_Params r))]"

definition MarshalRequest :: "('a) float_conv_scheme \<Rightarrow> MCPRequest \<Rightarrow> string outcome" where
  "MarshalRequest F r = Marshal F (GMap (request_members r))"

section \<open>Round trip\<close>

lemma lenient_value:
  assumes elems: "\<And>d s vs q. parse_elems F n d s = Some (vs, q) \<Longrightarrow> \<exists>vs'. parse_elems (lenient F) n d s = Some (vs', q)"
    and members: "\<And>d s m m1 q. parse_members F n d s m = Some (m1, q) \<Longrightarrow> \<exists>m1'. parse_members (lenient F) n d s [] = Some (m1', q)"
    and parse: "parse_value F (Suc n) d s = Some (v, q)"
  shows "\<exists>v'. parse_value (lenient F) (Suc n) d s = Some (v', q)"
proof -
  obtain c r where c: "skip_ws s = c # r" using parse by (cases "skip_ws s") auto
  note step = parse [unfolded parse_value.simps c list.case]
  consider "c = CHR ''{''" | "c = CHR ''[''"
    | "c \<in> {CHR 0x22, CHR ''n'', CHR ''t'', CHR ''f''}"
    | "c \<notin> {CHR ''{'', CHR ''['', CHR 0x22, CHR ''n'', CHR ''t'', CHR ''f''}"
    by blast
  then show ?thesis
  proof cases
    case 1
    then show ?thesis
      using step members [of "d - 1" r "[]"] by (cases d) (auto simp: c split: list.splits if_splits)
  next
    case 2
    then show ?thesis
      using step elems [of "d - 1" r] by (cases d) (auto simp: c split: list.splits if_splits)
  next
    case 3
    then show ?thesis using step by (auto simp: c)
  next
    case 4
    then obtain t where "scan_number (c # r) = Some (t, q)"
      using step by (auto split: bind_splits)
    then show ?thesis using 4 by (auto simp: c lenient_def)
  qed
qed

lemma lenient_scans:
  "(\<forall>d s v q. parse_value F n d s = Some (v, q) \<longrightarrow> (\<exists>v'. parse_value (lenient F) n d s = Some (v', q)))
   \<and> (\<forall>d s vs q. parse_elems F n d s = Some (vs, q) \<longrightarrow> (\<exists>vs'. parse_elems (lenient F) n d s = Some (vs', q)))
   \<and> (\<forall>d s m m1 q. parse_members F n d s m = Some (m1, q) \<longrightarrow> (\<forall>m'. \<exists>m1'. parse_members (lenient F) n d s m' = Some (m1', q)))"
proof (induction n)
  case (Suc n)
  have v: "\<exists>v'. parse_value (lenient F) n d s = Some (v', q)" if "parse_value F n d s = Some (v, q)" for d s v q
    using Suc.IH that by blast
  have es: "\<exists>vs'. parse_elems (lenient F) n d s = Some (vs', q)" if "parse_elems F n d s = Some (vs, q)" for d s vs q
    using Suc.IH that by blast
  have ms: "\<exists>m1'. parse_members (lenient F) n d s m' = Some (m1', q)"
    if "parse_members F n d s m = Some (m1, q)" for d s m m1 q m'
    using Suc.IH that by blast
  have "\<exists>v'. parse_value (lenient F) (Suc n) d s = Some (v', q)"
    if "parse_value F (Suc n) d s = Some (v, q)" for d s v q
    using lenient_value [OF es ms that] .
  moreover have "\<exists>vs'. parse_elems (lenient F) (Suc n) d s = Some (vs', q)"
    if "parse_elems F (Suc n) d s = Some (vs, q)" for d s vs q
    using that by (auto split: option.splits list.splits if_splits dest!: v es)
  moreover have "\<exists>m1'. parse_members (lenient F) (Suc n) d s m' = Some (m1', q)"
    if "parse_members F (Suc n) d s m = Some (m1, q)" for d s m m1 q m'
    using that by (auto split: option.splits list.splits if_splits dest!: v) (use ms in blast)+
  ultimately show ?case by blast
qed simp

lemma parse_fields_enc:
  assumes F: "float_conv_ok F" and "kvs \<noteq> []" and "marshalable_members kvs"
    and "members_depth kvs \<le> d" and "length (enc_members F kvs) + 1 < n"
  shows "parse_fields F n d (enc_members F kvs @ CHR ''}'' # rest)
    = Some (map (\<lambda>(k, v). (to_valid k, Some (norm F v))) kvs, rest)"
  using assms(2-)
proof (induction kvs arbitrary: n)
  case (Cons kv kvs)
  obtain k v where kv: "kv = (k, v)" by force
  obtain n' where n: "n = Suc n'" using Cons.prems(4) by (cases n) auto
  let ?r = "(if kvs = [] then [] else CHR '','' # enc_members F kvs) @ CHR ''}'' # rest"
  have 1: "parse_value F n' d (enc F v @ ?r) = Some (norm F v, ?r)"
    using Cons.prems n kv by (intro parse_value_enc [OF F]) (auto simp: enc_members_Cons split: if_splits)
  then obtain v' where 0: "parse_value (lenient F) n' d (enc F v @ ?r) = Some (v', ?r)"
    using lenient_scans [of F n'] by blast
  have 2: "parse_fields F n' d (enc_members F kvs @ CHR ''}'' # rest)
      = Some (map (\<lambda>(k, v). (to_valid k, Some (norm F v))) kvs, rest)" if "kvs \<noteq> []"
    using Cons.prems n kv that by (intro Cons.IH) (auto simp: enc_members_Cons split: if_splits)
  have 3: "unquote (enc_chars k @ CHR 0x22 # CHR '':'' # enc F v @ ?r)
      = Some (to_valid k, CHR '':'' # enc F v @ ?r)"
    by (rule unquote_enc_chars)
  show ?case
    using 0 1 2 3 by (simp add: n kv enc_members_Cons enc_string_def skip_ws_stop split del: if_split)
      (simp add: skip_ws_stop)
qed simp

lemma gm_update_nonempty: "gm_update k v m \<noteq> []"
  by (cases m) (auto split: prod.splits if_splits)

lemma parse_members_nonempty: "parse_members F n d s m = Some (m', q) \<Longrightarrow> m' \<noteq> []"
  by (induction n arbitrary: s m)
    (auto simp: gm_update_nonempty split: option.splits list.splits if_splits)

lemma struct_members_enc:
  assumes F: "float_conv_ok F" and "kvs \<noteq> []" and "marshalable (GMap kvs)" and "gv_depth (GMap kvs) \<le> max_nesting"
  shows "struct_members F (enc F (GMap kvs)) = Ok (map (\<lambda>(k, v). (to_valid k, Some (norm F v))) kvs)"
proof -
  let ?s = "enc F (GMap kvs)"
  obtain kv kvs' where kvs: "kvs = kv # kvs'" using assms(2) by (cases kvs) auto
  have s: "tl (skip_ws ?s) = enc_members F kvs @ CHR ''}'' # []" by (simp add: skip_ws_stop)
  have f: "parse_fields F (length ?s) (max_nesting - 1) (tl (skip_ws ?s))
      = Some (map (\<lambda>(k, v). (to_valid k, Some (norm F v))) kvs, [])"
    unfolding s using assms by (intro parse_fields_enc) (auto simp: max_nesting_def kvs)
  have "parse_value F (Suc (length ?s)) max_nesting (?s @ []) = Some (norm F (GMap kvs), [])"
    using assms by (intro parse_value_enc) auto
  then obtain v' where v': "parse_value (lenient F) (Suc (length ?s)) max_nesting ?s = Some (v', [])"
    using lenient_scans [of F "Suc (length ?s)"] by fastforce
  have head: "\<exists>q. enc_members F kvs = CHR 0x22 # q"
    by (cases kv) (simp add: kvs enc_members_Cons enc_string_def)
  then have "\<exists>m. v' = GMap m \<and> m \<noteq> []"
    using v' parse_members_nonempty [of "lenient F"]
    by (auto simp: skip_ws_stop max_nesting_def simp del: parse_members.simps split: if_splits)
  then show ?thesis
    using f v' by (auto simp: struct_members_def Unmarshal_def skip_ws_def)
qed

text \<open>Requests as a decoder leaves them, shallow enough to be encoded again.\<close>

definition request_ok :: "MCPRequest \<Rightarrow> bool" where
  "request_ok r \<longleftrightarrow> to_valid (rq_JSONRPC r) = rq_JSONRPC r \<and> to_valid (rq_Method r) = rq_Method r
     \<and> normal (rq_ID r) \<and> gv_depth (rq_ID r) < max_nesting
     \<and> normal (map_value (rq_Params r)) \<and> gv_depth (map_value (rq_Params r)) < max_nesting"

lemma gm_of_list_wf:
  "gm_wf (m @ kvs) \<Longrightarrow> gm_of_list kvs m = m @ kvs"
proof (induction kvs arbitrary: m)
  case (Cons kv kvs)
  obtain k v where kv: "kv = (k, v)" by force
  have "gm_wf (m @ [(k, v)])" "gm_wf ((m @ [(k, v)]) @ kvs)"
    using Cons.prems by (simp_all add: kv gm_wf_def sorted_wrt_append)
  then show ?case using Cons.IH [of "m @ [(k, v)]"] by (simp add: kv gm_update_end)
qed simp

lemma MarshalRequest_ok:
  assumes "request_ok r"
  shows "MarshalRequest F r = Ok (enc F (GMap (request_members r)))"
  using assms by (simp add: MarshalRequest_def Marshal_def request_members_def request_ok_def marshalable_normal)

lemma request_round_trip:
  assumes F: "float_conv_ok F" and r: "request_ok r"
  shows "UnmarshalRequest F (enc F (GMap (request_members r))) = Ok r"
proof -
  have m: "marshalable (GMap (request_members r))" "gv_depth (GMap (request_members r)) \<le> max_nesting"
    using r by (simp_all add: request_members_def request_ok_def marshalable_normal max_nesting_def)
  have ne: "request_members r \<noteq> []" by (simp add: request_members_def)
  have s: "struct_members F (enc F (GMap (request_members r))) =
      Ok [(''jsonrpc'', Some (GStr (rq_JSONRPC r))), (''id'', Some (rq_ID r)),
          (''method'', Some (GStr (rq_Method r))), (''params'', Some (map_value (rq_Params r)))]"
    unfolding struct_members_enc [OF F ne m]
    using r by (simp add: request_members_def request_ok_def norm_normal to_valid.simps utf8_len_ascii cv_def)
  show ?thesis
  proof (cases "rq_Params r")
    case None
    then show ?thesis
      by (simp add: UnmarshalRequest_def s fold_name.simps lower_char_def cv_def map_value_def set_string_def
          set_iface_def set_map_def decode_struct_def zero_request_def del: enc.simps)
  next
    case (Some p)
    have "gm_wf p" using r Some by (simp add: request_ok_def map_value_def)
    then show ?thesis
      using gm_of_list_wf [of "[]" p]
      by (simp add: UnmarshalRequest_def s fold_name.simps lower_char_def cv_def map_value_def set_string_def
          set_iface_def set_map_def decode_struct_def zero_request_def Some del: enc.simps)
  qed
qed

section \<open>What decoding yields\<close>

lemma parse_fields_decoded:
  assumes F: "float_conv_ok F"
  shows "parse_fields F n d s = Some (fs, q) \<Longrightarrow> (k, Some v) \<in> set fs \<Longrightarrow> decoded d v"
proof (induction n arbitrary: s fs)
  case (Suc n)
  have "decoded d x" if t: "Some x = map_option fst (parse_value F n d t)" for x t
  proof -
    obtain y where "parse_value F n d t = Some (x, y)" using t by (cases "parse_value F n d t") auto
    then show ?thesis using parse_normal [OF F, of n] by blast
  qed
  then show ?case
    using Suc.prems by (auto simp: Let_def split: option.splits list.splits if_splits) (use Suc.IH in blast)+
qed simp

lemma struct_members_decoded:
  assumes "float_conv_ok F" and "struct_members F s = Ok fs" and "(k, Some v) \<in> set fs"
  shows "decoded (max_nesting - 1) v"
  using assms parse_fields_decoded [OF assms(1)]
  by (auto simp: struct_members_def split: outcome.splits goval.splits if_splits option.splits)

lemma gm_of_list_decoded:
  "\<forall>(k, v) \<in> set kvs. to_valid k = k \<and> decoded d v \<Longrightarrow> decoded_map d m \<Longrightarrow> decoded_map d (gm_of_list kvs m)"
  by (induction kvs arbitrary: m) (auto simp: decoded_map_update)

text \<open>A map field after decoding: canonical, decoded values, and shallow enough for an event.\<close>

definition map_decoded :: "goval gomap option \<Rightarrow> bool" where
  "map_decoded m \<longleftrightarrow> (\<forall>kvs. m = Some kvs \<longrightarrow> decoded_map (max_nesting - 2) kvs)"

lemma map_decoded_ok:
  "map_decoded m \<Longrightarrow> normal (map_value m) \<and> gv_depth (map_value m) < max_nesting \<and> map_ok m
     \<and> (\<forall>kvs. m = Some kvs \<longrightarrow> gm_wf kvs)"
  using marshalable_normal [of "map_value m"]
  by (cases m) (auto simp: map_decoded_def map_value_def decoded_map_def max_nesting_def map_ok_def)

lemma set_map_decoded:
  assumes "\<And>x. v = Some x \<Longrightarrow> decoded (max_nesting - 1) x" and "map_decoded old"
  shows "map_decoded (fst (set_map v old))"
proof -
  have "decoded_map (max_nesting - 2) (gm_of_list m (case old of None \<Rightarrow> [] | Some o' \<Rightarrow> o'))"
    if "v = Some (GMap m)" for m
  proof (intro gm_of_list_decoded)
    have "normal_members m" "members_depth m \<le> max_nesting - 2"
      using assms(1) [OF that] by (simp_all add: decoded_def max_nesting_def)
    then show "\<forall>(k, v) \<in> set m. to_valid k = k \<and> decoded (max_nesting - 2) v"
      by (auto simp: normal_members_iff members_depth_iff decoded_def)
    show "decoded_map (max_nesting - 2) (case old of None \<Rightarrow> [] | Some o' \<Rightarrow> o')"
      using assms(2) by (cases old) (auto simp: map_decoded_def decoded_map_def)
  qed
  then show ?thesis
    using assms(2) by (auto simp: set_map_def map_decoded_def split: option.splits goval.splits)
qed

lemma set_string_decoded:
  assumes "\<And>x. v = Some x \<Longrightarrow> decoded d x" and "to_valid old = old"
  shows "to_valid (fst (set_string v old)) = fst (set_string v old)"
  using assms by (auto simp: set_string_def decoded_def split: option.splits goval.splits)

lemma request_fields_decoded:
  assumes "\<And>k x. (k, Some x) \<in> set fs \<Longrightarrow> decoded (max_nesting - 1) x"
    and "request_ok (fst r)" "map_decoded (rq_Params (fst r))"
  shows "request_ok (fst (foldl request_field r fs)) \<and> map_decoded (rq_Params (fst (foldl request_field r fs)))"
  using assms
proof (induction fs arbitrary: r)
  case (Cons f fs)
  obtain k v q ok where f: "f = (k, v)" and r: "r = (q, ok)" by (cases f; cases r) auto
  have v: "decoded (max_nesting - 1) x" if "v = Some x" for x using Cons.prems(1) [of k x] that f by simp
  have q: "request_ok q" "map_decoded (rq_Params q)" using Cons.prems(2,3) r by auto
  have i: "normal (fst (set_iface v (rq_ID q))) \<and> gv_depth (fst (set_iface v (rq_ID q))) < max_nesting"
    using v q(1) by (auto simp: set_iface_def request_ok_def decoded_def max_nesting_def split: option.splits)
  have m: "map_decoded (fst (set_map v (rq_Params q)))" by (rule set_map_decoded [OF v q(2)])
  note s = set_string_decoded [of v "max_nesting - 1" "rq_JSONRPC q", OF v]
    set_string_decoded [of v "max_nesting - 1" "rq_Method q", OF v]
  have "request_ok (fst (request_field r f)) \<and> map_decoded (rq_Params (fst (request_field r f)))"
    using q i m s map_decoded_ok [OF m]
    by (auto simp: f r Let_def request_ok_def split: prod.splits)
  then show ?case using Cons.IH [of "request_field r f"] Cons.prems(1) by auto
qed simp

lemma UnmarshalRequest_ok:
  assumes "float_conv_ok F" and "UnmarshalRequest F s = Ok r"
  shows "request_ok r \<and> map_decoded (rq_Params r)"
proof -
  obtain fs where fs: "struct_members F s = Ok fs" and r: "r = fst (foldl request_field (zero_request, True) fs)"
    using assms(2) by (auto simp: UnmarshalRequest_def decode_struct_def outcome_simps split: if_splits)
  have "request_ok zero_request" "map_decoded (rq_Params zero_request)"
    by (simp_all add: request_ok_def zero_request_def map_decoded_def map_value_def max_nesting_def to_valid.simps)
  then show ?thesis
    using request_fields_decoded [of fs "(zero_request, True)"] struct_members_decoded [OF assms(1) fs] r by auto
qed

lemma response_fields_decoded:
  assumes "\<And>k x. (k, Some x) \<in> set fs \<Longrightarrow> decoded (max_nesting - 1) x"
    and "map_decoded (rs_Result (fst r))"
  shows "map_decoded (rs_Result (fst (foldl response_field r fs)))"
  using assms
proof (induction fs arbitrary: r)
  case (Cons f fs)
  obtain k v q ok where f: "f = (k, v)" and r: "r = (q, ok)" by (cases f; cases r) auto
  have v: "decoded (max_nesting - 1) x" if "v = Some x" for x using Cons.prems(1) [of k x] that f by simp
  have "map_decoded (fst (set_map v (rs_Result q)))"
    using set_map_decoded [OF v] Cons.prems(2) r by simp
  then have "map_decoded (rs_Result (fst (response_field r f)))"
    using Cons.prems(2) by (auto simp: f r Let_def split: prod.splits)
  then show ?case using Cons.IH [of "response_field r f"] Cons.prems(1) by auto
qed simp

lemma UnmarshalResponse_ok:
  assumes "float_conv_ok F" and "UnmarshalResponse F s = Ok r"
  shows "map_decoded (rs_Result r)"
proof -
  obtain fs where fs: "struct_members F s = Ok fs" and r: "r = fst (foldl response_field (zero_response, True) fs)"
    using assms(2) by (auto simp: UnmarshalResponse_def decode_struct_def outcome_simps split: if_splits)
  then show ?thesis
    using response_fields_decoded [of fs "(zero_response, True)"] struct_members_decoded [OF assms(1) fs]
    by (auto simp: zero_response_def map_decoded_def)
qed

end
