(* ===== verification/Event_Pool.thy ===== *)
theory Event_Pool
  imports Event_Model
begin

text \<open>
  Object pools, \<^verbatim>\<open>src/internal/pool/pool.go\<close>: the free events and buffers of the two \<^verbatim>\<open>sync.Pool\<close>
  values and the four atomic counters. \<^verbatim>\<open>sync.Pool\<close> hands out any free object or a new one, so every
  Get takes the choice as an argument. A \<^verbatim>\<open>bytes.Buffer\<close> is a length and a capacity over a backing
  array at an address, because the slices it hands out share that array; the arrays are part of the
  state.
\<close>

record Metrics =
  EventHits :: u64
  EventMisses :: u64
  BufferHits :: u64
  BufferMisses :: u64

record gobuffer =
  gb_array :: nat
  gb_len :: nat
  gb_cap :: int

record pools =
  globalMetrics :: Metrics
  eventPool :: "event list"
  bufferPool :: "gobuffer list"
  arrays :: "nat \<Rightarrow> string"
  next_array :: nat

definition empty_pools :: pools where
  "empty_pools = \<lparr>globalMetrics = \<lparr>EventHits = 0, EventMisses = 0, BufferHits = 0, BufferMisses = 0\<rparr>,
     eventPool = [], bufferPool = [], arrays = (\<lambda>_. ''''), next_array = 0\<rparr>"

definition maxEventFields :: nat where
  "maxEventFields = 256"

definition maxBufferSize :: int where
  "maxBufferSize = 1024 * 1024"

definition GetMetrics :: "pools \<Rightarrow> Metrics" where
  "GetMetrics p = \<lparr>EventHits = EventHits (globalMetrics p), EventMisses = EventMisses (globalMetrics p),
     BufferHits = BufferHits (globalMetrics p), BufferMisses = BufferMisses (globalMetrics p)\<rparr>"

section \<open>Events\<close>

text \<open>The \<^verbatim>\<open>New\<close> functions of the two pools.\<close>

definition new_event :: "pools \<Rightarrow> pools \<times> event" where
  "new_event p =
     (p\<lparr>globalMetrics := (globalMetrics p)\<lparr>EventMisses := EventMisses (globalMetrics p) + 1\<rparr>\<rparr>,
      zero_event\<lparr>Params := Some []\<rparr>)"

definition alloc_array :: "string \<Rightarrow> pools \<Rightarrow> pools" where
  "alloc_array bytes p = p\<lparr>arrays := (arrays p)(next_array p := bytes), next_array := next_array p + 1\<rparr>"

definition new_gobuffer :: "pools \<Rightarrow> pools \<times> gobuffer" where
  "new_gobuffer p =
     (alloc_array (replicate 4096 (CHR 0x00))
        (p\<lparr>globalMetrics := (globalMetrics p)\<lparr>BufferMisses := BufferMisses (globalMetrics p) + 1\<rparr>\<rparr>),
      \<lparr>gb_array = next_array p, gb_len = 0, gb_cap = 4096\<rparr>)"

definition drop_nth :: "nat \<Rightarrow> 'a list \<Rightarrow> 'a list" where
  "drop_nth i xs = take i xs @ drop (Suc i) xs"

definition pick_ok :: "nat option \<Rightarrow> 'a list \<Rightarrow> bool" where
  "pick_ok pick xs = (case pick of None \<Rightarrow> False | Some i \<Rightarrow> i < length xs)"

definition GetEvent :: "nat option \<Rightarrow> pools \<Rightarrow> pools \<times> event" where
  "GetEvent pick p =
     (let (p', e) =
        (if pick_ok pick (eventPool p)
         then (p\<lparr>eventPool := drop_nth (the pick) (eventPool p)\<rparr>, eventPool p ! the pick)
         else new_event p)
      in (p'\<lparr>globalMetrics := (globalMetrics p')\<lparr>EventHits := EventHits (globalMetrics p') + 1\<rparr>\<rparr>, e))"

text \<open>
  The clearing loop: at most \<open>n\<close> times, take the first key the iteration yields and delete it. Which
  key that is does not matter to the result; the model takes the smallest.
\<close>

fun clear_keys :: "nat \<Rightarrow> 'v gomap \<Rightarrow> 'v gomap" where
  "clear_keys 0 m = m"
| "clear_keys (Suc n) [] = []"
| "clear_keys (Suc n) ((k, v) # m) = clear_keys n (gm_delete k ((k, v) # m))"

definition go_len :: "'v gomap option \<Rightarrow> nat" where
  "go_len m = (case m of None \<Rightarrow> 0 | Some kvs \<Rightarrow> length kvs)"

definition PutEvent :: "bool \<Rightarrow> pools \<Rightarrow> event option \<Rightarrow> pools \<times> unit outcome" where
  "PutEvent strict p ptr =
     (case ptr of
        None \<Rightarrow> (p, Ok ())
      | Some e \<Rightarrow>
          (let e1 = e\<lparr>ID := '''', RunID := '''', SeqIndex := 0, Timestamp := Truncate0 (Timestamp e),
                 Actor := '''', EventType := '''', Method := '''', PrevHash := '''', CurrentHash := '''',
                 Signature := '''', TaskID := '''', TaskState := '''', ParentID := '''',
                 PolicyID := '''', RiskLevel := '''', WasBlocked := False\<rparr> in
           case Check strict (go_len (Params e1) \<le> maxEventFields)
                  (''params map too large: '' @ show_nat (go_len (Params e1))) of
             Panic x \<Rightarrow> (p, Panic x)
           | Err _ \<Rightarrow> (p, Ok ())
           | Ok _ \<Rightarrow>
               (case Check strict (go_len (Response e1) \<le> maxEventFields)
                       (''response map too large: '' @ show_nat (go_len (Response e1))) of
                  Panic x \<Rightarrow> (p, Panic x)
                | Err _ \<Rightarrow> (p, Ok ())
                | Ok _ \<Rightarrow>
                    (let e2 = e1\<lparr>Params := map_option (clear_keys maxEventFields) (Params e1),
                                 Response := map_option (clear_keys maxEventFields) (Response e1)\<rparr>
                     in (p\<lparr>eventPool := e2 # eventPool p\<rparr>, Ok ())))))"

section \<open>Buffers\<close>

definition GetBuffer :: "nat option \<Rightarrow> pools \<Rightarrow> pools \<times> gobuffer" where
  "GetBuffer pick p =
     (let p' = p\<lparr>globalMetrics := (globalMetrics p)\<lparr>BufferHits := BufferHits (globalMetrics p) + 1\<rparr>\<rparr>
      in if pick_ok pick (bufferPool p')
         then (p'\<lparr>bufferPool := drop_nth (the pick) (bufferPool p')\<rparr>, bufferPool p' ! the pick)
         else new_gobuffer p')"

definition PutBuffer :: "bool \<Rightarrow> pools \<Rightarrow> gobuffer option \<Rightarrow> pools \<times> unit outcome" where
  "PutBuffer strict p ptr =
     (case ptr of
        None \<Rightarrow> (p, Ok ())
      | Some b \<Rightarrow>
          if gb_cap b > maxBufferSize then (p, Ok ())
          else case Check strict (gb_cap b \<le> maxBufferSize * 2)
                      (''buffer grew dangerously large: cap='' @ show_int (gb_cap b)) of
                 Panic x \<Rightarrow> (p, Panic x)
               | Err _ \<Rightarrow> (p, Ok ())
               | Ok _ \<Rightarrow> (p\<lparr>bufferPool := b\<lparr>gb_len := 0\<rparr> # bufferPool p\<rparr>, Ok ()))"

section \<open>Lemmas\<close>

text \<open>
  A clean event carries nothing of an earlier request but its time; a pool is clean when its free
  events are clean and its free buffers are empty and within the size limit.
\<close>

definition clean_event :: "event \<Rightarrow> bool" where
  "clean_event e \<longleftrightarrow>
     e = zero_event\<lparr>Timestamp := Timestamp e, Params := Params e, Response := Response e\<rparr>
     \<and> t_mono (Timestamp e) = None
     \<and> Params e \<in> {None, Some []} \<and> Response e \<in> {None, Some []}"

definition clean_pools :: "pools \<Rightarrow> bool" where
  "clean_pools p \<longleftrightarrow> (\<forall>e \<in> set (eventPool p). clean_event e)
     \<and> (\<forall>b \<in> set (bufferPool p). gb_len b = 0 \<and> gb_cap b \<le> maxBufferSize)"

lemma clear_keys_all: "gm_wf m \<Longrightarrow> length m \<le> n \<Longrightarrow> clear_keys n m = []"
proof (induction n m rule: clear_keys.induct)
  case (3 n k v m)
  have m: "gm_delete k ((k, v) # m) = m"
    using "3.prems"(1) gm_wf_distinct [OF "3.prems"(1)]
    by (force simp: gm_delete_def intro!: filter_True)
  have "gm_wf m" using "3.prems"(1) by (simp add: gm_wf_Cons)
  then show ?case using "3.IH" "3.prems"(2) unfolding clear_keys.simps m by simp
qed simp_all

lemma set_drop_nth: "set (drop_nth i xs) \<subseteq> set xs"
  by (auto simp: drop_nth_def dest: in_set_takeD in_set_dropD)

lemma PutEvent_small:
  assumes "go_len (Params e) \<le> 256" and "go_len (Response e) \<le> 256"
    and "\<forall>m. Params e = Some m \<longrightarrow> gm_wf m" and "\<forall>m. Response e = Some m \<longrightarrow> gm_wf m"
  shows "PutEvent strict p (Some e) =
    (p\<lparr>eventPool := zero_event\<lparr>Timestamp := Truncate0 (Timestamp e),
        Params := map_option (\<lambda>_. []) (Params e), Response := map_option (\<lambda>_. []) (Response e)\<rparr>
        # eventPool p\<rparr>, Ok ())"
proof -
  have c: "map_option (clear_keys 256) m = map_option (\<lambda>_. []) m"
    if "go_len m \<le> 256" "\<forall>x. m = Some x \<longrightarrow> gm_wf x" for m :: "goval gomap option"
    using that clear_keys_all [of _ 256] by (cases m) (auto simp: go_len_def)
  show ?thesis
    using c [OF assms(1,3)] c [OF assms(2,4)] assms(1,2)
    by (simp add: PutEvent_def maxEventFields_def zero_event_def)
qed

lemma PutEvent_oversized:
  assumes "go_len (Params e) > 256 \<or> go_len (Response e) > 256"
  shows "fst (PutEvent strict p (Some e)) = p
    \<and> (is_panic (snd (PutEvent strict p (Some e))) \<longleftrightarrow> strict)"
  using assms
  by (cases "go_len (Params e) \<le> 256"; cases strict)
    (simp_all add: PutEvent_def maxEventFields_def Check_strict Check_lenient)

lemma GetEvent_clean:
  assumes "clean_pools p"
  shows "clean_event (snd (GetEvent pick p)) \<and> clean_pools (fst (GetEvent pick p))"
proof (cases "pick_ok pick (eventPool p)")
  case True
  then have "eventPool p ! the pick \<in> set (eventPool p)"
    by (auto simp: pick_ok_def split: option.splits)
  then show ?thesis
    using assms True set_drop_nth [of "the pick" "eventPool p"]
    by (auto simp: GetEvent_def clean_pools_def)
next
  case False
  then show ?thesis
    using assms by (simp add: GetEvent_def new_event_def clean_pools_def)
      (simp add: clean_event_def zero_event_def zero_time_def)
qed

lemma PutEvent_clean:
  assumes "clean_pools p" and "\<forall>m. Params e = Some m \<longrightarrow> gm_wf m"
    and "\<forall>m. Response e = Some m \<longrightarrow> gm_wf m"
  shows "clean_pools (fst (PutEvent strict p (Some e)))"
proof (cases "go_len (Params e) \<le> 256 \<and> go_len (Response e) \<le> 256")
  case True
  then show ?thesis
    using assms PutEvent_small [of e strict p]
    by (cases "Params e"; cases "Response e")
      (auto simp: clean_pools_def clean_event_def zero_event_def Truncate0_def)
next
  case False
  then show ?thesis
    using assms(1) PutEvent_oversized [of e strict p] by auto
qed

lemma Buffer_clean:
  assumes "clean_pools p"
  shows "clean_pools (fst (PutBuffer strict p b))"
    and "gb_len (snd (GetBuffer pick p)) = 0" and "clean_pools (fst (GetBuffer pick p))"
proof -
  show "clean_pools (fst (PutBuffer strict p b))"
    using assms by (auto simp: PutBuffer_def clean_pools_def maxBufferSize_def split: option.splits)
  show "gb_len (snd (GetBuffer pick p)) = 0"
    using assms
    by (auto simp: GetBuffer_def new_gobuffer_def alloc_array_def clean_pools_def pick_ok_def Let_def
        split: option.splits)
  show "clean_pools (fst (GetBuffer pick p))"
    using assms set_drop_nth [of "the pick" "bufferPool p"]
    by (auto simp: GetBuffer_def new_gobuffer_def alloc_array_def clean_pools_def Let_def)
qed

section \<open>The contract of a pool\<close>

text \<open>
  An object that is taken is clean, whatever was given back before. A pool may hand out any of its free
  objects or a new one, and need not keep what it is given.
\<close>

locale recycling_pool =
  fixes get :: "nat option \<Rightarrow> 'p \<Rightarrow> 'p \<times> 'o"
    and put :: "'p \<Rightarrow> 'o \<Rightarrow> 'p"
    and inv :: "'p \<Rightarrow> bool"
    and usable :: "'o \<Rightarrow> bool"
    and clean :: "'o \<Rightarrow> bool"
  assumes get_clean: "inv p \<Longrightarrow> clean (snd (get k p))"
    and get_inv: "inv p \<Longrightarrow> inv (fst (get k p))"
    and put_inv: "inv p \<Longrightarrow> usable x \<Longrightarrow> inv (put p x)"
begin

text \<open>One use: take an object, change it into \<open>x\<close>, give it back.\<close>

fun uses :: "(nat option \<times> 'o) list \<Rightarrow> 'p \<Rightarrow> 'p" where
  "uses [] p = p"
| "uses ((k, x) # us) p = uses us (put (fst (get k p)) x)"

lemma uses_inv: "inv p \<Longrightarrow> list_all (\<lambda>(k, x). usable x) us \<Longrightarrow> inv (uses us p)"
  by (induction us p rule: uses.induct) (simp_all add: get_inv put_inv)

lemma uses_clean: "inv p \<Longrightarrow> list_all (\<lambda>(k, x). usable x) us \<Longrightarrow> clean (snd (get k (uses us p)))"
  by (rule get_clean) (rule uses_inv)

end

definition maps_wf :: "event \<Rightarrow> bool" where
  "maps_wf e \<longleftrightarrow> (\<forall>m. Params e = Some m \<longrightarrow> gm_wf m) \<and> (\<forall>m. Response e = Some m \<longrightarrow> gm_wf m)"

interpretation ep: recycling_pool GetEvent "\<lambda>p e. fst (PutEvent strict p (Some e))" clean_pools maps_wf clean_event
  for strict
  by unfold_locales (simp_all add: GetEvent_clean PutEvent_clean maps_wf_def)

interpretation bp: recycling_pool GetBuffer "\<lambda>p b. fst (PutBuffer strict p (Some b))" clean_pools "\<lambda>b. True" "\<lambda>b. gb_len b = 0"
  for strict
  by unfold_locales (simp_all add: Buffer_clean)

end
