(* ===== verification/Cli_Analytics.thy ===== *)
theory Cli_Analytics
  imports Cli_Console Mcp_Message Event_Pool Observer
begin

text \<open>
  \<^verbatim>\<open>src/cmd/logyctl/commands/analytics.go\<close>: the commands \<^verbatim>\<open>events\<close>, \<^verbatim>\<open>stats\<close> and \<^verbatim>\<open>risk\<close>. The pool metrics that
  \<^verbatim>\<open>stats\<close> shows come from the admin API of a running server; what the request returns is an argument.
\<close>

section \<open>EventsCommand\<close>

definition maxRecentEvents :: nat where
  "maxRecentEvents = 10000"

fun events_loop :: "event list \<Rightarrow> console" where
  "events_loop [] = stop Return"
| "events_loop (e # es) =
     or_crash (go_prefix 8 (ID e)) (\<lambda>shortID.
     say (''['' @ show_nat (unat (SeqIndex e)) @ ''] '' @ shortID @ '' | '' @ EventType e @ '' | '' @ Method e @ nl) (
     say (if WasBlocked e then ''    BLOCKED'' @ nl else '''') (events_loop es)))"

definition EventsCommand :: "bool \<Rightarrow> disk \<Rightarrow> string list \<Rightarrow> console" where
  "EventsCommand strict dk args =
     (case parse_flags [(''limit'', FInt 10)] (drop 2 args) of
        Leave n \<Rightarrow> stop (Exit n)
      | Parsed flags \<Rightarrow>
          checked strict ''failed to open database'' ''Failed to open database'' (OpenDB dk) (\<lambda>d.
          checked strict ''failed to get run ID'' ''Failed to get run ID'' (GetRunID d) (\<lambda>runID.
          if runID = '''' then println ''No runs found in database'' (stop Return)
          else
            checked strict ''failed to get events'' ''Failed to get events''
              (GetRecentEvents strict d runID (flag_int flags ''limit'')) (\<lambda>events.
            attempt (Check strict (length events \<le> maxRecentEvents)
                (''recent events exceed max: '' @ show_nat (length events)))
              (fatal ''Recent events exceed max'') (\<lambda>_.
            println (''Recent Events (showing '' @ show_nat (length events) @ '')'') (
            println ''==========================='' (
            events_loop (take maxRecentEvents (rev events)))))))))"

section \<open>StatsCommand\<close>

text \<open>
  \<^verbatim>\<open>float64\<close> division and multiplication of non-negative numbers, as fractions rounded to 53 bits, ties
  to even. The quotients of the counters are far from the limits of the exponent.
\<close>

definition round_half_even :: "nat \<Rightarrow> nat \<Rightarrow> nat" where
  "round_half_even n d =
     (let q = n div d; r = n mod d in if d < 2 * r \<or> (2 * r = d \<and> odd q) then Suc q else q)"

definition scale2 :: "nat \<times> nat \<Rightarrow> int \<Rightarrow> nat \<times> nat" where
  "scale2 x k = (if 0 \<le> k then (fst x, snd x * 2 ^ nat k) else (fst x * 2 ^ nat (- k), snd x))"

definition f64_round :: "nat \<times> nat \<Rightarrow> nat \<times> nat" where
  "f64_round x =
     (if fst x = 0 then (0, 1)
      else let k0 = int (top_bit (fst x)) - int (top_bit (snd x)) - 52;
               s = scale2 x k0;
               k = (if fst s < 2 ^ 52 * snd s then k0 - 1 else k0);
               s' = scale2 x k
           in scale2 (round_half_even (fst s') (snd s'), 1) (- k))"

definition f64_percent :: "u64 \<Rightarrow> u64 \<Rightarrow> nat \<times> nat" where
  "f64_percent hits tot =
     (let h = f64_round (unat hits, 1); t = f64_round (unat tot, 1);
          q = f64_round (fst h * snd t, snd h * fst t)
      in f64_round (fst q * 100, snd q))"

definition show_tenths :: "nat \<times> nat \<Rightarrow> string" where
  "show_tenths x =
     (let n = round_half_even (fst x * 10) (snd x) in show_nat (n div 10) @ ''.'' @ show_nat (n mod 10))"

definition printPoolMetric :: "string \<Rightarrow> u64 \<Rightarrow> u64 \<Rightarrow> string" where
  "printPoolMetric name hits misses =
     (let tot = hits + misses;
          rate = (if tot > 0 then f64_percent hits tot else (0, 1)) in
      pad_right 12 name @ '' | Hits: '' @ pad_right 5 (show_nat (unat hits))
      @ '' | Misses: '' @ pad_right 5 (show_nat (unat misses))
      @ '' | Efficiency: '' @ show_tenths rate @ ''%'' @ nl)"

text \<open>
  \<^verbatim>\<open>json.NewDecoder(body).Decode(&m)\<close> into \<^verbatim>\<open>pool.Metrics\<close>: the first value of the body; a number that is
  no \<^verbatim>\<open>uint64\<close> does not fit a field.
\<close>

definition uint_conv :: "('a) float_conv_scheme \<Rightarrow> ('a) float_conv_scheme" where
  "uint_conv F = F\<lparr>parse_float := \<lambda>t.
     if list_all is_digit t \<and> read_digits t < 2 ^ 64 then Some (of_nat (read_digits t)) else None\<rparr>"

definition first_value :: "('a) float_conv_scheme \<Rightarrow> string \<Rightarrow> string" where
  "first_value F body =
     (case parse_value (lenient F) (Suc (length body)) max_nesting body of
        Some (v, q) \<Rightarrow>
          if q = [] \<or> is_ws (hd q) \<or> (case v of GMap _ \<Rightarrow> True | GList _ \<Rightarrow> True | _ \<Rightarrow> False)
          then take (length body - length q) body else body
      | None \<Rightarrow> body)"

definition set_uint :: "goval option \<Rightarrow> u64 \<Rightarrow> u64 \<times> bool" where
  "set_uint v old =
     (case v of Some (GFloat x) \<Rightarrow> (x, True) | Some GNil \<Rightarrow> (old, True) | _ \<Rightarrow> (old, False))"

fun metrics_field :: "Metrics \<times> bool \<Rightarrow> string \<times> goval option \<Rightarrow> Metrics \<times> bool" where
  "metrics_field (m, ok) (k, v) =
     (if fold_name k = ''eventhits'' then
        (let (x, b) = set_uint v (EventHits m) in (m\<lparr>EventHits := x\<rparr>, ok \<and> b))
      else if fold_name k = ''eventmisses'' then
        (let (x, b) = set_uint v (EventMisses m) in (m\<lparr>EventMisses := x\<rparr>, ok \<and> b))
      else if fold_name k = ''bufferhits'' then
        (let (x, b) = set_uint v (BufferHits m) in (m\<lparr>BufferHits := x\<rparr>, ok \<and> b))
      else if fold_name k = ''buffermisses'' then
        (let (x, b) = set_uint v (BufferMisses m) in (m\<lparr>BufferMisses := x\<rparr>, ok \<and> b))
      else (m, ok))"

definition DecodeMetrics :: "('a) float_conv_scheme \<Rightarrow> string \<Rightarrow> Metrics outcome" where
  "DecodeMetrics F body =
     bind_outcome (struct_members (uint_conv F) (first_value F body)) (\<lambda>fs.
     decode_struct (foldl metrics_field
       (\<lparr>EventHits = 0, EventMisses = 0, BufferHits = 0, BufferMisses = 0\<rparr>, True) fs))"

text \<open>
  The loop takes the entries of the map out one at a time, each time the first that an iteration meets,
  which is any: \<open>pick\<close> chooses.
\<close>

definition maxRiskLevels :: nat where
  "maxRiskLevels = 32"

primrec risk_loop :: "(nat \<Rightarrow> nat) \<Rightarrow> nat \<Rightarrow> int gomap \<Rightarrow> string" where
  "risk_loop pick 0 m = ''''"
| "risk_loop pick (Suc n) m =
     (if m = [] then ''''
      else case m ! (pick n mod length m) of (key, cnt) \<Rightarrow>
        ''  '' @ pad_right 10 key @ '': '' @ show_int cnt @ nl @ risk_loop pick n (gm_delete key m))"

definition StatsCommand ::
    "bool \<Rightarrow> ('a) float_conv_scheme \<Rightarrow> (nat \<Rightarrow> nat) \<Rightarrow> string outcome \<Rightarrow> disk \<Rightarrow> console" where
  "StatsCommand strict F pick metrics dk =
     attempt (OpenDB dk) (fatal ''Failed to open database'') (\<lambda>d.
     let runID = (case GetRunID d of Ok r \<Rightarrow> r | _ \<Rightarrow> '''') in
     if runID = '''' then println ''No runs found'' (stop Return)
     else
       checked strict ''failed to get stats'' ''Failed to get stats'' (GetRunStats strict d runID) (\<lambda>stats.
       or_crash (go_prefix 8 runID) (\<lambda>shortRun.
       println (''Run Statistics ('' @ shortRun @ '')'') (
       println ''======================='' (
       println (''Total Events:    '' @ show_nat (unat (rs_total_events stats))) (
       println (''Tool Calls:      '' @ show_nat (unat (rs_call_count stats))) (
       println (''Blocked Calls:   '' @ show_nat (unat (rs_blocked_count stats))) (
       println (nl @ ''Risk Breakdown:'') (
       let rest =
         say (case GetGlobalStats d of
                Ok g \<Rightarrow> nl @ ''Global Context'' @ nl @ ''--------------'' @ nl
                  @ ''Total Runs:      '' @ show_int (gs_total_runs g) @ nl
                  @ ''Total Events:    '' @ show_nat (unat (gs_total_events g)) @ nl
                  @ ''Critical Alerts: '' @ show_int (gs_critical_count g) @ nl
              | _ \<Rightarrow> '''') (
         say (case bind_outcome metrics (DecodeMetrics F) of
                Ok m \<Rightarrow> nl @ ''Memory Infrastructure (Zero-Allocation Pools)'' @ nl
                  @ ''--------------------------------------------'' @ nl
                  @ printPoolMetric ''Event Pool'' (EventHits m) (EventMisses m)
                  @ printPoolMetric ''Buffer Pool'' (BufferHits m) (BufferMisses m)
              | _ \<Rightarrow> '''') (stop Return))
       in if rs_risk_breakdown stats = [] then println ''  None'' rest
          else attempt (Check strict (length (rs_risk_breakdown stats) \<le> maxRiskLevels)
                 (''risk breakdown exceeds max: '' @ show_nat (length (rs_risk_breakdown stats))))
               (fatal ''Risk breakdown exceeds max'') (\<lambda>_.
               say (risk_loop pick maxRiskLevels (rs_risk_breakdown stats)) rest)))))))))) "

section \<open>RiskCommand\<close>

definition maxRiskEvents :: nat where
  "maxRiskEvents = 10000"

fun risk_events_loop :: "event list \<Rightarrow> console" where
  "risk_events_loop [] = stop Return"
| "risk_events_loop (e # es) =
     or_crash (go_prefix 8 (ID e)) (\<lambda>shortID.
     say (''['' @ RiskLevel e @ ''] '' @ pad_right 8 shortID @ '' | '' @ pad_right 10 (EventType e) @ '' | '' @ Method e @ nl) (
     say (if PolicyID e \<noteq> '''' then ''    Policy: '' @ PolicyID e @ nl else '''') (risk_events_loop es)))"

definition RiskCommand :: "bool \<Rightarrow> disk \<Rightarrow> console" where
  "RiskCommand strict dk =
     attempt (OpenDB dk) (fatal ''Failed to open database'') (\<lambda>d.
     checked strict ''failed to get risky events'' ''Failed to get risky events'' (GetRiskEvents strict d) (\<lambda>risky.
     if risky = [] then println ''[OK] No high-risk events detected'' (stop Return)
     else attempt (Check strict (length risky \<le> maxRiskEvents) (''risky events exceed max: '' @ show_nat (length risky)))
       (fatal ''Risky events exceed max'') (\<lambda>_.
       println (''High-Risk Events Found: '' @ show_nat (length risky)) (
       println ''=========================='' (
       risk_events_loop (take maxRiskEvents risky))))))"

section \<open>Lemmas\<close>

text \<open>Whatever order the map is taken in, every risk level gets exactly one line.\<close>

abbreviation risk_line :: "string \<times> int \<Rightarrow> string" where
  "risk_line kv \<equiv> ''  '' @ pad_right 10 (fst kv) @ '': '' @ show_int (snd kv) @ nl"

lemma gm_delete_member:
  assumes "distinct (map fst m)" and "kv \<in> set m"
  shows "mset m = add_mset kv (mset (gm_delete (fst kv) m))"
  using assms
proof (induction m)
  case (Cons x m)
  show ?case
  proof (cases "x = kv")
    case True
    then have "gm_delete (fst kv) m = m"
      using Cons.prems(1) unfolding gm_delete_def by (intro filter_True) (auto simp: image_iff)
    then show ?thesis using True by (simp add: gm_delete_def split_beta)
  next
    case False
    then have "kv \<in> set m" "fst x \<noteq> fst kv" using Cons.prems by (auto simp: image_iff)
    then show ?thesis using Cons by (simp add: gm_delete_def split_beta)
  qed
qed simp

lemma gm_delete_distinct: "distinct (map fst m) \<Longrightarrow> distinct (map fst (gm_delete k m))"
  by (induction m) (auto simp: gm_delete_def)

lemma risk_loop_lines:
  "distinct (map fst m) \<Longrightarrow> length m \<le> n \<Longrightarrow>
     \<exists>kvs. mset kvs = mset m \<and> risk_loop pick n m = concat (map risk_line kvs)"
proof (induction n arbitrary: m)
  case (Suc n)
  show ?case
  proof (cases "m = []")
    case False
    define kv where "kv = m ! (pick n mod length m)"
    have "kv \<in> set m" using False by (simp add: kv_def)
    then have d: "mset m = add_mset kv (mset (gm_delete (fst kv) m))"
      using gm_delete_member Suc.prems(1) by blast
    then have "length m = Suc (length (gm_delete (fst kv) m))"
      by (metis size_add_mset size_mset)
    then obtain kvs where "mset kvs = mset (gm_delete (fst kv) m)"
      "risk_loop pick n (gm_delete (fst kv) m) = concat (map risk_line kvs)"
      using Suc.IH [of "gm_delete (fst kv) m"] Suc.prems gm_delete_distinct by auto
    then show ?thesis
      using False d by (intro exI [of _ "kv # kvs"]) (simp add: kv_def [symmetric] split_beta)
  qed simp
qed simp

end
