(* ===== verification/Cli_Keys.thy ===== *)
theory Cli_Keys
  imports Cli_Console
begin

text \<open>
  \<^verbatim>\<open>src/cmd/logyctl/commands/system.go\<close>: the status of the current run and the management of the signing
  key. \<open>now\<close> is the present time in UTC. What the admin API answers to \<^verbatim>\<open>rekey\<close> and the entries of the
  current directory are arguments.
\<close>

section \<open>StatusCommand\<close>

definition StatusCommand :: "bool \<Rightarrow> disk \<Rightarrow> console" where
  "StatusCommand strict dk =
     attempt (OpenDB dk) (fatal ''Failed to open database'') (\<lambda>d.
     attempt (GetRunID d) (fatal ''Failed to get run ID'') (\<lambda>runID.
     if runID = '''' then println ''No runs found in database'' (stop Return)
     else attempt (GetRunInfo strict d runID) (fatal ''Failed to get run info'') (\<lambda>(agentName, genesisHash, pubKey).
       println ''Current Run Status'' (
       println ''=================='' (
       or_crash (go_prefix 8 runID) (\<lambda>shortRun.
       println (''Run ID:       '' @ shortRun) (
       println (''Agent:        '' @ agentName) (
       or_crash (go_prefix 16 genesisHash) (\<lambda>shortHash.
       println (''Genesis Hash: '' @ shortHash @ ''...'') (
       or_crash (go_prefix 32 pubKey) (\<lambda>shortKey.
       println (''Public Key:   '' @ shortKey @ ''...'') (stop Return))))))))))))"

section \<open>RekeyCommand\<close>

text \<open>
  An HTTP client: the method, the URL, the headers and the body of a request, and the body of the answer,
  with the error reading it may end in, or the error of the request.
\<close>

type_synonym http_client =
  "string \<Rightarrow> string \<Rightarrow> (string \<times> string) list \<Rightarrow> string \<Rightarrow> (string \<times> error option) outcome"

text \<open>\<^verbatim>\<open>http.Post(url, contentType, nil)\<close>.\<close>

definition http_Post :: "http_client \<Rightarrow> string \<Rightarrow> string \<Rightarrow> (string \<times> error option) outcome" where
  "http_Post client url contentType = client ''POST'' url [(''Content-Type'', contentType)] ''''"

definition RekeyCommand :: "http_client \<Rightarrow> console" where
  "RekeyCommand client =
     attempt (http_Post client ''http://localhost:9998/api/rekey'' ''application/json'')
       (fatal ''Failed to contact Logryph API'') (\<lambda>(body, readErr).
     case readErr of
       Some e \<Rightarrow> println (''Error: Failed to read response body: '' @ error_msg e) (stop (Exit 1))
     | None \<Rightarrow> println body (stop Return))"

section \<open>BackupKeyCommand\<close>

definition keyPath :: string where
  "keyPath = ''.logryph_key''"

definition maxBackupName :: nat where
  "maxBackupName = 256"

definition backup_path :: "gotime \<Rightarrow> string" where
  "backup_path now = ''.logryph_key.backup.'' @ format_stamp now"

definition BackupKeyCommand :: "gotime \<Rightarrow> filesys \<Rightarrow> filesys \<times> console" where
  "BackupKeyCommand now fs =
     (if StatErr fs keyPath \<noteq> None then (fs, println ''Error: No key file found at .logryph_key'' (stop (Exit 1)))
      else if maxBackupName < length (backup_path now) then
        (fs, println ''Error: Backup path exceeds maximum length'' (stop (Exit 1)))
      else case ReadFile fs keyPath of
        Panic e \<Rightarrow> (fs, stop (Crash e))
      | Err e \<Rightarrow> (fs, println (''Error: Failed to read key file: '' @ error_msg e) (stop (Exit 1)))
      | Ok keyData \<Rightarrow>
          (case WriteFile fs (backup_path now) keyData of
             (fs', Ok _) \<Rightarrow>
               (fs', println (''Key backed up to: '' @ backup_path now) (
                     println ''Store this backup securely (offline storage recommended)'' (stop Return)))
           | (fs', Err e) \<Rightarrow> (fs', println (''Error: Failed to write backup: '' @ error_msg e) (stop (Exit 1)))
           | (fs', Panic e) \<Rightarrow> (fs', stop (Crash e))))"

section \<open>RestoreKeyCommand\<close>

definition maxPath :: nat where
  "maxPath = 512"

definition old_path :: string where
  "old_path = keyPath @ ''.old''"

text \<open>The current key moves aside when there is one; the second component is what is printed.\<close>

definition move_aside :: "filesys \<Rightarrow> filesys \<times> string \<times> unit outcome" where
  "move_aside fs =
     (if StatErr fs keyPath = None then
        (case Rename fs keyPath old_path of
           (fs', Ok _) \<Rightarrow> (fs', ''Existing key moved to: '' @ old_path @ nl, Ok ())
         | (fs', Err e) \<Rightarrow> (fs', ''Error: Failed to preserve old key: '' @ error_msg e @ nl, Err e)
         | (fs', Panic e) \<Rightarrow> (fs', '''', Panic e))
      else (fs, '''', Ok ()))"

definition RestoreKeyCommand :: "string \<Rightarrow> filesys \<Rightarrow> filesys \<times> console" where
  "RestoreKeyCommand backupPath fs =
     (if maxPath < length backupPath then
        (fs, println ''Error: Backup path exceeds maximum length'' (stop (Exit 1)))
      else if StatErr fs backupPath \<noteq> None then
        (fs, println (''Error: Backup file not found: '' @ backupPath) (stop (Exit 1)))
      else case ReadFile fs backupPath of
        Panic e \<Rightarrow> (fs, stop (Crash e))
      | Err e \<Rightarrow> (fs, println (''Error: Failed to read backup: '' @ error_msg e) (stop (Exit 1)))
      | Ok backupData \<Rightarrow>
          (case move_aside fs of
             (fs1, out, Panic e) \<Rightarrow> (fs1, say out (stop (Crash e)))
           | (fs1, out, Err e) \<Rightarrow> (fs1, say out (stop (Exit 1)))
           | (fs1, out, Ok _) \<Rightarrow>
               (case WriteFile fs1 keyPath backupData of
                  (fs2, Ok _) \<Rightarrow>
                    (fs2, say out (
                          println ''Key restored successfully'' (
                          println ''Warning: Chain verification will fail for events signed with the old key''
                            (stop Return))))
                | (fs2, Err e) \<Rightarrow>
                    (fs2, say out (println (''Error: Failed to restore key: '' @ error_msg e) (stop (Exit 1))))
                | (fs2, Panic e) \<Rightarrow> (fs2, say out (stop (Crash e))))))"

section \<open>ListBackupsCommand\<close>

definition maxFiles :: nat where
  "maxFiles = 1000"

definition is_backup :: "string \<Rightarrow> bool" where
  "is_backup name \<longleftrightarrow> Ext name = '''' \<and> 17 < length name \<and> take 17 name = ''.logryph_key.backup''"

text \<open>A directory entry: its name, and what \<^verbatim>\<open>Info\<close> tells of its size and time.\<close>

type_synonym dir_entry = "string \<times> (nat \<times> gotime) outcome"

definition backup_line :: "dir_entry \<Rightarrow> string" where
  "backup_line f =
     (case snd f of
        Ok (sz, modTime) \<Rightarrow>
          fst f @ '' ('' @ show_nat sz @ '' bytes, '' @ format_plain modTime @ '')'' @ nl
      | _ \<Rightarrow> '''')"

definition ListBackupsCommand :: "dir_entry list outcome \<Rightarrow> console" where
  "ListBackupsCommand dir =
     attempt dir
       (\<lambda>e. println (''Error: Failed to read directory: '' @ error_msg e) (stop (Exit 1)))
       (\<lambda>files.
        let backups = filter (\<lambda>f. is_backup (fst f)) (take maxFiles files) in
        if backups = [] then println ''No key backups found'' (stop Return)
        else println ''Key Backups'' (
             println ''==========='' (
             say (concat (map backup_line backups)) (stop Return))))"

section \<open>Lemmas\<close>

text \<open>The slice has seventeen characters and the literal it is compared with nineteen.\<close>

lemma not_is_backup: "\<not> is_backup name"
proof
  assume "is_backup name"
  then have "length (take 17 name) = length ''.logryph_key.backup''" by (simp add: is_backup_def)
  then show False by simp
qed

lemma backup_path_distinct [simp]:
  "backup_path now \<noteq> keyPath" "backup_path now \<noteq> old_path" "keyPath \<noteq> old_path" "old_path \<noteq> keyPath"
  by (simp_all add: backup_path_def keyPath_def old_path_def)

lemma length_backup_path: "length (backup_path now) = 36"
  by (simp add: backup_path_def format_stamp_def)

text \<open>After a backup that returned, the backup has the bytes of the key, and nothing else has changed.\<close>

lemma BackupKey_effect:
  assumes "BackupKeyCommand now fs = (fs', out, Return)"
  shows "\<exists>k. fs_files fs keyPath = Some k \<and> fs' = fs\<lparr>fs_files := (fs_files fs)(backup_path now \<mapsto> k)\<rparr>"
  using assms
  by (auto simp: BackupKeyCommand_def StatErr_def ReadFile_def WriteFile_def println_def say_def
      split: if_splits option.splits outcome.splits)

lemma RestoreKey_effect:
  assumes "fs_files fs p = Some d" and "length p \<le> maxPath" and "p \<noteq> keyPath"
    and "fs_read_err fs p = None" and "fs_write_err fs keyPath = None" and "fs_write_err fs old_path = None"
  shows "\<exists>fs' out. RestoreKeyCommand p fs = (fs', out, Return) \<and> fs_files fs' keyPath = Some d
    \<and> fs_files fs' old_path = (case fs_files fs keyPath of None \<Rightarrow> fs_files fs old_path | Some k \<Rightarrow> Some k)
    \<and> fs_read_err fs' = fs_read_err fs"
  using assms
  by (cases "fs_files fs keyPath")
    (auto simp: RestoreKeyCommand_def StatErr_def ReadFile_def WriteFile_def Rename_def move_aside_def println_def say_def)

text \<open>No backup is ever listed, whatever the directory holds.\<close>

lemma backups_never_listed: "ListBackupsCommand (Ok files) = (''No key backups found'' @ nl, Return)"
  by (simp add: ListBackupsCommand_def not_is_backup println_def say_def)

end
