(* ===== verification/Event_Processor.thy ===== *)
theory Event_Processor
  imports Event_Store Event_Pool
begin

text \<open>
  The event processor and the genesis block, \<^verbatim>\<open>src/internal/ledger/processor.go\<close> and \<^verbatim>\<open>genesis.go\<close>,
  over any repository \<open>R\<close>. An event pointer is an optional event and the mutated event is returned.
  \<^verbatim>\<open>uuid.New()\<close>, \<^verbatim>\<open>time.Now()\<close> and the choice of the event pool are the fields of \<open>fresh\<close>.
\<close>

section \<open>State\<close>

record fresh =
  f_uuid :: string
  f_now :: gotime
  f_pick :: "nat option"

record processor =
  p_signer :: signer
  p_runID :: string
  p_taskStates :: "string gomap"

definition NewEventProcessor :: "signer \<Rightarrow> string \<Rightarrow> processor" where
  "NewEventProcessor s runID = \<lparr>p_signer = s, p_runID = runID, p_taskStates = []\<rparr>"

definition isTerminalState :: "string \<Rightarrow> bool" where
  "isTerminalState state \<longleftrightarrow> state = ''completed'' \<or> state = ''failed'' \<or> state = ''cancelled''"

text \<open>\<^verbatim>\<open>m[k] = v\<close> on a map field: a nil map panics.\<close>

definition set_param :: "string \<Rightarrow> goval \<Rightarrow> event \<Rightarrow> event outcome" where
  "set_param k v e =
     (case Params e of
        None \<Rightarrow> Panic (RuntimeError ''assignment to entry in nil map'')
      | Some m \<Rightarrow> Ok (e\<lparr>Params := Some (gm_update k v m)\<rparr>))"

fun set_params :: "(string \<times> goval) list \<Rightarrow> event \<Rightarrow> event outcome" where
  "set_params [] e = Ok e"
| "set_params ((k, v) # kvs) e = bind_outcome (set_param k v e) (set_params kvs)"

text \<open>\<^verbatim>\<open>if event.Params == nil { event.Params = make(...) }\<close>\<close>

definition make_params :: "event \<Rightarrow> event" where
  "make_params e = (if Params e = None then e\<lparr>Params := Some []\<rparr> else e)"

section \<open>Persisting one event\<close>

definition assignSequenceAndPrevHash ::
    "bool \<Rightarrow> 'db repository \<Rightarrow> 'db \<Rightarrow> string \<Rightarrow> event \<Rightarrow> event \<times> unit outcome" where
  "assignSequenceAndPrevHash strict R d runID event =
     (case repo_GetRunStats R d runID of
        Panic x \<Rightarrow> (event, Panic x)
      | Err x \<Rightarrow> (event, wrap_err ''getting run stats''
                    (Check strict False (''failed to get run stats: '' @ error_msg x)))
      | Ok stats \<Rightarrow>
          (let e1 = event\<lparr>SeqIndex := rs_total_events stats, RunID := runID\<rparr> in
           case repo_GetLastEvent R d runID of
             Panic x \<Rightarrow> (e1, Panic x)
           | Err x \<Rightarrow> (e1, Err (Wrap ''getting last event'' x))
           | Ok (lastIndex, lastHash) \<Rightarrow>
               if SeqIndex e1 = 0
               then (case Check strict (lastHash = '''') ''expected empty last hash for seq 0'' of
                       Ok _ \<Rightarrow> (e1\<lparr>PrevHash := zero_hash\<rparr>, Ok ())
                     | Err x \<Rightarrow> (e1, Err x)
                     | Panic x \<Rightarrow> (e1, Panic x))
               else (case bind_outcome (Check strict (lastHash \<noteq> '''') ''prev_hash must be non-empty'') (\<lambda>_.
                             Check strict (SeqIndex e1 = lastIndex + 1) ''sequence gap detected'') of
                       Ok _ \<Rightarrow> (e1\<lparr>PrevHash := lastHash\<rparr>, Ok ())
                     | Err x \<Rightarrow> (e1, Err x)
                     | Panic x \<Rightarrow> (e1, Panic x))))"

definition hashAndSignEvent ::
    "bool \<Rightarrow> ('a) crypto_env_scheme \<Rightarrow> signer \<Rightarrow> event \<Rightarrow> event \<times> unit outcome" where
  "hashAndSignEvent strict X s event =
     (case bind_outcome (Check strict (PrevHash event \<noteq> '''') ''prev_hash must be set'') (\<lambda>_.
           wrap_err ''calculating hash'' (CalculateEventHash strict X (PrevHash event) (event_payload event))) of
        Err x \<Rightarrow> (event, Err x)
      | Panic x \<Rightarrow> (event, Panic x)
      | Ok currentHash \<Rightarrow>
          (let e1 = event\<lparr>CurrentHash := currentHash\<rparr> in
           case wrap_err ''signing hash'' (SignHash X s currentHash) of
             Err x \<Rightarrow> (e1, Err x)
           | Panic x \<Rightarrow> (e1, Panic x)
           | Ok signature \<Rightarrow> (e1\<lparr>Signature := signature\<rparr>, Ok ())))"

definition persistEvent ::
    "bool \<Rightarrow> ('a) crypto_env_scheme \<Rightarrow> 'db repository \<Rightarrow> processor \<Rightarrow> 'db \<Rightarrow> event
       \<Rightarrow> 'db \<times> event \<times> unit outcome" where
  "persistEvent strict X R p d event =
     (case assignSequenceAndPrevHash strict R d (p_runID p) event of
        (e1, Err x) \<Rightarrow> (d, e1, Err x)
      | (e1, Panic x) \<Rightarrow> (d, e1, Panic x)
      | (e1, Ok _) \<Rightarrow>
          (case hashAndSignEvent strict X (p_signer p) e1 of
             (e2, Err x) \<Rightarrow> (d, e2, Err x)
           | (e2, Panic x) \<Rightarrow> (d, e2, Panic x)
           | (e2, Ok _) \<Rightarrow> (let (d', r) = repo_StoreEvent R d e2 in (d', e2, r))))"

section \<open>Task tracking\<close>

definition completion_event :: "fresh \<Rightarrow> event \<Rightarrow> string \<Rightarrow> string \<Rightarrow> event" where
  "completion_event fr e taskID state =
     (let e1 = make_params (e\<lparr>ID := take 8 (f_uuid fr), Timestamp := f_now fr,
                 EventType := ''task_terminal'', Method := ''logryph:task_state''\<rparr>)
      in e1\<lparr>Params := map_option (\<lambda>m. gm_update ''state'' (GStr state)
                 (gm_update ''task_id'' (GStr taskID) m)) (Params e1),
             TaskID := taskID, TaskState := state\<rparr>)"

definition createTaskCompletionEvent ::
    "bool \<Rightarrow> ('a) crypto_env_scheme \<Rightarrow> 'db repository \<Rightarrow> processor \<Rightarrow> fresh \<Rightarrow> 'db \<Rightarrow> pools
       \<Rightarrow> string \<Rightarrow> string \<Rightarrow> 'db \<times> pools \<times> unit outcome" where
  "createTaskCompletionEvent strict X R p fr d ps taskID state =
     (case bind_outcome (Check strict (taskID \<noteq> '''') ''taskID must not be empty'') (\<lambda>_.
           Check strict (state \<noteq> '''') ''state must not be empty'') of
        Err x \<Rightarrow> (d, ps, Ok ())
      | Panic x \<Rightarrow> (d, ps, Panic x)
      | Ok _ \<Rightarrow>
          (let (ps1, e) = GetEvent (f_pick fr) ps;
               (d', e', r) = persistEvent strict X R p d (completion_event fr e taskID state)
           in case r of
                Panic x \<Rightarrow> (d', ps1, Panic x)
              | Err x \<Rightarrow>
                  (case Check strict False (''persist task completion event failed: '' @ error_msg x) of
                     Panic y \<Rightarrow> (d', ps1, Panic y)
                   | _ \<Rightarrow> (let (ps2, r2) = PutEvent strict ps1 (Some e') in (d', ps2, r2)))
              | Ok _ \<Rightarrow> (let (ps2, r2) = PutEvent strict ps1 (Some e') in (d', ps2, r2))))"

definition trackTaskState ::
    "bool \<Rightarrow> ('a) crypto_env_scheme \<Rightarrow> 'db repository \<Rightarrow> fresh \<Rightarrow> processor \<Rightarrow> 'db \<Rightarrow> pools \<Rightarrow> event
       \<Rightarrow> processor \<times> 'db \<times> pools \<times> unit outcome" where
  "trackTaskState strict X R fr p d ps event =
     (case Check strict (TaskID event \<noteq> '''') ''taskID must not be empty'' of
        Err x \<Rightarrow> (p, d, ps, Ok ())
      | Panic x \<Rightarrow> (p, d, ps, Panic x)
      | Ok _ \<Rightarrow>
          (let terminal = isTerminalState (TaskState event);
               changed = (case gm_lookup (p_taskStates p) (TaskID event) of
                            None \<Rightarrow> False | Some oldState \<Rightarrow> oldState \<noteq> TaskState event)
           in if changed \<and> terminal
              then (case createTaskCompletionEvent strict X R p fr d ps (TaskID event) (TaskState event) of
                      (d', ps', Panic x) \<Rightarrow> (p, d', ps', Panic x)
                    | (d', ps', _) \<Rightarrow>
                        (p\<lparr>p_taskStates := gm_delete (TaskID event) (p_taskStates p)\<rparr>, d', ps', Ok ()))
              else if \<not> terminal
              then (p\<lparr>p_taskStates := gm_update (TaskID event) (TaskState event) (p_taskStates p)\<rparr>, d, ps, Ok ())
              else (p, d, ps, Ok ())))"

definition ProcessEvent ::
    "bool \<Rightarrow> ('a) crypto_env_scheme \<Rightarrow> 'db repository \<Rightarrow> fresh \<Rightarrow> processor \<Rightarrow> 'db \<Rightarrow> pools \<Rightarrow> event option
       \<Rightarrow> processor \<times> 'db \<times> pools \<times> event option \<times> unit outcome" where
  "ProcessEvent strict X R fr p d ps ptr =
     (case ptr of
        None \<Rightarrow> (p, d, ps, None, Check strict False ''event must not be nil'')
      | Some event \<Rightarrow>
          (case persistEvent strict X R p d event of
             (d', e, Err x) \<Rightarrow> (p, d', ps, Some e, Err x)
           | (d', e, Panic x) \<Rightarrow> (p, d', ps, Some e, Panic x)
           | (d', e, Ok _) \<Rightarrow>
               if (EventType e = ''tool_call'' \<or> EventType e = ''tool_response'') \<and> TaskID e \<noteq> ''''
               then (let (p', d'', ps', r) = trackTaskState strict X R fr p d' ps e
                     in (p', d'', ps', Some e, r))
               else (p, d', ps, Some e, Ok ())))"

section \<open>Hash chains\<close>

text \<open>
  \<open>link_ok\<close> says that \<open>e\<close> is the event number \<open>i\<close> of run \<open>r\<close> after the hash \<open>prev\<close>: numbered, linked,
  hashed and signed. A ledger is a chain of links from the zero hash.
\<close>

definition link_ok ::
    "('a) crypto_env_scheme \<Rightarrow> signer \<Rightarrow> string \<Rightarrow> string \<Rightarrow> nat \<Rightarrow> event \<Rightarrow> bool" where
  "link_ok X s r prev i e \<longleftrightarrow>
     SeqIndex e = of_nat i \<and> RunID e = r \<and> PrevHash e = prev \<and> Signature e \<noteq> '''' \<and> event_ok e
     \<and> CalculateEventHash False X prev (event_payload e) = Ok (CurrentHash e)
     \<and> VerifySignature X s (CurrentHash e) (Signature e) = Ok True"

fun chain_from ::
    "('a) crypto_env_scheme \<Rightarrow> signer \<Rightarrow> string \<Rightarrow> string \<Rightarrow> nat \<Rightarrow> event list \<Rightarrow> bool" where
  "chain_from X s r prev i [] \<longleftrightarrow> True"
| "chain_from X s r prev i (e # es) \<longleftrightarrow>
     link_ok X s r prev i e \<and> chain_from X s r (CurrentHash e) (Suc i) es"

definition tip :: "string \<Rightarrow> event list \<Rightarrow> string" where
  "tip prev es = (if es = [] then prev else CurrentHash (last es))"

lemma chain_from_append:
  "chain_from X s r prev i (es @ es') \<longleftrightarrow>
     chain_from X s r prev i es \<and> chain_from X s r (tip prev es) (i + length es) es'"
  by (induction es arbitrary: prev i) (auto simp: tip_def)

lemma CalculateEventHash_mode:
  "CalculateEventHash strict X p v = Ok h \<Longrightarrow> CalculateEventHash strict' X p v = Ok h"
  by (auto simp: CalculateEventHash_def outcome_simps case_outcome_Ok_iff)

lemma link_hash_length: "link_ok X s r prev i e \<Longrightarrow> length (CurrentHash e) = 64"
  unfolding link_ok_def using CalculateEventHash_Ok_D by blast

lemma chain_tip_length:
  assumes "chain_from X s r prev i es" and "length prev = 64"
  shows "length (tip prev es) = 64"
  using assms by (cases es rule: rev_cases)
    (auto simp: tip_def chain_from_append dest: link_hash_length)

text \<open>Normalising an event as the store does keeps its link.\<close>

lemma CalculateEventHash_norm:
  assumes "crypto_ok X" and "event_ok e" and "CalculateEventHash strict X p (event_payload e) = Ok h"
  shows "CalculateEventHash strict X p (event_payload (norm_event X e)) = Ok h"
proof -
  have F: "float_conv_ok X" using assms(1) by (rule float_conv_of_crypto)
  have "valid_prev p" using assms(3) CalculateEventHash_Ok_D by blast
  moreover have "canonical X (event_payload (norm_event X e)) = canonical X (event_payload e)"
    by (simp add: canonical_def payload_norm_event [OF F assms(2)])
  ultimately show ?thesis
    using assms event_ok_norm [OF F assms(2)]
    by (simp add: CalculateEventHash_Ok payload_marshalable payload_depth)
qed

lemma link_ok_norm:
  assumes "crypto_ok X" and "link_ok X s r prev i e"
  shows "link_ok X s r prev i (norm_event X e)"
proof -
  have "event_ok e" "CalculateEventHash False X prev (event_payload e) = Ok (CurrentHash e)"
    using assms(2) by (simp_all add: link_ok_def)
  then show ?thesis
    using assms CalculateEventHash_norm [OF assms(1)] event_ok_norm [OF float_conv_of_crypto [OF assms(1)]]
    by (simp add: link_ok_def) (simp add: norm_event_def)
qed

section \<open>Hashing and signing\<close>

lemma hashAndSign_Ok:
  assumes "crypto_ok X" and "signer_ok X s" and "hashAndSignEvent strict X s e = (e', Ok ())"
  shows "e' = e\<lparr>CurrentHash := CurrentHash e', Signature := Signature e'\<rparr>
    \<and> CalculateEventHash False X (PrevHash e) (event_payload e) = Ok (CurrentHash e')
    \<and> Signature e' \<noteq> '''' \<and> VerifySignature X s (CurrentHash e') (Signature e') = Ok True"
proof -
  obtain h where h: "CalculateEventHash strict X (PrevHash e) (event_payload e) = Ok h"
    using assms(3) by (auto simp: hashAndSignEvent_def outcome_simps split: outcome.splits)
  obtain sg where "SignHash X s h = Ok sg" "sg \<noteq> ''''" "VerifySignature X s h sg = Ok True"
    using SignHash_verifies [OF assms(1,2)] by blast
  then show ?thesis
    using assms(3) h CalculateEventHash_mode [OF h]
    by (auto simp: hashAndSignEvent_def outcome_simps Let_def split: outcome.splits)
qed

lemma hashAndSign_total:
  assumes "crypto_ok X" and "signer_ok X s" and "event_ok e" and "length (PrevHash e) = 64"
  shows "\<exists>e'. hashAndSignEvent strict X s e = (e', Ok ())"
proof -
  obtain h where h: "CalculateEventHash strict X (PrevHash e) (event_payload e) = Ok h"
    using CalculateEventHash_Ok [OF assms(1) payload_marshalable [OF assms(3)]
        payload_depth [OF assms(3)] payload_not_nil valid_prev_64 [OF assms(4)]] that
    by blast
  moreover have "PrevHash e \<noteq> ''''" using assms(4) by auto
  ultimately show ?thesis
    using SignHash_verifies [OF assms(1,2), of h] by (auto simp: hashAndSignEvent_def)
qed

lemma event_ok_cong:
  "event_ok (e\<lparr>SeqIndex := a, RunID := b, PrevHash := c, CurrentHash := f, Signature := g\<rparr>) = event_ok e"
  by (simp add: event_ok_def)

text \<open>What \<open>persistEvent\<close> may change in an event.\<close>

definition same_content :: "event \<Rightarrow> event \<Rightarrow> bool" where
  "same_content e e' \<longleftrightarrow> e' = e\<lparr>SeqIndex := SeqIndex e', RunID := RunID e', PrevHash := PrevHash e',
     CurrentHash := CurrentHash e', Signature := Signature e'\<rparr>"

lemma same_content_ok: "same_content e e' \<Longrightarrow> event_ok e' = event_ok e"
  unfolding same_content_def by (metis event_ok_cong)

lemma same_content_fields:
  "same_content e e' \<Longrightarrow> ID e' = ID e \<and> EventType e' = EventType e \<and> TaskID e' = TaskID e
     \<and> TaskState e' = TaskState e \<and> Params e' = Params e \<and> Response e' = Response e
     \<and> Timestamp e' = Timestamp e"
  unfolding same_content_def by (cases e; cases e') simp

lemma same_content_trans: "same_content e e1 \<Longrightarrow> same_content e1 e2 \<Longrightarrow> same_content e e2"
  unfolding same_content_def by (cases e; cases e1; cases e2) simp

lemma assign_content: "assignSequenceAndPrevHash strict R d r e = (e', x) \<Longrightarrow> same_content e e'"
  by (auto simp: assignSequenceAndPrevHash_def same_content_def Let_def split: outcome.splits if_splits)

lemma hashAndSign_content: "hashAndSignEvent strict X s e = (e', x) \<Longrightarrow> same_content e e'"
  by (auto simp: hashAndSignEvent_def same_content_def Let_def split: outcome.splits)

lemma persist_content:
  assumes "persistEvent strict X R p d e = (d', e', x)"
  shows "same_content e e'"
  using assms
  by (auto simp: persistEvent_def Let_def split: prod.splits outcome.splits
      intro: same_content_trans dest!: assign_content hashAndSign_content)

section \<open>Persisting over any repository that keeps the contract\<close>

context event_repository
begin

lemma length_word: "inv d \<Longrightarrow> (of_nat (length (log d r)) :: u64) = 0 \<longleftrightarrow> log d r = []"
proof -
  assume "inv d"
  then have "length (log d r) < 2 ^ 64"
    using log_cap [of d r] cap_word by linarith
  then have u: "unat (of_nat (length (log d r)) :: u64) = length (log d r)"
    by (simp add: unat_of_nat take_bit_nat_eq_self)
  show ?thesis
  proof
    assume "(of_nat (length (log d r)) :: u64) = 0"
    then show "log d r = []" using u unfolding \<open>_ = 0\<close> by simp
  qed simp
qed

lemma last_index:
  assumes "inv d" and "log d r \<noteq> []"
  shows "SeqIndex (last (log d r)) + 1 = of_nat (length (log d r))"
  using log_seq [OF assms(1), of "length (log d r) - 1" r] assms(2)
  by (cases "log d r" rule: rev_cases) simp_all

lemma assign_Ok:
  assumes "inv d" and "assignSequenceAndPrevHash strict R d r e = (e', Ok ())"
  shows "e' = e\<lparr>SeqIndex := of_nat (length (log d r)), RunID := r, PrevHash := tip zero_hash (log d r)\<rparr>"
proof -
  obtain st where st: "repo_GetRunStats R d r = Ok st"
    using assms(2) by (auto simp: assignSequenceAndPrevHash_def outcome_simps split: outcome.splits)
  obtain k h where last: "repo_GetLastEvent R d r = Ok (k, h)"
    using assms(2) st by (auto simp: assignSequenceAndPrevHash_def Let_def split: outcome.splits)
  have "rs_total_events st = of_nat (length (log d r))"
    using stats_ok [OF assms(1) st] .
  moreover have "(k, h) = (if log d r = [] then (0, '''')
      else (SeqIndex (last (log d r)), CurrentHash (last (log d r))))"
    by (rule last_ok [OF assms(1) last])
  ultimately show ?thesis
    using assms(2) length_word [OF assms(1), of r]
    by (auto simp: assignSequenceAndPrevHash_def st last tip_def Let_def split: outcome.splits if_splits)
qed

lemma assign_total:
  assumes "inv d" and "up d" and "r \<noteq> ''''" and "log d r \<noteq> [] \<Longrightarrow> CurrentHash (last (log d r)) \<noteq> ''''"
  shows "\<exists>e'. assignSequenceAndPrevHash strict R d r e = (e', Ok ())"
proof -
  obtain st where st: "repo_GetRunStats R d r = Ok st"
    using stats_up [OF assms(2,3)] by (auto simp: outcome_simps)
  obtain k h where last: "repo_GetLastEvent R d r = Ok (k, h)"
    using last_up [OF assms(2,3)] by (auto simp: outcome_simps)
  show ?thesis
    using stats_ok [OF assms(1) st] last_ok [OF assms(1) last] length_word [OF assms(1), of r]
      last_index [OF assms(1), of r] assms(4)
    by (auto simp: assignSequenceAndPrevHash_def st last split: if_splits)
qed

text \<open>A successful write extends the chain of the run by the event; a failed one changes nothing.\<close>

lemma persist_Ok:
  assumes X: "crypto_ok X" and s: "signer_ok X (p_signer p)" and d: "inv d" and e: "event_ok e"
    and chain: "chain_from X (p_signer p) (p_runID p) zero_hash 0 (log d (p_runID p))"
    and res: "persistEvent strict X R p d e = (d', e', Ok ())"
  shows "inv d' \<and> (up d' \<longleftrightarrow> up d) \<and> ids d' = insert (ID e) (ids d) \<and> same_content e e'
    \<and> log d' = (log d)(p_runID p := log d (p_runID p) @ [norm_event X e'])
    \<and> chain_from X (p_signer p) (p_runID p) zero_hash 0 (log d' (p_runID p))"
proof -
  let ?r = "p_runID p" and ?s = "p_signer p"
  obtain e1 where e1: "assignSequenceAndPrevHash strict R d ?r e = (e1, Ok ())"
    and e2: "hashAndSignEvent strict X ?s e1 = (e', Ok ())"
    and st: "repo_StoreEvent R d e' = (d', Ok ())"
    using res by (auto simp: persistEvent_def split: prod.splits outcome.splits)
  have e1_eq: "e1 = e\<lparr>SeqIndex := of_nat (length (log d ?r)), RunID := ?r,
      PrevHash := tip zero_hash (log d ?r)\<rparr>"
    by (rule assign_Ok [OF d e1])
  have e'_eq: "e' = e1\<lparr>CurrentHash := CurrentHash e', Signature := Signature e'\<rparr>"
    and hash: "CalculateEventHash False X (PrevHash e1) (event_payload e1) = Ok (CurrentHash e')"
    and sig: "Signature e' \<noteq> ''''" "VerifySignature X ?s (CurrentHash e') (Signature e') = Ok True"
    using hashAndSign_Ok [OF X s e2] by blast+
  have fields: "SeqIndex e' = of_nat (length (log d ?r))" "RunID e' = ?r" "ID e' = ID e"
    "PrevHash e' = tip zero_hash (log d ?r)" "same_content e e'"
    by (subst e'_eq, simp add: e1_eq same_content_def)+
  have payload: "event_payload e' = event_payload e1"
    by (subst e'_eq) (simp add: event_payload_def)
  have ok: "event_ok e'"
    using e same_content_ok [OF fields(5)] by simp
  have "link_ok X ?s ?r (tip zero_hash (log d ?r)) (length (log d ?r)) e'"
    using fields sig ok hash by (simp add: link_ok_def payload) (simp add: e1_eq)
  then have link: "link_ok X ?s ?r (tip zero_hash (log d ?r)) (length (log d ?r)) (norm_event X e')"
    by (rule link_ok_norm [OF X])
  have "inv d' \<and> (up d' \<longleftrightarrow> up d) \<and> ids d' = insert (ID e') (ids d)
      \<and> log d' = (log d)(RunID e' := log d (RunID e') @ [norm_event X e'])"
    by (rule store_ok [OF float_conv_of_crypto [OF X] d ok _ st]) (simp add: fields)
  then show ?thesis
    using fields chain link by (simp add: chain_from_append)
qed

lemma persist_fail:
  assumes "persistEvent strict X R p d e = (d', e', x)" and "x \<noteq> Ok ()"
  shows "d' = d"
proof -
  have "d'' = d" if "repo_StoreEvent R d v = (d'', x)" for v d''
    using store_fail [of d v d''] that assms(2) by (cases x) auto
  then show ?thesis
    using assms by (auto simp: persistEvent_def Let_def split: prod.splits outcome.splits)
qed

lemma persist_total:
  assumes X: "crypto_ok X" and s: "signer_ok X (p_signer p)" and d: "inv d" "up d" and e: "event_ok e"
    and chain: "chain_from X (p_signer p) (p_runID p) zero_hash 0 (log d (p_runID p))"
    and id: "ID e \<noteq> ''''" "ID e \<notin> ids d" and r: "p_runID p \<noteq> ''''"
    and room: "length (log d (p_runID p)) < cap"
  shows "\<exists>d' e'. persistEvent strict X R p d e = (d', e', Ok ())"
proof -
  let ?r = "p_runID p" and ?s = "p_signer p"
  have tip64: "length (tip zero_hash (log d ?r)) = 64"
    by (rule chain_tip_length [OF chain]) (simp add: zero_hash_def)
  then have "CurrentHash (last (log d ?r)) \<noteq> ''''" if "log d ?r \<noteq> []"
    using that by (auto simp: tip_def)
  then obtain e1 where e1: "assignSequenceAndPrevHash strict R d ?r e = (e1, Ok ())"
    using assign_total [OF d r] by blast
  have e1_eq: "e1 = e\<lparr>SeqIndex := of_nat (length (log d ?r)), RunID := ?r,
      PrevHash := tip zero_hash (log d ?r)\<rparr>"
    by (rule assign_Ok [OF d(1) e1])
  have ok: "event_ok e1" "length (PrevHash e1) = 64"
    using e tip64 by (simp_all add: e1_eq event_ok_def)
  obtain e2 where e2: "hashAndSignEvent strict X ?s e1 = (e2, Ok ())"
    using hashAndSign_total [OF X s ok] by blast
  have e2_eq: "e2 = e1\<lparr>CurrentHash := CurrentHash e2, Signature := Signature e2\<rparr>"
    and hash: "CalculateEventHash False X (PrevHash e1) (event_payload e1) = Ok (CurrentHash e2)"
    and sig: "Signature e2 \<noteq> ''''"
    using hashAndSign_Ok [OF X s e2] by blast+
  have fields: "ID e2 = ID e" "RunID e2 = ?r" "SeqIndex e2 = of_nat (length (log d ?r))"
    "event_ok e2 = event_ok e1"
    by (subst e2_eq, simp add: e1_eq event_ok_def)+
  have "CurrentHash e2 \<noteq> ''''"
    using CalculateEventHash_Ok_D [OF hash] by auto
  then have "snd (repo_StoreEvent R d e2) = Ok ()"
    using fields ok sig id r room by (intro store_up [OF d]) simp_all
  then show ?thesis
    using e1 e2 by (cases "repo_StoreEvent R d e2") (simp add: persistEvent_def)
qed

end

section \<open>Task tracking\<close>

text \<open>
  What tracking is meant to do: a task is open from a non-terminal state until a terminal one, and
  the event that closes an open task is followed by one completion event.
\<close>

definition tracked :: "event \<Rightarrow> bool" where
  "tracked e \<longleftrightarrow> (EventType e = ''tool_call'' \<or> EventType e = ''tool_response'') \<and> TaskID e \<noteq> ''''"

definition closes :: "string gomap \<Rightarrow> event \<Rightarrow> bool" where
  "closes ts e \<longleftrightarrow> tracked e \<and> isTerminalState (TaskState e) \<and> gm_lookup ts (TaskID e) \<noteq> None"

definition task_next :: "event \<Rightarrow> string gomap \<Rightarrow> string gomap" where
  "task_next e ts =
     (if \<not> tracked e then ts
      else if isTerminalState (TaskState e) then gm_delete (TaskID e) ts
      else gm_update (TaskID e) (TaskState e) ts)"

definition tasks_ok :: "string gomap \<Rightarrow> bool" where
  "tasks_ok ts \<longleftrightarrow> gm_wf ts \<and> (\<forall>(t, s) \<in> set ts. \<not> isTerminalState s)"

lemma gm_update_set: "set (gm_update k v m) \<subseteq> insert (k, v) (set m)"
  by (induction k v m rule: gm_update.induct) auto

lemma tasks_ok_next: "tasks_ok ts \<Longrightarrow> tasks_ok (task_next e ts)"
  using gm_update_set [of "TaskID e" "TaskState e" ts]
  by (auto simp: tasks_ok_def task_next_def gm_delete_def simp del: gm_lookup_delete
      dest: gm_wf_delete [of ts "TaskID e", unfolded gm_delete_def])

lemma tasks_ok_lookup: "tasks_ok ts \<Longrightarrow> gm_lookup ts t = Some s \<Longrightarrow> \<not> isTerminalState s"
  by (auto simp: tasks_ok_def dest: map_of_SomeD)

lemma gm_delete_absent: "gm_lookup ts t = None \<Longrightarrow> gm_delete t ts = ts"
  by (auto simp: gm_delete_def map_of_eq_None_iff intro!: filter_True rev_image_eqI)

lemma task_lookup_next:
  "gm_lookup (task_next e ts) t =
     (if tracked e \<and> TaskID e = t
      then if isTerminalState (TaskState e) then None else Some (TaskState e)
      else gm_lookup ts t)"
  by (auto simp: task_next_def)

lemma completion_event_ok:
  assumes "clean_event e" and "valid_time (f_now fr)"
  shows "event_ok (completion_event fr e t s)"
    and "go_len (Params (completion_event fr e t s)) = 2"
    and "go_len (Response (completion_event fr e t s)) = 0"
    and "\<exists>m. Params (completion_event fr e t s) = Some m \<and> gm_wf m"
    and "Response (completion_event fr e t s) \<in> {None, Some []}"
  using assms
  by (auto simp: completion_event_def make_params_def clean_event_def event_ok_def map_ok_def map_value_def
      max_nesting_def go_len_def less_char_def gm_wf_def)

lemma completion_event_fields:
  "ID (completion_event fr e t s) = take 8 (f_uuid fr)"
  "EventType (completion_event fr e t s) = ''task_terminal''"
  "TaskID (completion_event fr e t s) = t" "TaskState (completion_event fr e t s) = s"
  by (simp_all add: completion_event_def Let_def make_params_def)

lemma PutEvent_completion:
  assumes "clean_pools ps" and "clean_event e" and "valid_time (f_now fr)"
    and "same_content (completion_event fr e t s) e'"
  shows "snd (PutEvent strict ps (Some e')) = Ok () \<and> clean_pools (fst (PutEvent strict ps (Some e')))"
proof -
  note c = completion_event_ok [OF assms(2,3), of t s] same_content_fields [OF assms(4)]
  have small: "go_len (Params e') \<le> 256" "go_len (Response e') \<le> 256"
    and wf: "\<forall>m. Params e' = Some m \<longrightarrow> gm_wf m" "\<forall>m. Response e' = Some m \<longrightarrow> gm_wf m"
    using c by auto
  show ?thesis
    using PutEvent_small [OF small wf, of strict ps] PutEvent_clean [OF assms(1) wf, of strict]
    by (metis snd_conv)
qed

section \<open>Processing one event\<close>

context event_repository
begin

text \<open>
  \<open>extends r es d d'\<close>: only run \<open>r\<close> grew, by \<open>es\<close>. \<open>ledger p d\<close>: the run of the processor is a chain
  under its key.
\<close>

definition extends :: "string \<Rightarrow> event list \<Rightarrow> 'db \<Rightarrow> 'db \<Rightarrow> bool" where
  "extends r es d d' \<longleftrightarrow> log d' = (log d)(r := log d r @ es)"

definition ledger :: "processor \<Rightarrow> 'db \<Rightarrow> bool" where
  "ledger p d \<longleftrightarrow> inv d \<and> chain_from X (p_signer p) (p_runID p) zero_hash 0 (log d (p_runID p))"

lemma extends_refl: "extends r [] d d"
  by (simp add: extends_def)

lemma extends_trans: "extends r es d d' \<Longrightarrow> extends r fs d' d'' \<Longrightarrow> extends r (es @ fs) d d''"
  by (simp add: extends_def)

text \<open>Every outcome of a write: the event is appended, or nothing changes.\<close>

lemma persist_cases:
  assumes "crypto_ok X" "signer_ok X (p_signer p)" "event_ok e" "ledger p d"
    and res: "persistEvent strict X R p d e = (d', e', x)"
  shows "ledger p d' \<and> (x \<noteq> Ok () \<longrightarrow> d' = d)
    \<and> (x = Ok () \<longrightarrow> same_content e e' \<and> extends (p_runID p) [norm_event X e'] d d')"
proof (cases "x = Ok ()")
  case True
  then show ?thesis
    using persist_Ok [of p d e strict d' e'] assms unfolding ledger_def extends_def by blast
next
  case False
  then show ?thesis using persist_fail [OF res] assms(4) by simp
qed

lemma create_cases:
  assumes X: "crypto_ok X" "signer_ok X (p_signer p)" and d: "ledger p d" and ps: "clean_pools ps"
    and now: "valid_time (f_now fr)" and t: "t \<noteq> ''''" "st \<noteq> ''''"
    and res: "createTaskCompletionEvent strict X R p fr d ps t st = (d', ps', x)"
  shows "ledger p d' \<and> clean_pools ps'
    \<and> (extends (p_runID p) [] d d' \<and> (strict \<longrightarrow> is_panic x)
       \<or> x = Ok () \<and> (\<exists>c. EventType c = ''task_terminal'' \<and> TaskID c = t \<and> TaskState c = st
            \<and> extends (p_runID p) [c] d d'))"
proof -
  obtain ps1 e where get: "GetEvent (f_pick fr) ps = (ps1, e)" by fastforce
  have clean: "clean_event e" "clean_pools ps1"
    using GetEvent_clean [OF ps, of "f_pick fr"] by (simp_all add: get)
  let ?c = "completion_event fr e t st"
  obtain d1 e' y where per: "persistEvent strict X R p d ?c = (d1, e', y)"
    by (metis prod_cases3)
  note cases = persist_cases [OF X completion_event_ok(1) [OF clean(1) now] d per]
  show ?thesis
  proof (cases y)
    case (Ok u)
    then have d1: "ledger p d1" "same_content ?c e'" "extends (p_runID p) [norm_event X e'] d d1"
      using cases by auto
    have "(d', ps', x) = (d1, fst (PutEvent strict ps1 (Some e')), Ok ())"
      using res PutEvent_completion [OF clean(2,1) now d1(2), of strict]
      by (simp add: createTaskCompletionEvent_def t get per Ok Let_def split: prod.splits)
    moreover have "EventType (norm_event X e') = ''task_terminal''" "TaskID (norm_event X e') = t"
      "TaskState (norm_event X e') = st"
      using same_content_fields [OF d1(2)] by (simp_all add: norm_event_def completion_event_fields)
    ultimately show ?thesis
      using d1 PutEvent_completion [OF clean(2,1) now d1(2), of strict] by auto
  next
    case (Err z)
    note put = PutEvent_completion [OF clean(2,1) now persist_content [OF per], of strict]
    show ?thesis
      using res cases clean(2) d put
      by (auto simp: createTaskCompletionEvent_def t get per Err extends_refl Let_def
          split: outcome.splits prod.splits)
  next
    case (Panic z)
    then show ?thesis
      using res cases clean(2) d
      by (auto simp: createTaskCompletionEvent_def t get per extends_refl)
  qed
qed

end

context event_repository
begin

lemma track_cases:
  assumes X: "crypto_ok X" "signer_ok X (p_signer p)" and d: "ledger p d" and ps: "clean_pools ps"
    and now: "valid_time (f_now fr)" and ts: "tasks_ok (p_taskStates p)" and e: "tracked e"
    and res: "trackTaskState strict X R fr p d ps e = (p', d', ps', x)"
  shows "ledger p d' \<and> clean_pools ps'
    \<and> (\<exists>cs. extends (p_runID p) cs d d' \<and> (x = Ok () \<longrightarrow> p' = p\<lparr>p_taskStates := task_next e (p_taskStates p)\<rparr>)
       \<and> (x \<noteq> Ok () \<longrightarrow> p' = p) \<and> (\<not> closes (p_taskStates p) e \<longrightarrow> cs = [] \<and> x = Ok ())
       \<and> (cs = [] \<or> (\<exists>c. cs = [c] \<and> EventType c = ''task_terminal'' \<and> TaskID c = TaskID e
                        \<and> TaskState c = TaskState e))
       \<and> (strict \<longrightarrow> closes (p_taskStates p) e \<longrightarrow> x = Ok () \<longrightarrow> cs \<noteq> []))"
proof -
  have t: "TaskID e \<noteq> ''''" using e by (simp add: tracked_def)
  show ?thesis
  proof (cases "closes (p_taskStates p) e")
    case False
    have "\<not> (isTerminalState (TaskState e) \<and> (\<exists>s. gm_lookup (p_taskStates p) (TaskID e) = Some s))"
      using False e by (auto simp: closes_def)
    then have "(p', d', ps', x) = (p\<lparr>p_taskStates := task_next e (p_taskStates p)\<rparr>, d, ps, Ok ())"
      using res e t gm_delete_absent [of "p_taskStates p" "TaskID e"]
      by (cases "isTerminalState (TaskState e)")
        (auto simp: trackTaskState_def task_next_def split: option.splits)
    then show ?thesis
      using False d ps extends_refl by auto
  next
    case True
    then obtain s where s: "gm_lookup (p_taskStates p) (TaskID e) = Some s"
      and fin: "isTerminalState (TaskState e)"
      by (auto simp: closes_def)
    then have ne: "s \<noteq> TaskState e" "TaskState e \<noteq> ''''"
      using tasks_ok_lookup [OF ts s] by (auto simp: isTerminalState_def)
    obtain d1 ps1 y
      where c: "createTaskCompletionEvent strict X R p fr d ps (TaskID e) (TaskState e) = (d1, ps1, y)"
      by (metis prod_cases3)
    have "(p', d', ps', x) = (case y of Panic z \<Rightarrow> (p, d1, ps1, Panic z)
        | _ \<Rightarrow> (p\<lparr>p_taskStates := task_next e (p_taskStates p)\<rparr>, d1, ps1, Ok ()))"
      using res s fin ne t e by (auto simp: trackTaskState_def c task_next_def split: outcome.splits)
    then show ?thesis
      using create_cases [OF X d ps now t ne(2) c] True
      by (cases y) auto
  qed
qed

text \<open>With no fault pending, unused identifiers and room in the run, the completion event is written.\<close>

lemma create_total:
  assumes X: "crypto_ok X" "signer_ok X (p_signer p)" and d: "ledger p d" "up d" and ps: "clean_pools ps"
    and now: "valid_time (f_now fr)" and t: "t \<noteq> ''''" "st \<noteq> ''''"
    and id: "take 8 (f_uuid fr) \<noteq> ''''" "take 8 (f_uuid fr) \<notin> ids d" and r: "p_runID p \<noteq> ''''"
    and room: "length (log d (p_runID p)) < cap"
  shows "\<exists>d' ps'. createTaskCompletionEvent strict X R p fr d ps t st = (d', ps', Ok ())
    \<and> up d' \<and> ids d' = insert (take 8 (f_uuid fr)) (ids d)"
proof -
  obtain ps1 e where get: "GetEvent (f_pick fr) ps = (ps1, e)" by fastforce
  have clean: "clean_event e" "clean_pools ps1"
    using GetEvent_clean [OF ps, of "f_pick fr"] by (simp_all add: get)
  let ?c = "completion_event fr e t st"
  obtain d1 e' where per: "persistEvent strict X R p d ?c = (d1, e', Ok ())"
    using persist_total [OF X _ d(2) completion_event_ok(1) [OF clean(1) now, of t st], where strict = strict] d(1) id r room
    by (auto simp: ledger_def completion_event_fields)
  have "up d1" "ids d1 = insert (take 8 (f_uuid fr)) (ids d)"
    using persist_Ok [OF X _ completion_event_ok(1) [OF clean(1) now] _ per] d by (simp_all add: ledger_def completion_event_fields)
  then show ?thesis
    using PutEvent_completion [OF clean(2,1) now persist_content [OF per], of strict]
    by (cases "PutEvent strict ps1 (Some e')") (simp add: createTaskCompletionEvent_def t get per)
qed

lemma track_total:
  assumes X: "crypto_ok X" "signer_ok X (p_signer p)" and d: "ledger p d" "up d" and ps: "clean_pools ps"
    and now: "valid_time (f_now fr)" and ts: "tasks_ok (p_taskStates p)" and e: "tracked e"
    and r: "p_runID p \<noteq> ''''"
    and fin: "closes (p_taskStates p) e \<longrightarrow> take 8 (f_uuid fr) \<noteq> '''' \<and> take 8 (f_uuid fr) \<notin> ids d
      \<and> length (log d (p_runID p)) < cap"
  shows "\<exists>p' d' ps'. trackTaskState strict X R fr p d ps e = (p', d', ps', Ok ())
    \<and> up d' \<and> ids d' \<subseteq> insert (take 8 (f_uuid fr)) (ids d)"
proof (cases "closes (p_taskStates p) e")
  case False
  then show ?thesis
    using e d(2) by (auto simp: trackTaskState_def closes_def tracked_def Let_def split: option.splits)
next
  case True
  then have st: "TaskState e \<noteq> ''''" "TaskID e \<noteq> ''''"
    using e by (auto simp: closes_def tracked_def isTerminalState_def)
  obtain d1 ps1
    where "createTaskCompletionEvent strict X R p fr d ps (TaskID e) (TaskState e) = (d1, ps1, Ok ())"
      "up d1" "ids d1 = insert (take 8 (f_uuid fr)) (ids d)"
    using create_total [OF X d ps now st(2,1) _ _ r] fin True by blast
  then show ?thesis
    using st True d(2) by (auto simp: trackTaskState_def closes_def Let_def)
qed

end

text \<open>What the ledger gains when event \<open>e\<close> has been processed while the tasks \<open>ts\<close> were open.\<close>

definition gains :: "bool \<Rightarrow> ('a) float_conv_scheme \<Rightarrow> string gomap \<Rightarrow> event \<Rightarrow> event list \<Rightarrow> bool" where
  "gains strict F ts e es \<longleftrightarrow>
     (\<exists>e' cs. es = norm_event F e' # cs \<and> same_content e e'
        \<and> (\<not> closes ts e \<longrightarrow> cs = []) \<and> (strict \<longrightarrow> closes ts e \<longrightarrow> cs \<noteq> [])
        \<and> (cs = [] \<or> (\<exists>c. cs = [c] \<and> EventType c = ''task_terminal'' \<and> TaskID c = TaskID e
                         \<and> TaskState c = TaskState e)))"

text \<open>
  What the ledger gains over a whole sequence of events: the groups of the single events, in order, each
  judged with the tasks that the events before it left open.
\<close>

fun recorded :: "bool \<Rightarrow> ('a) float_conv_scheme \<Rightarrow> string gomap \<Rightarrow> event list \<Rightarrow> event list \<Rightarrow> bool" where
  "recorded strict F ts [] es \<longleftrightarrow> es = []"
| "recorded strict F ts (e # evs) es \<longleftrightarrow>
     (\<exists>a b. es = a @ b \<and> gains strict F ts e a \<and> recorded strict F (task_next e ts) evs b)"

lemma recorded_snoc:
  "recorded strict F ts evs es \<Longrightarrow> gains strict F (fold task_next evs ts) e a \<Longrightarrow>
     recorded strict F ts (evs @ [e]) (es @ a)"
proof (induction evs arbitrary: ts es)
  case (Cons f evs)
  then obtain b c where "es = b @ c" "gains strict F ts f b" "recorded strict F (task_next f ts) evs c" by auto
  moreover from this have "recorded strict F (task_next f ts) (evs @ [e]) (c @ a)"
    using Cons.IH [of "task_next f ts" c] Cons.prems(2) by simp
  ultimately show ?case
    by (metis append.assoc append_Cons recorded.simps(2))
qed auto

lemma tracked_content: "same_content e e' \<Longrightarrow> tracked e' = tracked e \<and> closes ts e' = closes ts e
    \<and> task_next e' ts = task_next e ts"
  by (auto simp: tracked_def closes_def task_next_def dest!: same_content_fields)

context event_repository
begin

lemma process_cases:
  assumes X: "crypto_ok X" "signer_ok X (p_signer p)" and d: "ledger p d" and ps: "clean_pools ps"
    and now: "valid_time (f_now fr)" and ts: "tasks_ok (p_taskStates p)" and e: "event_ok e"
    and res: "ProcessEvent strict X R fr p d ps (Some e) = (p', d', ps', ptr, x)"
  shows "ledger p d' \<and> clean_pools ps' \<and> tasks_ok (p_taskStates p')
    \<and> p_runID p' = p_runID p \<and> p_signer p' = p_signer p
    \<and> (\<exists>e'. ptr = Some e' \<and> same_content e e')
    \<and> (\<exists>es. extends (p_runID p) es d d' \<and> length es \<le> 2
        \<and> (x = Ok () \<longrightarrow> gains strict X (p_taskStates p) e es
             \<and> p_taskStates p' = task_next e (p_taskStates p)))"
proof -
  let ?ts = "p_taskStates p"
  obtain d1 e1 y where per: "persistEvent strict X R p d e = (d1, e1, y)"
    by (metis prod_cases3)
  have same: "same_content e e1" by (rule persist_content [OF per])
  note c = persist_cases [OF X e d per]
  note same_tr = tracked_content [OF same, of ?ts]
  show ?thesis
  proof (cases "y = Ok () \<and> tracked e1")
    case False
    have "(d', ps', ptr) = (d1, ps, Some e1) \<and> p' = p \<and> x = y"
      using False res per by (cases y) (auto simp: ProcessEvent_def tracked_def)
    moreover have "gains strict X ?ts e [norm_event X e1] \<and> task_next e ?ts = ?ts" if "y = Ok ()"
      using that False same same_tr by (auto simp: gains_def closes_def task_next_def)
    ultimately show ?thesis
      using c ps ts same extends_refl [of "p_runID p" d]
      by (cases "y = Ok ()") (auto intro: exI [of _ "[norm_event X e1]"] exI [of _ "[]"])
  next
    case True
    then have d1: "ledger p d1" "extends (p_runID p) [norm_event X e1] d d1"
      and y: "y = Ok ()" and tr: "tracked e1"
      using c by simp_all
    obtain p2 d2 ps2 z where trk: "trackTaskState strict X R fr p d1 ps e1 = (p2, d2, ps2, z)"
      by (metis prod_cases4)
    have eq: "(p', d', ps', ptr, x) = (p2, d2, ps2, Some e1, z)"
      using res per y tr trk by (simp add: ProcessEvent_def tracked_def)
    from track_cases [OF X d1(1) ps now ts tr trk]
    obtain cs where d2: "ledger p d2" "clean_pools ps2" "extends (p_runID p) cs d1 d2"
      and p2: "z = Ok () \<Longrightarrow> p2 = p\<lparr>p_taskStates := task_next e ?ts\<rparr>" "z \<noteq> Ok () \<Longrightarrow> p2 = p"
      and cs: "\<not> closes ?ts e \<longrightarrow> cs = []" "strict \<longrightarrow> closes ?ts e \<longrightarrow> z = Ok () \<longrightarrow> cs \<noteq> []"
        "cs = [] \<or> (\<exists>c. cs = [c] \<and> EventType c = ''task_terminal'' \<and> TaskID c = TaskID e
           \<and> TaskState c = TaskState e)"
      using same_tr same_content_fields [OF same] by metis
    have "extends (p_runID p) (norm_event X e1 # cs) d d2"
      using extends_trans [OF d1(2) d2(3)] by simp
    moreover have "length (norm_event X e1 # cs) \<le> 2" using cs(3) by auto
    moreover have "gains strict X ?ts e (norm_event X e1 # cs)" if "z = Ok ()"
      using that cs same by (auto simp: gains_def)
    ultimately show ?thesis
      using eq d2 p2 ts tasks_ok_next [OF ts, of e] same
      by (cases "z = Ok ()") auto
  qed
qed

end

end
