(* ===== verification/Anchor_Fetch.thy ===== *)
theory Anchor_Fetch
  imports Json_Values Go_Assert
begin

text \<open>
  Bitcoin anchors, \<^verbatim>\<open>src/internal/ledger/audit/anchor.go\<close> and the fetch at a height in \<^verbatim>\<open>verify.go\<close>. The
  block explorer is the argument \<open>get\<close>: what a GET of a URL returns, with the error closing the body
  gives.
\<close>

record Anchor =
  an_Source :: string
  an_BlockHeight :: u64
  an_BlockHash :: string
  an_Timestamp :: gotime

record http_resp =
  resp_status :: int
  resp_body :: string
  resp_close_err :: "error option"

type_synonym http_get = "string \<Rightarrow> http_resp outcome"

text \<open>
  \<^verbatim>\<open>json.NewDecoder(body).Decode(&height)\<close> into a \<^verbatim>\<open>uint64\<close>: the first value of the stream, which must be
  \<^verbatim>\<open>null\<close> (leaving zero) or an integer literal in range. What follows it is not read.
\<close>

definition decode_uint64 :: "string \<Rightarrow> u64 outcome" where
  "decode_uint64 body =
     (let s = skip_ws body in
      if s = [] then Err (ErrorString ''EOF'')
      else if strip_lit ''null'' s \<noteq> None then Ok 0
      else case scan_number s of
             None \<Rightarrow> Err (ErrorString ''invalid JSON'')
           | Some (t, _) \<Rightarrow>
               if list_all is_digit t \<and> read_digits t < 2 ^ 64 then Ok (of_nat (read_digits t))
               else Err (ErrorString ''json: cannot unmarshal number into Go value of type uint64''))"

text \<open>\<^verbatim>\<open>fmt.Fscan(body, &hash)\<close>: the first run of characters between blanks.\<close>

definition is_blank :: "char \<Rightarrow> bool" where
  "is_blank c \<longleftrightarrow> c \<in> {CHR '' '', CHR 0x09, CHR 0x0A, CHR 0x0B, CHR 0x0C, CHR 0x0D}"

definition fscan_word :: "string \<Rightarrow> string outcome" where
  "fscan_word body =
     (case takeWhile (\<lambda>c. \<not> is_blank c) (dropWhile is_blank body) of
        [] \<Rightarrow> Err (ErrorString ''unexpected newline or EOF'')
      | w \<Rightarrow> Ok w)"

definition closeBody :: "http_resp \<Rightarrow> string \<Rightarrow> unit outcome" where
  "closeBody resp context =
     (case resp_close_err resp of
        Some e \<Rightarrow> Err (Wrap (''closing '' @ context) e)
      | None \<Rightarrow> Ok ())"

text \<open>An error \<open>e\<close> after which the body is closed: \<^verbatim>\<open>"msg; %w"\<close> when closing fails too.\<close>

definition fail_close :: "http_resp \<Rightarrow> string \<Rightarrow> string \<Rightarrow> error \<Rightarrow> 'a outcome" where
  "fail_close resp context msg e =
     (case closeBody resp context of
        Err c \<Rightarrow> Err (ErrorString (msg @ ''; '' @ error_msg c))
      | _ \<Rightarrow> Err e)"

definition height_url :: "u64 \<Rightarrow> string" where
  "height_url h = ''https://blockstream.info/api/block-height/'' @ show_nat (unat h)"

definition FetchBitcoinAnchor :: "http_get \<Rightarrow> gotime \<Rightarrow> Anchor outcome" where
  "FetchBitcoinAnchor get now =
     bind_outcome (wrap_err ''fetching tip height'' (get ''https://blockstream.info/api/blocks/tip/height'')) (\<lambda>resp.
     if resp_status resp \<noteq> 200
     then (let msg = ''blockstream api error: '' @ show_int (resp_status resp)
           in fail_close resp ''tip height response'' msg (ErrorString msg))
     else case decode_uint64 (resp_body resp) of
       Panic e \<Rightarrow> Panic e
     | Err e \<Rightarrow> fail_close resp ''tip height response'' (''decoding height: '' @ error_msg e)
                  (Wrap ''decoding height'' e)
     | Ok height \<Rightarrow>
         bind_outcome (closeBody resp ''tip height response'') (\<lambda>_.
         bind_outcome (wrap_err ''fetching block hash'' (get (height_url height))) (\<lambda>resp2.
         case fscan_word (resp_body resp2) of
           Panic e \<Rightarrow> Panic e
         | Err e \<Rightarrow> fail_close resp2 ''block hash response'' (''reading block hash: '' @ error_msg e) e
         | Ok hash \<Rightarrow>
             bind_outcome (closeBody resp2 ''block hash response'') (\<lambda>_.
             Ok \<lparr>an_Source = ''bitcoin-mainnet'', an_BlockHeight = height, an_BlockHash = hash,
                 an_Timestamp = now\<rparr>))))"

definition FetchBitcoinAnchorAtHeight :: "http_get \<Rightarrow> gotime \<Rightarrow> u64 \<Rightarrow> Anchor outcome" where
  "FetchBitcoinAnchorAtHeight get now height =
     bind_outcome (wrap_err ''fetching block hash'' (get (height_url height))) (\<lambda>resp.
     if resp_status resp \<noteq> 200
     then (let msg = ''blockstream api error: '' @ show_int (resp_status resp)
           in fail_close resp ''block hash response'' msg (ErrorString msg))
     else case fscan_word (resp_body resp) of
       Panic e \<Rightarrow> Panic e
     | Err e \<Rightarrow> fail_close resp ''block hash response'' (''reading block hash: '' @ error_msg e) e
     | Ok hash \<Rightarrow>
         bind_outcome (closeBody resp ''block hash response'') (\<lambda>_.
         Ok \<lparr>an_Source = ''bitcoin-mainnet'', an_BlockHeight = height, an_BlockHash = hash,
             an_Timestamp = now\<rparr>))"

section \<open>Lemmas\<close>

lemma skip_ws_show_nat [simp]: "skip_ws (show_nat n) = show_nat n"
proof -
  obtain c r where "show_nat n = c # r" "is_digit c"
    using show_nat_digits [of n] by (cases "show_nat n") auto
  then show ?thesis
    by (auto simp: skip_ws_def is_ws_def is_digit_def cv_def)
qed

text \<open>A fetched anchor names a non-empty hash without blanks and the time of the fetch.\<close>

lemma fscan_word_Ok: "fscan_word b = Ok w \<Longrightarrow> w \<noteq> [] \<and> list_all (\<lambda>c. \<not> is_blank c) w"
  by (auto simp: fscan_word_def list_all_iff split: list.splits dest: set_takeWhileD
      simp flip: list.set_intros)

lemma fail_close_not_Ok [simp]: "fail_close r c m e \<noteq> Ok x"
  by (simp add: fail_close_def split: outcome.splits)

lemma FetchBitcoinAnchor_Ok:
  assumes "FetchBitcoinAnchor get now = Ok a"
  shows "an_Source a = ''bitcoin-mainnet'' \<and> an_BlockHash a \<noteq> '''' \<and> an_Timestamp a = now"
  using assms
  by (auto simp: FetchBitcoinAnchor_def outcome_simps case_outcome_Ok_iff Let_def split: if_splits
      dest!: fscan_word_Ok)

end
