(* ===== verification/Genesis_Block.thy ===== *)
theory Genesis_Block
  imports Event_Processor Anchor_Fetch
begin

text \<open>
  The first event of a run, \<^verbatim>\<open>CreateGenesisBlock\<close> of \<^verbatim>\<open>src/internal/ledger/genesis.go\<close>. The run's
  identifier and the event's identifier are two calls of \<^verbatim>\<open>uuid.New()\<close>; the result of fetching the
  Bitcoin anchor is an argument. The deferred \<^verbatim>\<open>pool.PutEvent\<close> runs however the function ends.
\<close>

definition anchor_params :: "Anchor \<Rightarrow> (string \<times> goval) list" where
  "anchor_params a =
     [(''anchor_source'', GStr (an_Source a)), (''anchor_height'', GUint (an_BlockHeight a)),
      (''anchor_hash'', GStr (an_BlockHash a)), (''anchor_time'', GTime (an_Timestamp a))]"

text \<open>The event before it is hashed, or the panic of a write to a nil map.\<close>

definition genesis_event :: "signer \<Rightarrow> fresh \<Rightarrow> string \<Rightarrow> Anchor outcome \<Rightarrow> string \<Rightarrow> event \<Rightarrow> event outcome" where
  "genesis_event s fr runID anchor agentName e =
     bind_outcome (set_params
        [(''public_key'', GStr (GetPublicKey s)), (''agent_name'', GStr agentName), (''version'', GStr ''1.0.0'')]
        (e\<lparr>ID := f_uuid fr, RunID := runID, SeqIndex := 0, Timestamp := f_now fr, Actor := ''system'',
           EventType := ''genesis'', Method := ''logryph:init''\<rparr>)) (\<lambda>e1.
     let e2 = e1\<lparr>PrevHash := zero_hash, WasBlocked := False\<rparr> in
     (case anchor of
        Panic x \<Rightarrow> Panic x
      | Err x \<Rightarrow> Ok e2
      | Ok a \<Rightarrow> set_params (anchor_params a) e2))"

definition CreateGenesisBlock ::
    "bool \<Rightarrow> ('a) crypto_env_scheme \<Rightarrow> 'db repository \<Rightarrow> signer \<Rightarrow> fresh \<Rightarrow> string \<Rightarrow> Anchor outcome
       \<Rightarrow> 'db \<Rightarrow> pools \<Rightarrow> string \<Rightarrow> 'db \<times> pools \<times> string outcome" where
  "CreateGenesisBlock strict X R s fr runID anchor d ps agentName =
     (let (ps1, e0) = GetEvent (f_pick fr) ps;
          (d', e, res) =
            (case genesis_event s fr runID anchor agentName e0 of
               Panic x \<Rightarrow> (d, e0, Panic x)
             | Err x \<Rightarrow> (d, e0, Err x)
             | Ok e1 \<Rightarrow>
                 (case wrap_err ''calculating genesis hash''
                         (CalculateEventHash strict X (PrevHash e1) (event_payload e1)) of
                    Panic x \<Rightarrow> (d, e1, Panic x)
                  | Err x \<Rightarrow> (d, e1, Err x)
                  | Ok currentHash \<Rightarrow>
                      (case wrap_err ''signing genesis hash'' (SignHash X s currentHash) of
                         Panic x \<Rightarrow> (d, e1, Panic x)
                       | Err x \<Rightarrow> (d, e1, Err x)
                       | Ok signature \<Rightarrow>
                           (let e2 = e1\<lparr>CurrentHash := currentHash, Signature := signature\<rparr> in
                            case repo_InsertRun R d runID agentName currentHash (GetPublicKey s) of
                              (d1, Panic x) \<Rightarrow> (d1, e2, Panic x)
                            | (d1, Err x) \<Rightarrow> (d1, e2, Err (Wrap ''inserting run'' x))
                            | (d1, Ok _) \<Rightarrow>
                                (case repo_StoreEvent R d1 e2 of
                                   (d2, Panic x) \<Rightarrow> (d2, e2, Panic x)
                                 | (d2, Err x) \<Rightarrow> (d2, e2, Err (Wrap ''inserting genesis event'' x))
                                 | (d2, Ok _) \<Rightarrow> (d2, e2, Ok runID))))));
          (ps2, put) = PutEvent strict ps1 (Some e)
      in (d', ps2, case put of Panic x \<Rightarrow> Panic x | _ \<Rightarrow> res))"

section \<open>Lemmas\<close>

lemma set_params_Some:
  "Params e = Some m \<Longrightarrow> set_params kvs e = Ok (e\<lparr>Params := Some (gm_of_list kvs m)\<rparr>)"
proof (induction kvs arbitrary: e m)
  case (Cons kv kvs)
  obtain k v where "kv = (k, v)" by fastforce
  then show ?case
    using Cons.IH [of "e\<lparr>Params := Some (gm_update k v m)\<rparr>" "gm_update k v m"] Cons.prems
    by (simp add: set_param_def)
qed simp

lemma genesis_event_Ok:
  assumes "clean_event e0" and "valid_time (f_now fr)"
    and "\<forall>a. anchor = Ok a \<longrightarrow> valid_time (an_Timestamp a)"
    and "genesis_event s fr runID anchor agentName e0 = Ok e1"
  shows "event_ok e1 \<and> ID e1 = f_uuid fr \<and> RunID e1 = runID \<and> SeqIndex e1 = 0 \<and> PrevHash e1 = zero_hash
    \<and> EventType e1 = ''genesis'' \<and> Actor e1 = ''system'' \<and> go_len (Params e1) \<le> 256 \<and> go_len (Response e1) \<le> 256
    \<and> (\<exists>m. Params e1 = Some m \<and> gm_wf m \<and> gm_lookup m ''public_key'' = Some (GStr (GetPublicKey s))
         \<and> gm_lookup m ''agent_name'' = Some (GStr agentName))
    \<and> Response e1 \<in> {None, Some []}"
proof -
  have m: "Params e0 = Some []"
    using assms(1,4) by (auto simp: clean_event_def genesis_event_def set_param_def)
  note defs = genesis_event_def set_param_def anchor_params_def event_ok_def map_ok_def map_value_def
    max_nesting_def go_len_def less_char_def gm_wf_def clean_event_def
  show ?thesis
    using assms by (cases anchor) (auto simp: m defs split: option.splits)
qed

lemma genesis_event_exists:
  assumes "Params e0 = Some []" and "\<not> is_panic anchor"
  shows "\<exists>e1. genesis_event s fr runID anchor agentName e0 = Ok e1"
  using assms by (cases anchor) (simp_all add: genesis_event_def set_param_def anchor_params_def)

context event_repository
begin

text \<open>A created run holds exactly its genesis event, and that is a chain under the signer's key.\<close>

lemma genesis_Ok:
  assumes X: "crypto_ok X" and s: "signer_ok X s" and d: "inv d" and new: "log d runID = []"
    and ps: "clean_pools ps" and now: "valid_time (f_now fr)"
    and anchor: "\<forall>a. anchor = Ok a \<longrightarrow> valid_time (an_Timestamp a)"
    and res: "CreateGenesisBlock strict X R s fr runID anchor d ps agentName = (d', ps', Ok r)"
  shows "r = runID \<and> inv d' \<and> (up d' \<longleftrightarrow> up d) \<and> ids d' = insert (f_uuid fr) (ids d) \<and> clean_pools ps'
    \<and> (\<exists>g. log d' = (log d)(runID := [g]) \<and> EventType g = ''genesis''
         \<and> chain_from X s runID zero_hash 0 (log d' runID))"
proof -
  obtain ps1 e0 where get: "GetEvent (f_pick fr) ps = (ps1, e0)" by fastforce
  have clean: "clean_event e0" "clean_pools ps1"
    using GetEvent_clean [OF ps, of "f_pick fr"] by (simp_all add: get)
  obtain e1 where e1: "genesis_event s fr runID anchor agentName e0 = Ok e1"
    using res by (auto simp: CreateGenesisBlock_def get Let_def split: outcome.splits prod.splits)
  note g = genesis_event_Ok [OF clean(1) now anchor e1]
  obtain h where h: "CalculateEventHash strict X (PrevHash e1) (event_payload e1) = Ok h"
    using res e1 by (auto simp: CreateGenesisBlock_def get Let_def outcome_simps
        split: outcome.splits prod.splits)
  obtain sg where sg: "SignHash X s h = Ok sg" "sg \<noteq> ''''" "VerifySignature X s h sg = Ok True"
    using SignHash_verifies [OF X s] by blast
  let ?e = "e1\<lparr>CurrentHash := h, Signature := sg\<rparr>"
  obtain d1 y where run: "repo_InsertRun R d runID agentName h (GetPublicKey s) = (d1, y)" by fastforce
  obtain d2 z where st: "repo_StoreEvent R d1 ?e = (d2, z)" by fastforce
  have out: "y = Ok ()" "z = Ok ()" "d' = d2" "r = runID" "ps' = fst (PutEvent strict ps1 (Some ?e))"
    using res by (auto simp: CreateGenesisBlock_def get e1 h sg run st Let_def
        split: outcome.splits prod.splits)
  have d1: "log d1 = log d" "inv d1" "up d1 \<longleftrightarrow> up d" "ids d1 = ids d"
    using run_keeps [OF run] d by simp_all
  have e: "event_ok ?e" "SeqIndex ?e = of_nat (length (log d1 (RunID ?e)))"
    using g new d1 by (simp_all add: event_ok_def)
  have d2: "inv d2" "log d2 = (log d)(runID := [norm_event X ?e])" "up d2 \<longleftrightarrow> up d1"
    "ids d2 = insert (f_uuid fr) (ids d1)"
    using store_ok [OF float_conv_of_crypto [OF X] d1(2) e, of d2] st out(2) d1(1) new g by simp_all
  have "event_payload ?e = event_payload e1" by (simp add: event_payload_def)
  then have "link_ok X s runID zero_hash 0 ?e"
    using g e(1) sg CalculateEventHash_mode [OF h, of False] by (simp add: link_ok_def)
  then have "chain_from X s runID zero_hash 0 (log d2 runID)"
    using link_ok_norm [OF X] d2 by simp
  moreover have "clean_pools ps'"
    unfolding out using g by (intro PutEvent_clean clean(2)) auto
  moreover have "EventType (norm_event X ?e) = ''genesis''"
    using g by (simp add: norm_event_def)
  ultimately show ?thesis using d1(3,4) d2 out by (metis (no_types, lifting))
qed

lemma genesis_total:
  assumes X: "crypto_ok X" and s: "signer_ok X s" and d: "inv d" "up d" and new: "log d runID = []"
    and ps: "clean_pools ps" "Params (snd (GetEvent (f_pick fr) ps)) = Some []"
    and now: "valid_time (f_now fr)" and id: "f_uuid fr \<noteq> ''''" "f_uuid fr \<notin> ids d" "runID \<noteq> ''''"
    and anchor: "\<forall>a. anchor = Ok a \<longrightarrow> valid_time (an_Timestamp a)" "\<not> is_panic anchor"
    and room: "0 < cap"
    and run: "\<And>h. length h = 64 \<Longrightarrow> snd (repo_InsertRun R d runID agentName h (GetPublicKey s)) = Ok ()"
  shows "\<exists>d' ps'. CreateGenesisBlock strict X R s fr runID anchor d ps agentName = (d', ps', Ok runID)"
proof -
  obtain ps1 e0 where get: "GetEvent (f_pick fr) ps = (ps1, e0)" by fastforce
  have clean: "clean_event e0" "Params e0 = Some []"
    using GetEvent_clean [OF ps(1), of "f_pick fr"] ps(2) by (simp_all add: get)
  obtain e1 where e1: "genesis_event s fr runID anchor agentName e0 = Ok e1"
    using genesis_event_exists [OF clean(2) anchor(2)] by blast
  note g = genesis_event_Ok [OF clean(1) now anchor(1) e1]
  have z64: "length (PrevHash e1) = 64" using g by (simp add: zero_hash_def)
  obtain h where h: "CalculateEventHash strict X (PrevHash e1) (event_payload e1) = Ok h"
    using CalculateEventHash_Ok [OF X payload_marshalable payload_depth payload_not_nil
        valid_prev_64 [OF z64], of e1 strict] g by blast
  have h64: "length h = 64" using CalculateEventHash_Ok_D [OF h] by simp
  obtain sg where sg: "SignHash X s h = Ok sg" "sg \<noteq> ''''"
    using SignHash_verifies [OF X s] by blast
  let ?e = "e1\<lparr>CurrentHash := h, Signature := sg\<rparr>"
  obtain d1 where d1: "repo_InsertRun R d runID agentName h (GetPublicKey s) = (d1, Ok ())"
    using run [OF h64] by (metis prod.collapse)
  note k = run_keeps [OF d1]
  have "h \<noteq> ''''" using h64 by auto
  then have "snd (repo_StoreEvent R d1 ?e) = Ok ()"
    using k d g id sg new room by (intro store_up) (simp_all add: event_ok_def)
  then obtain d2 where d2: "repo_StoreEvent R d1 ?e = (d2, Ok ())" by (metis prod.collapse)
  obtain ps2 where "PutEvent strict ps1 (Some ?e) = (ps2, Ok ())"
    using PutEvent_small [of ?e strict ps1] g by auto
  then show ?thesis
    by (simp add: CreateGenesisBlock_def get e1 h sg d1 d2)
qed

end

end
