(* ===== verification/Chain_Audit.thy ===== *)
theory Chain_Audit
  imports Genesis_Block Json_Decoder
begin

text \<open>
  Verification of a stored ledger, \<^verbatim>\<open>src/internal/ledger/audit/verify.go\<close> and \<^verbatim>\<open>errors.go\<close>. The reader is
  the \<^verbatim>\<open>GetAllEvents\<close> method the caller passes, as the outcome of that call.
\<close>

section \<open>Definitions\<close>

definition ErrChainTampered :: error where
  "ErrChainTampered = ErrorString ''forensic integrity error: hash chain link broken''"

definition ErrInvalidSignature :: error where
  "ErrInvalidSignature = ErrorString ''forensic integrity error: invalid ed25519 signature''"

definition ErrHashMismatch :: error where
  "ErrHashMismatch = ErrorString ''forensic integrity error: hash mismatch (data tampered)''"

definition ErrNoEvents :: error where
  "ErrNoEvents = ErrorString ''forensic integrity error: no events found in ledger''"

record VerificationResult =
  Valid :: bool
  TotalEvents :: int
  ErrorMessage :: string
  FailedAtSeq :: u64

definition VerifyEvent ::
    "bool \<Rightarrow> ('a) crypto_env_scheme \<Rightarrow> signer \<Rightarrow> event \<Rightarrow> unit outcome" where
  "VerifyEvent strict X s event =
     bind_outcome (Check strict (Signature event \<noteq> '''')
        (''event signature must not be empty: id='' @ ID event)) (\<lambda>_.
     bind_outcome (Check strict (CurrentHash event \<noteq> '''')
        (''event current hash is missing: id='' @ ID event)) (\<lambda>_.
     bind_outcome (wrap_err ''failed to calculate hash''
        (CalculateEventHash strict X (PrevHash event) (event_payload event))) (\<lambda>calculatedHash.
     if calculatedHash \<noteq> CurrentHash event then Err ErrHashMismatch
     else bind_outcome (VerifySignature X s calculatedHash (Signature event)) (\<lambda>isValid.
          if \<not> isValid then Err ErrInvalidSignature else Ok ()))))"

definition maxVerifyEvents :: nat where
  "maxVerifyEvents = 100000"

text \<open>
  The loop of \<^verbatim>\<open>VerifyChain\<close> from position \<open>i\<close>; \<open>prev\<close> is the event before it. It stops at the first
  event that fails, and its result then says where.
\<close>

fun verify_loop ::
    "bool \<Rightarrow> ('a) crypto_env_scheme \<Rightarrow> signer \<Rightarrow> VerificationResult \<Rightarrow> nat \<Rightarrow> event option \<Rightarrow> event list
       \<Rightarrow> VerificationResult outcome" where
  "verify_loop strict X s result i prev [] = Ok result"
| "verify_loop strict X s result i prev (event # events) =
     (if (case prev of None \<Rightarrow> False | Some p \<Rightarrow> PrevHash event \<noteq> CurrentHash p)
      then Ok (result\<lparr>Valid := False, ErrorMessage := error_msg ErrChainTampered,
                      FailedAtSeq := SeqIndex event\<rparr>)
      else case VerifyEvent strict X s event of
             Panic x \<Rightarrow> Panic x
           | Err x \<Rightarrow> Ok (result\<lparr>Valid := False,
                        ErrorMessage := ''Event '' @ show_nat i @ '' (seq '' @ show_nat (unat (SeqIndex event))
                          @ '') failed verification: '' @ error_msg x,
                        FailedAtSeq := SeqIndex event\<rparr>)
           | Ok _ \<Rightarrow> verify_loop strict X s result (Suc i) (Some event) events)"

definition VerifyChain ::
    "bool \<Rightarrow> ('a) crypto_env_scheme \<Rightarrow> (string \<Rightarrow> event list outcome) \<Rightarrow> string \<Rightarrow> signer
       \<Rightarrow> VerificationResult outcome" where
  "VerifyChain strict X getAllEvents runID s =
     bind_outcome (Check strict (runID \<noteq> '''') ''runID must not be empty'') (\<lambda>_.
     bind_outcome (wrap_err ''failed to get events'' (getAllEvents runID)) (\<lambda>events.
     let result = \<lparr>Valid = True, TotalEvents = int (length events), ErrorMessage = '''', FailedAtSeq = 0\<rparr> in
     if events = [] then Ok (result\<lparr>Valid := False, ErrorMessage := error_msg ErrNoEvents\<rparr>)
     else bind_outcome (Check strict (length events \<le> maxVerifyEvents)
            (''event count exceeds max: '' @ show_nat (length events))) (\<lambda>_.
          verify_loop strict X s result 0 None (take maxVerifyEvents events))))"

section \<open>Anchors\<close>

record AnchorVerificationResult =
  AnchorValid :: bool
  AnchorsChecked :: int
  AnchorErrorMessage :: string

text \<open>\<^verbatim>\<open>event.Params[k].(string)\<close> and \<^verbatim>\<open>.(float64)\<close>: reading a nil map finds nothing.\<close>

definition param_string :: "event \<Rightarrow> string \<Rightarrow> string option" where
  "param_string e k =
     (case Params e of None \<Rightarrow> None
      | Some m \<Rightarrow> (case gm_lookup m k of Some (GStr v) \<Rightarrow> Some v | _ \<Rightarrow> None))"

definition param_float :: "event \<Rightarrow> string \<Rightarrow> u64 option" where
  "param_float e k =
     (case Params e of None \<Rightarrow> None
      | Some m \<Rightarrow> (case gm_lookup m k of Some (GFloat x) \<Rightarrow> Some x | _ \<Rightarrow> None))"

text \<open>
  \<open>to_uint\<close> is the conversion \<^verbatim>\<open>uint64(f)\<close> of a \<^verbatim>\<open>float64\<close>, whose value outside the range is up to the
  implementation; \<open>fetch\<close> is \<^verbatim>\<open>FetchBitcoinAnchorAtHeight\<close>.
\<close>

fun anchor_loop ::
    "(u64 \<Rightarrow> u64) \<Rightarrow> (u64 \<Rightarrow> Anchor outcome) \<Rightarrow> AnchorVerificationResult \<Rightarrow> event list
       \<Rightarrow> AnchorVerificationResult outcome" where
  "anchor_loop to_uint fetch result [] = Ok result"
| "anchor_loop to_uint fetch result (event # events) =
     (if EventType event \<noteq> ''genesis'' \<and> EventType event \<noteq> ''anchor''
      then anchor_loop to_uint fetch result events
      else case (param_string event ''anchor_hash'', param_float event ''anchor_height'') of
             (Some anchorHash, Some anchorHeight) \<Rightarrow>
               (let result1 = result\<lparr>AnchorsChecked := AnchorsChecked result + 1\<rparr>;
                    h = to_uint anchorHeight in
                case fetch h of
                  Panic x \<Rightarrow> Panic x
                | Err x \<Rightarrow> Ok (result1\<lparr>AnchorValid := False, AnchorErrorMessage :=
                    ''failed to verify anchor at height '' @ show_nat (unat h) @ '': '' @ error_msg x\<rparr>)
                | Ok liveAnchor \<Rightarrow>
                    if an_BlockHash liveAnchor \<noteq> anchorHash
                    then Ok (result1\<lparr>AnchorValid := False, AnchorErrorMessage :=
                      ''anchor mismatch at height '' @ show_nat (unat h) @ '': ledger='' @ anchorHash
                      @ '', live='' @ an_BlockHash liveAnchor\<rparr>)
                    else anchor_loop to_uint fetch result1 events)
           | _ \<Rightarrow> anchor_loop to_uint fetch result events)"

definition VerifyAnchors ::
    "bool \<Rightarrow> (u64 \<Rightarrow> u64) \<Rightarrow> http_get \<Rightarrow> gotime \<Rightarrow> (string \<Rightarrow> event list outcome) \<Rightarrow> string
       \<Rightarrow> AnchorVerificationResult outcome" where
  "VerifyAnchors strict to_uint get now getAllEvents runID =
     bind_outcome (wrap_err ''failed to get events for anchor verification'' (getAllEvents runID)) (\<lambda>events.
     bind_outcome (Check strict (length events \<le> 100000)
       (''anchor events exceed max: '' @ show_nat (length events))) (\<lambda>_.
     anchor_loop to_uint (FetchBitcoinAnchorAtHeight get now)
       \<lparr>AnchorValid = True, AnchorsChecked = 0, AnchorErrorMessage = ''''\<rparr> (take 100000 events)))"

section \<open>What acceptance means\<close>

text \<open>Every event passes on its own, and each links to the one before it.\<close>

fun audited :: "('a) crypto_env_scheme \<Rightarrow> signer \<Rightarrow> event option \<Rightarrow> event list \<Rightarrow> bool" where
  "audited X s prev [] \<longleftrightarrow> True"
| "audited X s prev (e # es) \<longleftrightarrow>
     (case prev of None \<Rightarrow> True | Some p \<Rightarrow> PrevHash e = CurrentHash p)
     \<and> VerifyEvent False X s e = Ok () \<and> audited X s (Some e) es"

lemma VerifyEvent_Ok_iff:
  "VerifyEvent strict X s e = Ok () \<longleftrightarrow>
     Signature e \<noteq> '''' \<and> CalculateEventHash False X (PrevHash e) (event_payload e) = Ok (CurrentHash e)
     \<and> VerifySignature X s (CurrentHash e) (Signature e) = Ok True"
proof -
  have mode: "CalculateEventHash strict X p v = Ok h \<longleftrightarrow> CalculateEventHash False X p v = Ok h" for p v h
    using CalculateEventHash_mode by blast
  have "CurrentHash e \<noteq> ''''" if "CalculateEventHash False X (PrevHash e) (event_payload e) = Ok (CurrentHash e)"
    using CalculateEventHash_Ok_D [OF that] by auto
  then show ?thesis
    by (auto simp: VerifyEvent_def outcome_simps mode split: if_splits)
qed

lemma verify_loop_valid:
  assumes "verify_loop strict X s result i prev es = Ok r" and "Valid result"
  shows "(Valid r \<longleftrightarrow> audited X s prev es) \<and> TotalEvents r = TotalEvents result"
  using assms
proof (induction es arbitrary: i prev)
  case (Cons e es)
  have mode: "VerifyEvent strict X s e = Ok () \<longleftrightarrow> VerifyEvent False X s e = Ok ()"
    by (simp add: VerifyEvent_Ok_iff)
  show ?case
    using Cons.prems Cons.IH [of "Suc i" "Some e"] mode
    by (cases "VerifyEvent strict X s e"; cases prev) (auto split: if_splits)
qed auto

lemma verify_loop_audited:
  "audited X s prev es \<Longrightarrow> verify_loop strict X s result i prev es = Ok result"
proof (induction es arbitrary: i prev)
  case (Cons e es)
  then have "VerifyEvent strict X s e = Ok ()" by (simp add: VerifyEvent_Ok_iff)
  then show ?case using Cons by (auto split: option.splits)
qed simp

lemma chain_audited:
  assumes "chain_from X s r h i es" and "\<forall>p. prev = Some p \<longrightarrow> CurrentHash p = h"
  shows "audited X s prev es"
  using assms
proof (induction es arbitrary: h i prev)
  case (Cons e es)
  then have "audited X s (Some e) es" by auto
  moreover have "VerifyEvent False X s e = Ok ()" "PrevHash e = h"
    using Cons.prems(1) by (auto simp: VerifyEvent_Ok_iff link_ok_def)
  ultimately show ?case using Cons.prems(2) by (auto split: option.splits)
qed simp

lemma audited_append:
  "audited X s prev (es @ fs) \<longleftrightarrow>
     audited X s prev es \<and> audited X s (if es = [] then prev else Some (last es)) fs"
  by (induction es arbitrary: prev) auto

lemma audited_weaken: "audited X s (Some p) es \<Longrightarrow> audited X s None es"
  by (cases es) auto

lemma audited_drop: "audited X s None es \<Longrightarrow> audited X s None (drop k es)"
  using audited_append [of X s None "take k es" "drop k es"] audited_weaken
  by (auto split: if_splits)

context event_repository
begin

text \<open>The auditor accepts what the processor wrote, as far as one read of the store reaches.\<close>

lemma verify_ledger:
  assumes "ledger p d" and "up d" and "p_runID p \<noteq> ''''" and "bound \<le> maxVerifyEvents"
    and "log d (p_runID p) \<noteq> []" and "0 < bound"
  shows "VerifyChain strict X (repo_GetAllEvents R d) (p_runID p) (p_signer p) =
    Ok \<lparr>Valid = True, TotalEvents = int (min bound (length (log d (p_runID p)))),
        ErrorMessage = '''', FailedAtSeq = 0\<rparr>"
proof -
  let ?es = "take bound (log d (p_runID p))"
  have inv: "inv d" and chain: "chain_from X (p_signer p) (p_runID p) zero_hash 0 (log d (p_runID p))"
    using assms(1) by (simp_all add: ledger_def)
  obtain es where es: "repo_GetAllEvents R d (p_runID p) = Ok es"
    using all_up [OF assms(2,3)] by (auto simp: outcome_simps)
  then have "es = ?es" by (rule all_ok [OF inv])
  moreover have "audited X (p_signer p) None ?es"
    using chain chain_from_append [of X "p_signer p" "p_runID p" zero_hash 0 ?es "drop bound (log d (p_runID p))"]
    by (auto intro: chain_audited)
  moreover have "length ?es \<le> maxVerifyEvents" "?es \<noteq> []" using assms(4-6) by auto
  ultimately show ?thesis
    using assms(3,4) es by (simp add: VerifyChain_def verify_loop_audited min.absorb2 min.commute)
qed

end

section \<open>Tamper evidence\<close>

text \<open>The JSON document of an event that is put in canonical form, and the text that is hashed.\<close>

definition document :: "('a) crypto_env_scheme \<Rightarrow> event \<Rightarrow> goval outcome" where
  "document X e = Unmarshal X (enc X (event_payload e))"

text \<open>The document as the hash sees it: canonical JSON does not tell a negative zero from zero.\<close>

definition hashed_document :: "('a) crypto_env_scheme \<Rightarrow> event \<Rightarrow> goval outcome" where
  "hashed_document X e = bind_outcome (document X e) (\<lambda>v. Ok (pos_zero v))"

definition hash_text :: "('a) crypto_env_scheme \<Rightarrow> event \<Rightarrow> string" where
  "hash_text X e = PrevHash e @ (case bind_outcome (document X e) (jcs_format X) of Ok c \<Rightarrow> c | _ \<Rightarrow> '''')"

lemma document_ok:
  assumes "crypto_ok X" and "event_ok e"
  shows "document X e = Ok (norm X (event_payload e))"
  unfolding document_def
  by (rule Unmarshal_enc) (simp_all add: float_conv_of_crypto payload_marshalable payload_depth assms)

lemma verified_hash:
  assumes X: "crypto_ok X" and v: "VerifyEvent False X s e = Ok ()"
  shows "CurrentHash e = hex_encode (sha256 (bytes_of (hash_text X e)))
    \<and> (\<exists>w c. hashed_document X e = Ok w \<and> hash_text X e = PrevHash e @ c \<and> Unmarshal X c = Ok w)"
proof -
  have "CalculateEventHash False X (PrevHash e) (event_payload e) = Ok (CurrentHash e)"
    using v by (simp add: VerifyEvent_Ok_iff)
  then obtain w c where w: "document X e = Ok w" and c: "jcs_format X w = Ok c"
    and h: "CurrentHash e = hex_encode (sha256 (bytes_of (PrevHash e) @ bytes_of c))"
    by (auto simp: CalculateEventHash_def document_def Marshal_def outcome_simps case_outcome_Ok_iff
        split: if_splits)
  have "normal w \<and> gv_depth w \<le> max_nesting"
    using Unmarshal_decoded [OF float_conv_of_crypto [OF X]] w by (simp add: document_def)
  then have "Unmarshal X c = Ok (pos_zero w)"
    using X c by (fastforce simp: crypto_ok_def jcs_ok_def)
  then show ?thesis
    using w c h by (simp add: hash_text_def hashed_document_def)
qed

lemma audited_verified: "audited X s prev es \<Longrightarrow> e \<in> set es \<Longrightarrow> VerifyEvent False X s e = Ok ()"
  by (induction es arbitrary: prev) auto

text \<open>One event: the same hash means the same link and the same hashed document, or two colliding texts.\<close>

lemma event_binding:
  assumes X: "crypto_ok X" and e: "VerifyEvent False X s e = Ok ()" and f: "VerifyEvent False X s' f = Ok ()"
    and h: "CurrentHash e = CurrentHash f" and l: "length (PrevHash e) = length (PrevHash f)"
  shows "PrevHash e = PrevHash f \<and> hashed_document X e = hashed_document X f
    \<or> sha_collide (bytes_of (hash_text X e)) (bytes_of (hash_text X f))"
proof (cases "hash_text X e = hash_text X f")
  case True
  then show ?thesis
    using verified_hash [OF X e] verified_hash [OF X f] l by auto
next
  case False
  then show ?thesis
    using verified_hash [OF X e] verified_hash [OF X f] h
    by (auto simp: sha_collide_def hex_encode_inject bytes_of_inject)
qed

lemma chain_binding:
  assumes X: "crypto_ok X" and len: "length es = length fs"
    and "audited X s p es" and "audited X s' q fs"
    and "es \<noteq> [] \<Longrightarrow> CurrentHash (last es) = CurrentHash (last fs)"
    and "es \<noteq> [] \<Longrightarrow> length (PrevHash (hd es)) = length (PrevHash (hd fs))"
  shows "map PrevHash es = map PrevHash fs \<and> map (hashed_document X) es = map (hashed_document X) fs
    \<or> (\<exists>i < length es. sha_collide (bytes_of (hash_text X (es ! i))) (bytes_of (hash_text X (fs ! i))))"
  using len assms(3-)
proof (induction es fs rule: rev_induct2)
  case (4 e es f fs)
  have e: "VerifyEvent False X s e = Ok ()" and f: "VerifyEvent False X s' f = Ok ()"
    using "4.prems" by (simp_all add: audited_append)
  have l: "length es = length fs" using "4.prems"(1) by simp
  have prev: "es \<noteq> [] \<Longrightarrow> PrevHash e = CurrentHash (last es) \<and> PrevHash f = CurrentHash (last fs)"
    using "4.prems"(2,3) l by (auto simp: audited_append split: if_splits)
  have h64: "length (CurrentHash g) = 64" if "VerifyEvent False X t g = Ok ()" for t g
    using that CalculateEventHash_Ok_D [of False X "PrevHash g" "event_payload g" "CurrentHash g"]
    by (auto simp: VerifyEvent_Ok_iff)
  have "length (PrevHash e) = length (PrevHash f)"
  proof (cases "es = []")
    case True
    then show ?thesis using "4.prems"(5) l by simp
  next
    case False
    then have "fs \<noteq> []" using l by auto
    then have "VerifyEvent False X s (last es) = Ok ()" "VerifyEvent False X s' (last fs) = Ok ()"
      using "4.prems"(2,3) False by (auto intro: audited_verified simp: audited_append)
    then show ?thesis using prev [OF False] h64 by metis
  qed
  with event_binding [OF X e f] "4.prems"(4)
  consider "PrevHash e = PrevHash f \<and> hashed_document X e = hashed_document X f"
    | "sha_collide (bytes_of (hash_text X e)) (bytes_of (hash_text X f))"
    by auto
  then show ?case
  proof cases
    case 1
    have "map PrevHash es = map PrevHash fs \<and> map (hashed_document X) es = map (hashed_document X) fs
      \<or> (\<exists>i < length es. sha_collide (bytes_of (hash_text X (es ! i))) (bytes_of (hash_text X (fs ! i))))"
      using "4.prems" l prev 1 by (intro "4.IH") (auto simp: audited_append hd_append split: if_splits)
    then show ?thesis
      using 1 l by (auto simp: nth_append intro: less_SucI)
  next
    case 2
    then show ?thesis using l by (intro disjI2 exI [of _ "length es"]) (simp add: nth_append)
  qed
qed auto

end
