(* ===== verification/Cli_Evidence.thy ===== *)
theory Cli_Evidence
  imports Cli_Console Chain_Audit
begin

text \<open>
  The commands that handle evidence: \<^verbatim>\<open>export.go\<close>, \<^verbatim>\<open>replay.go\<close> and \<^verbatim>\<open>verify.go\<close> of
  \<^verbatim>\<open>src/cmd/logyctl/commands\<close>. An archive is the list of its entries, names with contents; the container
  format around them is not modelled.
\<close>

section \<open>export.go\<close>

record EvidenceManifest =
  em_Version :: string
  em_RunID :: string
  em_ExportTime :: gotime
  em_RunStats :: run_stats
  em_GenesisAnchor :: "goval gomap option"
  em_LastHash :: string

definition run_stats_value :: "run_stats \<Rightarrow> goval" where
  "run_stats_value s = GMap
     [(''run_id'', GStr (rs_run_id s)), (''total_events'', GUint (rs_total_events s)),
      (''call_count'', GUint (rs_call_count s)), (''blocked_count'', GUint (rs_blocked_count s)),
      (''risk_breakdown'', GMap (map (\<lambda>(k, n). (k, GInt (word_of_int n))) (rs_risk_breakdown s)))]"

definition manifest_value :: "EvidenceManifest \<Rightarrow> goval" where
  "manifest_value m = GMap
     [(''version'', GStr (em_Version m)), (''run_id'', GStr (em_RunID m)), (''export_time'', GTime (em_ExportTime m)),
      (''run_stats'', run_stats_value (em_RunStats m)), (''genesis_anchor'', map_value (em_GenesisAnchor m)),
      (''last_hash'', GStr (em_LastHash m))]"

type_synonym archive = "(string \<times> string) list"

definition bag_manifest :: "bool \<Rightarrow> gotime \<Rightarrow> db \<Rightarrow> string \<Rightarrow> EvidenceManifest outcome" where
  "bag_manifest strict now d targetRunID =
     bind_outcome (if targetRunID = '''' then wrap_err ''getting run id'' (GetRunID d) else Ok targetRunID) (\<lambda>runID.
     if runID = '''' then Err (ErrorString ''no runs found'')
     else
       bind_outcome (wrap_err ''getting stats'' (GetRunStats strict d runID)) (\<lambda>stats.
       bind_outcome (wrap_err ''getting last hash'' (GetLastEvent strict d runID)) (\<lambda>(_, lastHash).
       Ok \<lparr>em_Version = ''1.0 (Logryph 2026.1)'', em_RunID = runID, em_ExportTime = now, em_RunStats = stats,
           em_GenesisAnchor = None, em_LastHash = lastHash\<rparr>)))"

text \<open>
  What the file system does to an export: the file a path names (\<open>ze_resolve\<close>), the database file as it is
  once the database has been opened, the errors of making the first entry, of writing it, of making the
  second and of copying into it, what the database file reads as when it is the output file itself, and
  the errors of the two deferred calls that finish the archive and close its file.
\<close>

record zip_env =
  ze_resolve :: "string \<Rightarrow> string"
  ze_dbfile :: "string option"
  ze_step_err :: "nat \<Rightarrow> error option"
  ze_selfread :: "string \<Rightarrow> string"
  ze_writer_close_err :: "error option"
  ze_file_close_err :: "error option"

text \<open>
  The archive steps after the file exists. The database file is opened after the output file was made and
  the manifest written.
\<close>

definition fill_bag ::
    "('a) float_conv_scheme \<Rightarrow> zip_env \<Rightarrow> filesys \<Rightarrow> string \<Rightarrow> EvidenceManifest \<Rightarrow> archive \<times> unit outcome" where
  "fill_bag F Z fs zipPath manifest =
     (case ze_step_err Z 0 of
        Some e \<Rightarrow> ([], Err e)
      | None \<Rightarrow>
          (case MarshalIndent F (manifest_value manifest) of
             Panic e \<Rightarrow> ([(''manifest.json'', '''')], Panic e)
           | Err e \<Rightarrow> ([(''manifest.json'', '''')], Err e)
           | Ok text \<Rightarrow>
               (case ze_step_err Z 1 of
                  Some e \<Rightarrow> ([(''manifest.json'', '''')], Err e)
                | None \<Rightarrow>
                    (let entry = (''manifest.json'', text @ nl) in
                     case wrap_err ''opening logryph.db'' (ReadFile fs (ze_resolve Z ''logryph.db'')) of
                       Panic e \<Rightarrow> ([entry], Panic e)
                     | Err e \<Rightarrow> ([entry], Err e)
                     | Ok content \<Rightarrow>
                         (case ze_step_err Z 2 of
                            Some e \<Rightarrow> ([entry], Err e)
                          | None \<Rightarrow>
                              (case ze_step_err Z 3 of
                                 Some e \<Rightarrow> ([entry, (''logryph.db'', '''')], Err e)
                               | None \<Rightarrow>
                                   ([entry, (''logryph.db'',
                                      if ze_resolve Z zipPath = ze_resolve Z ''logryph.db''
                                      then ze_selfread Z (text @ nl) else content)], Ok ())))))))"

text \<open>
  The deferred \<^verbatim>\<open>w.Close()\<close> and \<^verbatim>\<open>f.Close()\<close> run on every way out and only log their errors; the archive is
  complete when both succeed, and otherwise nothing is known of the file (\<open>None\<close>).
\<close>

definition close_bag :: "zip_env \<Rightarrow> archive \<times> unit outcome \<Rightarrow> archive option \<times> unit outcome" where
  "close_bag Z r =
     (if ze_writer_close_err Z = None \<and> ze_file_close_err Z = None then Some (fst r) else None, snd r)"

text \<open>
  \<^verbatim>\<open>ExportEvidenceBag\<close>: opening the database makes its file. The output file is empty in the returned file
  system; what it holds in the end is the returned archive.
\<close>

definition ExportEvidenceBag ::
    "bool \<Rightarrow> ('a) float_conv_scheme \<Rightarrow> zip_env \<Rightarrow> gotime \<Rightarrow> disk \<Rightarrow> string \<Rightarrow> string \<Rightarrow> filesys
       \<Rightarrow> filesys \<times> archive option \<times> unit outcome" where
  "ExportEvidenceBag strict F Z now dk zipPath targetRunID fs =
     (let fs0 = fs\<lparr>fs_files := (fs_files fs)(ze_resolve Z ''logryph.db'' := ze_dbfile Z)\<rparr> in
      case bind_outcome (wrap_err ''opening db'' (OpenDB dk)) (\<lambda>d. bag_manifest strict now d targetRunID) of
        Panic e \<Rightarrow> (fs0, None, Panic e)
      | Err e \<Rightarrow> (fs0, None, Err e)
      | Ok manifest \<Rightarrow>
          (case WriteFile fs0 (ze_resolve Z zipPath) '''' of
             (fs1, Panic e) \<Rightarrow> (fs1, None, Panic e)
           | (fs1, Err e) \<Rightarrow> (fs1, None, Err (Wrap ''creating zip file'' e))
           | (fs1, Ok _) \<Rightarrow> (fs1, close_bag Z (fill_bag F Z fs1 zipPath manifest))))"

definition ExportCommand ::
    "bool \<Rightarrow> ('a) float_conv_scheme \<Rightarrow> zip_env \<Rightarrow> gotime \<Rightarrow> disk \<Rightarrow> string list \<Rightarrow> filesys
       \<Rightarrow> filesys \<times> archive option \<times> console" where
  "ExportCommand strict F Z now dk args fs =
     (if length args < 3 then
        (fs, None, println ''Usage: logyctl export <output-file.zip> [run-id]'' (stop (Exit 1)))
      else
        (let outputFile = args ! 2; targetRunID = (if 3 < length args then args ! 3 else '''') in
         case ExportEvidenceBag strict F Z now dk outputFile targetRunID fs of
           (fs1, bag, r) \<Rightarrow>
             (fs1, bag, attempt r (fatal ''Export failed'') (\<lambda>_.
                println (''[OK] Evidence bag created: '' @ outputFile) (stop Return)))))"

section \<open>replay.go\<close>

record replay_resp =
  rp_StatusCode :: int
  rp_Status :: string
  rp_Body :: string

text \<open>
  \<open>send\<close> is the HTTP client: the URL, the headers and the body of a POST, and what comes back (a request
  that cannot be made is an error too). \<open>elapsed\<close> is the measured duration.
\<close>

type_synonym http_send = "string \<Rightarrow> (string \<times> string) list \<Rightarrow> string \<Rightarrow> replay_resp outcome"

definition ignore_err :: "string outcome \<Rightarrow> string" where
  "ignore_err r = (case r of Ok s \<Rightarrow> s | _ \<Rightarrow> '''')"

definition replay_report ::
    "('a) float_conv_scheme \<Rightarrow> int \<Rightarrow> event \<Rightarrow> replay_resp \<Rightarrow> goval gomap option \<Rightarrow> console" where
  "replay_report F elapsed event resp newResp =
     println (''Status:   '' @ rp_Status resp) (
     println (''Duration: '' @ show_duration elapsed) (
     println '''' (
     println ''Original Response:'' (
     println (ignore_err (MarshalIndent F (map_value (Response event)))) (
     println '''' (
     println ''Replay Response:'' (
     println (ignore_err (MarshalIndent F (map_value newResp))) (
     if rp_StatusCode resp < 300 then println (nl @ ''[OK] Replay successful (HTTP 2xx)'') (stop Return)
     else println (nl @ ''[FAILED] Replay failed (HTTP '' @ show_int (rp_StatusCode resp) @ '')'') (stop Return)))))))))"

definition ReplayCommand ::
    "bool \<Rightarrow> ('a) float_conv_scheme \<Rightarrow> (string \<Rightarrow> error option) \<Rightarrow> http_send \<Rightarrow> int \<Rightarrow> disk \<Rightarrow> string list \<Rightarrow> console" where
  "ReplayCommand strict F badURL send elapsed dk args =
     (if length args < 3 then
        println ''Usage: logyctl replay <event-id> [--target http://localhost:8080]'' (stop (Exit 1))
      else
        let eventID = args ! 2;
            targetURL = (if 5 \<le> length args \<and> args ! 3 = ''--target'' then args ! 4 else ''http://localhost:8080'') in
        attempt (OpenDB dk) (fatal ''Failed to open database'') (\<lambda>d.
        attempt (GetEventByID strict d eventID) (fatal ''Failed to find event'') (\<lambda>event.
        if EventType event \<noteq> ''tool_call'' then
          stop (Fatal (''Can only replay events of type '' @ [CHR 0x27] @ ''tool_call'' @ [CHR 0x27]
            @ '' (found: '' @ EventType event @ '')''))
        else
          println (''Replaying Event: '' @ ID event @ '' ('' @ Method event @ '')'') (
          println (''Target URL:     '' @ targetURL) (
          println (replicate 60 CHR ''-'') (
          case badURL targetURL of
            Some e \<Rightarrow> fatal ''Failed to create request'' e
          | None \<Rightarrow>
              attempt (send targetURL [(''Content-Type'', ''application/json''), (''X-Logryph-Replay'', ID event)]
                  (ignore_err (Marshal F (map_value (Params event)))))
                (fatal ''Replay failed'') (\<lambda>resp.
              attempt (UnmarshalMap F (rp_Body resp)) (fatal ''Failed to decode replay response'') (\<lambda>newResp.
              replay_report F elapsed event resp newResp))))))))"

section \<open>verify.go\<close>

definition report_anchors :: "AnchorVerificationResult outcome \<Rightarrow> console" where
  "report_anchors r =
     attempt r (\<lambda>e. println (''[WARN] Anchor verification failed: '' @ error_msg e) (stop Return)) (\<lambda>anchorResult.
     if AnchorValid anchorResult then
       println (''[OK] Bitcoin anchors verified against Blockstream API ('' @ show_int (AnchorsChecked anchorResult)
         @ '' anchors checked)'') (stop Return)
     else println (''[FAILED] Bitcoin anchor mismatch: '' @ AnchorErrorMessage anchorResult) (stop (Exit 1)))"

definition report_chain :: "VerificationResult \<Rightarrow> console \<Rightarrow> console" where
  "report_chain result k =
     (if Valid result then
        println (''[OK] Chain is valid ('' @ show_int (TotalEvents result) @ '' events verified)'') k
      else
        println ''[FAILED] Chain verification failed'' (
        println (''  Error: '' @ ErrorMessage result) (
        say (if FailedAtSeq result > 0
             then ''  Failed at sequence: '' @ show_nat (unat (FailedAtSeq result)) @ nl else '''') (stop (Exit 1)))))"

text \<open>
  \<^verbatim>\<open>crypto.NewSigner\<close> makes a new key when there is none to load, so the command may write the key file.
  \<open>to_uint\<close> converts a \<^verbatim>\<open>float64\<close>, \<open>get\<close> and \<open>now\<close> are those of the anchor fetch.
\<close>

definition verify_run ::
    "bool \<Rightarrow> ('a) crypto_env_scheme \<Rightarrow> (u64 \<Rightarrow> u64) \<Rightarrow> http_get \<Rightarrow> gotime \<Rightarrow> bool \<Rightarrow> db \<Rightarrow> signer \<Rightarrow> console" where
  "verify_run strict X to_uint get now skipLive d s =
     attempt (GetRunID d) (fatal ''Failed to get run ID'') (\<lambda>runID.
     if runID = '''' then println ''No runs found in database'' (stop Return)
     else
       or_crash (go_prefix 8 runID) (\<lambda>shortRun.
       println (''Verifying chain for run: '' @ shortRun) (
       attempt (VerifyChain strict X (GetAllEvents strict X d) runID s) (fatal ''Verification error'') (\<lambda>result.
       report_chain result
         (if skipLive then stop Return
          else println ''Verifying external Bitcoin anchors...''
                 (report_anchors (VerifyAnchors strict to_uint get now (GetAllEvents strict X d) runID)))))))"

definition VerifyCommand ::
    "bool \<Rightarrow> ('a) crypto_env_scheme \<Rightarrow> byte list outcome \<Rightarrow> (u64 \<Rightarrow> u64) \<Rightarrow> http_get \<Rightarrow> gotime \<Rightarrow> disk
       \<Rightarrow> string list \<Rightarrow> filesys \<Rightarrow> filesys \<times> console" where
  "VerifyCommand strict X rnd to_uint get now dk args fs =
     (case parse_flags [(''skip-live'', FBool False)] (drop 2 args) of
        Leave n \<Rightarrow> (fs, stop (Exit n))
      | Parsed flags \<Rightarrow>
          (case OpenDB dk of
             Ok d \<Rightarrow>
               (case NewSigner X fs rnd ''.logryph_key'' of
                  (fs1, r) \<Rightarrow>
                    (fs1, checked strict ''failed to load signer'' ''Failed to load signer'' r
                       (verify_run strict X to_uint get now (flag_bool flags ''skip-live'') d)))
           | r \<Rightarrow> (fs, checked strict ''failed to open database'' ''Failed to open database'' r (\<lambda>_. stop Return))))"

end
