(* ===== verification/Cli_Main.thy ===== *)
theory Cli_Main
  imports Cli_Trace Cli_Analytics Cli_Keys Cli_Evidence
begin

text \<open>
  \<^verbatim>\<open>src/cmd/logyctl/main.go\<close>: the choice of a command by the first argument. The outside of the process is
  one record; a command returns the files, the entries of the archive it completed, if any, and what it
  printed.
\<close>

record cli_env =
  ce_strict :: bool
  ce_crypto :: crypto_env
  ce_fmt :: fmt_conv
  ce_disk :: disk
  ce_now :: gotime
  ce_generated :: string
  ce_random :: "byte list outcome"
  ce_to_uint :: "u64 \<Rightarrow> u64"
  ce_get :: http_get
  ce_send :: http_send
  ce_badURL :: "string \<Rightarrow> error option"
  ce_elapsed :: int
  ce_metrics :: "string outcome"
  ce_client :: http_client
  ce_dir :: "dir_entry list outcome"
  ce_pick :: "nat \<Rightarrow> nat"
  ce_write_err :: "nat \<Rightarrow> error option"
  ce_zip :: zip_env

definition printUsage :: "string list" where
  "printUsage =
     [''Logryph CLI - Associated Evidence Ledger (AEL) Tool tool'', '''', ''Usage:'',
      ''  logyctl verify                    Validate the entire hash chain'',
      ''  logyctl status                    Show current run information'',
      ''  logyctl events [--limit N]        List recent events (default: 10)'',
      ''  logyctl stats                     Show detailed run and global statistics'',
      ''  logyctl risk                      List all high-risk events'',
      ''  logyctl export <file.zip>         Export the current run as an Evidence Bag (ZIP)'',
      ''  logyctl trace <task-id>           Visualize the forensic timeline of a task'',
      ''  logyctl replay <id>               Re-execute a tool call to reproduce an incident'', '''',
      ''Key Management:'',
      ''  logyctl rekey                     Rotate the Ed25519 signing keys'',
      ''  logyctl backup-key                Create timestamped backup of signing key'',
      ''  logyctl restore-key <file>        Restore signing key from backup'',
      ''  logyctl list-backups              List available key backups'']"

text \<open>A command that writes nothing but its output, and one that may also write files.\<close>

definition prints :: "filesys \<Rightarrow> console \<Rightarrow> filesys \<times> archive option \<times> console" where
  "prints fs k = (fs, None, k)"

definition writes :: "filesys \<times> console \<Rightarrow> filesys \<times> archive option \<times> console" where
  "writes r = (fst r, None, snd r)"

definition logyctl :: "cli_env \<Rightarrow> string list \<Rightarrow> filesys \<Rightarrow> filesys \<times> archive option \<times> console" where
  "logyctl E args fs =
     (if length args < 2 then prints fs (say (joined printUsage) (stop (Exit 1)))
      else let command = args ! 1; strict = ce_strict E; X = ce_crypto E; dk = ce_disk E in
      if command = ''verify'' then
        writes (VerifyCommand strict X (ce_random E) (ce_to_uint E) (ce_get E) (ce_now E) dk args fs)
      else if command = ''status'' then prints fs (StatusCommand strict dk)
      else if command = ''events'' then prints fs (EventsCommand strict dk args)
      else if command = ''stats'' then prints fs (StatsCommand strict X (ce_pick E) (ce_metrics E) dk)
      else if command = ''risk'' then prints fs (RiskCommand strict dk)
      else if command = ''export'' then ExportCommand strict X (ce_zip E) (ce_now E) dk args fs
      else if command = ''rekey'' then prints fs (RekeyCommand (ce_client E))
      else if command = ''backup-key'' then writes (BackupKeyCommand (ce_now E) fs)
      else if command = ''restore-key'' then
        (if length args < 3 then
           prints fs (println ''Error: restore-key requires backup file path'' (
             println ''Usage: logyctl restore-key <backup-file>'' (stop (Exit 1))))
         else writes (RestoreKeyCommand (args ! 2) fs))
      else if command = ''list-backups'' then prints fs (ListBackupsCommand (ce_dir E))
      else if command = ''trace'' then
        writes (TraceCommand strict (ce_write_err E) (ce_fmt E) (ce_generated E) dk args fs)
      else if command = ''replay'' then
        prints fs (ReplayCommand strict X (ce_badURL E) (ce_send E) (ce_elapsed E) dk args)
      else prints fs (println (''Unknown command: '' @ command) (say (joined printUsage) (stop (Exit 1)))))"

end
