(* ===== verification/Ring_Buffer.thy ===== *)
theory Ring_Buffer
  imports Go_Assert
begin

text \<open>
  The fixed-size ring buffer, \<^verbatim>\<open>src/internal/ring/buffer.go\<close>. Every operation holds the buffer's
  mutex from start to end, so each is one atomic step from a buffer to a buffer. The abstract
  contract is a bounded FIFO queue (locale \<open>bounded_queue\<close>), which the ring implements.
\<close>

section \<open>The buffer\<close>

definition ErrBufferFull :: error where
  "ErrBufferFull = ErrorString ''ring buffer is full''"

definition ErrBufferEmpty :: error where
  "ErrBufferEmpty = ErrorString ''ring buffer is empty''"

record 'a buffer =
  bdata :: "'a list"
  bcapacity :: int
  bhead :: int
  btail :: int
  bcount :: int

text \<open>\<^verbatim>\<open>New\<close>: \<open>zero\<close> is the zero value of the element type, which fills the slice.\<close>

definition new_buffer :: "bool \<Rightarrow> 'a \<Rightarrow> int \<Rightarrow> 'a buffer outcome" where
  "new_buffer strict zero capacity =
     (case Check strict (capacity > 0) ''capacity must be positive'' of
        Err e \<Rightarrow> Err e
      | Panic e \<Rightarrow> Panic e
      | Ok _ \<Rightarrow> Ok \<lparr>bdata = replicate (nat capacity) zero, bcapacity = capacity,
                    bhead = 0, btail = 0, bcount = 0\<rparr>)"

definition Push :: "bool \<Rightarrow> 'a buffer \<Rightarrow> 'a \<Rightarrow> 'a buffer \<times> unit outcome" where
  "Push strict b item =
     (if bcount b = bcapacity b then (b, Err ErrBufferFull)
      else case InRange strict (btail b) 0 (bcapacity b - 1) ''tail index'' of
        Err e \<Rightarrow> (b, Err e)
      | Panic e \<Rightarrow> (b, Panic e)
      | Ok _ \<Rightarrow>
          (case go_index (bdata b) (btail b) of
             Ok _ \<Rightarrow> (b\<lparr>bdata := (bdata b)[nat (btail b) := item],
                        btail := (btail b + 1) mod bcapacity b,
                        bcount := bcount b + 1\<rparr>, Ok ())
           | Err e \<Rightarrow> (b, Err e)
           | Panic e \<Rightarrow> (b, Panic e)))"

text \<open>
  \<^verbatim>\<open>Pop\<close> returns the zero value beside an error; the outcome carries no value then. The slot that
  was read is not cleared, as in the code.
\<close>

definition Pop :: "bool \<Rightarrow> 'a buffer \<Rightarrow> 'a buffer \<times> 'a outcome" where
  "Pop strict b =
     (if bcount b = 0 then (b, Err ErrBufferEmpty)
      else case InRange strict (bhead b) 0 (bcapacity b - 1) ''head index'' of
        Err e \<Rightarrow> (b, Err e)
      | Panic e \<Rightarrow> (b, Panic e)
      | Ok _ \<Rightarrow>
          (case go_index (bdata b) (bhead b) of
             Ok item \<Rightarrow> (b\<lparr>bhead := (bhead b + 1) mod bcapacity b,
                           bcount := bcount b - 1\<rparr>, Ok item)
           | Err e \<Rightarrow> (b, Err e)
           | Panic e \<Rightarrow> (b, Panic e)))"

definition IsFull :: "'a buffer \<Rightarrow> bool" where
  "IsFull b \<longleftrightarrow> bcount b = bcapacity b"

definition IsEmpty :: "'a buffer \<Rightarrow> bool" where
  "IsEmpty b \<longleftrightarrow> bcount b = 0"

definition Len :: "'a buffer \<Rightarrow> int" where
  "Len b = bcount b"

definition Cap :: "'a buffer \<Rightarrow> int" where
  "Cap b = bcapacity b"

section \<open>Invariant and abstraction\<close>

definition ring_inv :: "'a buffer \<Rightarrow> bool" where
  "ring_inv b \<longleftrightarrow>
     0 < bcapacity b \<and> int (length (bdata b)) = bcapacity b
     \<and> 0 \<le> bhead b \<and> bhead b < bcapacity b
     \<and> 0 \<le> bcount b \<and> bcount b \<le> bcapacity b
     \<and> btail b = (bhead b + bcount b) mod bcapacity b"

text \<open>The queued items, oldest first.\<close>

definition ring_list :: "'a buffer \<Rightarrow> 'a list" where
  "ring_list b =
     map (\<lambda>i. bdata b ! nat ((bhead b + int i) mod bcapacity b)) [0..<nat (bcount b)]"

section \<open>The contract of a bounded queue\<close>

locale bounded_queue =
  fixes push :: "'q \<Rightarrow> 'a \<Rightarrow> 'q \<times> unit outcome"
    and pop :: "'q \<Rightarrow> 'q \<times> 'a outcome"
    and cap :: "'q \<Rightarrow> nat"
    and items :: "'q \<Rightarrow> 'a list"
    and inv :: "'q \<Rightarrow> bool"
  assumes cap_bound: "inv q \<Longrightarrow> length (items q) \<le> cap q"
    and push_room: "inv q \<Longrightarrow> length (items q) < cap q \<Longrightarrow>
          \<exists>q'. push q x = (q', Ok ()) \<and> inv q' \<and> cap q' = cap q \<and> items q' = items q @ [x]"
    and push_full: "inv q \<Longrightarrow> length (items q) = cap q \<Longrightarrow> push q x = (q, Err ErrBufferFull)"
    and pop_item: "inv q \<Longrightarrow> items q = x # xs \<Longrightarrow>
          \<exists>q'. pop q = (q', Ok x) \<and> inv q' \<and> cap q' = cap q \<and> items q' = xs"
    and pop_empty: "inv q \<Longrightarrow> items q = [] \<Longrightarrow> pop q = (q, Err ErrBufferEmpty)"
begin

text \<open>A run of operations, with what each one returned.\<close>

fun push_all :: "'q \<Rightarrow> 'a list \<Rightarrow> 'q" where
  "push_all q [] = q"
| "push_all q (x # xs) = push_all (fst (push q x)) xs"

fun pop_n :: "nat \<Rightarrow> 'q \<Rightarrow> 'q \<times> 'a list" where
  "pop_n 0 q = (q, [])"
| "pop_n (Suc n) q =
     (case pop q of
        (q', Ok x) \<Rightarrow> (let (q'', xs) = pop_n n q' in (q'', x # xs))
      | (q', _) \<Rightarrow> (q', []))"

lemma push_cases:
  assumes "inv q"
  shows "inv (fst (push q x)) \<and> cap (fst (push q x)) = cap q
    \<and> items (fst (push q x)) = (if length (items q) < cap q then items q @ [x] else items q)"
proof (cases "length (items q) < cap q")
  case True
  then show ?thesis using push_room [OF assms, of x] by auto
next
  case False
  then have "length (items q) = cap q" using cap_bound [OF assms] by simp
  then show ?thesis using push_full [OF assms] assms by simp
qed

lemma pop_inv: "inv q \<Longrightarrow> inv (fst (pop q)) \<and> cap (fst (pop q)) = cap q"
  using pop_item [of q] pop_empty [of q] by (cases "items q") fastforce+

lemma push_all_items:
  "inv q \<Longrightarrow> inv (push_all q xs) \<and> cap (push_all q xs) = cap q
     \<and> items (push_all q xs) = take (cap q) (items q @ xs)"
proof (induction xs arbitrary: q)
  case Nil
  then show ?case using cap_bound by simp
next
  case (Cons x xs)
  let ?q = "fst (push q x)"
  have q: "inv ?q" "cap ?q = cap q"
    "items ?q = (if length (items q) < cap q then items q @ [x] else items q)"
    using push_cases [OF Cons.prems] by simp_all
  show ?case
    using Cons.IH [OF q(1)] q(2,3) cap_bound [OF Cons.prems] by (auto simp: take_Cons')
qed

lemma pop_n_items:
  "inv q \<Longrightarrow> n \<le> length (items q) \<Longrightarrow>
     \<exists>q'. pop_n n q = (q', take n (items q)) \<and> inv q' \<and> cap q' = cap q \<and> items q' = drop n (items q)"
proof (induction n arbitrary: q)
  case 0
  then show ?case by simp
next
  case (Suc n)
  then obtain x xs where xs: "items q = x # xs"
    by (cases "items q") auto
  obtain q' where q': "pop q = (q', Ok x)" "inv q'" "cap q' = cap q" "items q' = xs"
    using pop_item [OF Suc.prems(1) xs] by blast
  then show ?case
    using Suc.IH [of q'] Suc.prems(2) xs by auto
qed

text \<open>FIFO: what is pushed after the pending items is popped after them, in order.\<close>

lemma fifo:
  assumes "inv q" and "length (items q) + length xs \<le> cap q"
  shows "snd (pop_n (length (items q) + length xs) (push_all q xs)) = items q @ xs"
proof -
  have "inv (push_all q xs)" "items (push_all q xs) = items q @ xs"
    using push_all_items [OF assms(1), of xs] assms(2) by simp_all
  then show ?thesis
    using pop_n_items [of "push_all q xs" "length (items q) + length xs"] by auto
qed

end

section \<open>The ring implements the contract\<close>

lemma ring_inv_new:
  assumes "new_buffer strict zero capacity = Ok b"
  shows "ring_inv b \<and> ring_list b = [] \<and> bcapacity b = capacity"
  using assms by (auto simp: new_buffer_def ring_inv_def ring_list_def split: outcome.splits)

lemma ring_list_length [simp]: "length (ring_list b) = nat (bcount b)"
  by (simp add: ring_list_def)

lemma mod_distinct_index:
  fixes h n c i :: int
  assumes "0 \<le> i" "i < n" "n < c"
  shows "(h + i) mod c \<noteq> (h + n) mod c"
proof
  assume "(h + i) mod c = (h + n) mod c"
  then have "c dvd n - i"
    by (metis add_diff_cancel_left mod_eq_dvd_iff dvd_minus_iff minus_diff_eq)
  then show False
    using assms by (simp add: zdvd_not_zless)
qed

lemma Push_room:
  assumes inv: "ring_inv b" and room: "nat (bcount b) < nat (bcapacity b)"
  shows "\<exists>b'. Push strict b x = (b', Ok ()) \<and> ring_inv b' \<and> bcapacity b' = bcapacity b
    \<and> ring_list b' = ring_list b @ [x]"
proof -
  let ?b = "b\<lparr>bdata := (bdata b)[nat (btail b) := x],
              btail := (btail b + 1) mod bcapacity b, bcount := bcount b + 1\<rparr>"
  have eq: "btail b = (bhead b + bcount b) mod bcapacity b"
    and cnt: "0 \<le> bcount b" "bcount b < bcapacity b"
    and wf: "int (length (bdata b)) = bcapacity b" "0 \<le> bhead b" "bhead b < bcapacity b"
    using inv room by (simp_all add: ring_inv_def)
  have tail: "0 \<le> btail b" "btail b < bcapacity b"
    using cnt unfolding eq by simp_all
  have push: "Push strict b x = (?b, Ok ())"
    using tail cnt wf by (simp add: Push_def)
  have "(btail b + 1) mod bcapacity b = (bhead b + (bcount b + 1)) mod bcapacity b"
    unfolding eq mod_add_left_eq by (simp only: add.assoc)
  then have inv': "ring_inv ?b"
    using cnt wf by (simp add: ring_inv_def)
  have old: "(bdata b)[nat (btail b) := x] ! nat ((bhead b + int i) mod bcapacity b)
      = bdata b ! nat ((bhead b + int i) mod bcapacity b)" if "int i < bcount b" for i
    using mod_distinct_index [of "int i" "bcount b" "bcapacity b" "bhead b"] that cnt tail
    by (simp add: nth_list_update_neq nat_eq_iff2 flip: eq)
  have new: "(bdata b)[nat (btail b) := x] ! nat ((bhead b + bcount b) mod bcapacity b) = x"
    using tail wf by (simp flip: eq)
  have "ring_list ?b = ring_list b @ [x]"
    using old new cnt(1) by (simp add: ring_list_def nat_add_distrib)
  then show ?thesis
    using push inv' by simp
qed

lemma Pop_item:
  assumes inv: "ring_inv b" and items: "ring_list b = x # xs"
  shows "\<exists>b'. Pop strict b = (b', Ok x) \<and> ring_inv b' \<and> bcapacity b' = bcapacity b
    \<and> ring_list b' = xs"
proof -
  let ?b = "b\<lparr>bhead := (bhead b + 1) mod bcapacity b, bcount := bcount b - 1\<rparr>"
  have "length (ring_list b) > 0" using items by simp
  then have cnt: "0 < bcount b" by simp
  define n where "n = nat (bcount b) - 1"
  have n: "nat (bcount b) = Suc n" "nat (bcount b - 1) = n"
    using cnt by (simp_all add: n_def)
  have head: "x = bdata b ! nat (bhead b)"
    and rest: "xs = map (\<lambda>i. bdata b ! nat ((bhead b + 1 + int i) mod bcapacity b)) [0..<n]"
    using items inv
    by (auto simp: ring_list_def n ring_inv_def upt_conv_Cons map_Suc_upt [symmetric] add.assoc
        simp del: upt_Suc)
  have pop: "Pop strict b = (?b, Ok x)"
    using inv cnt by (simp add: Pop_def ring_inv_def head)
  have "((bhead b + 1) mod bcapacity b + i) mod bcapacity b = (bhead b + 1 + i) mod bcapacity b" for i
    by (rule mod_add_left_eq)
  then have "ring_list ?b = xs" and "ring_inv ?b"
    using inv cnt by (simp_all add: ring_list_def n rest ring_inv_def)
  then show ?thesis
    using pop by simp
qed

lemma Push_full: "bcount b = bcapacity b \<Longrightarrow> Push strict b x = (b, Err ErrBufferFull)"
  by (simp add: Push_def)

lemma Pop_empty: "bcount b = 0 \<Longrightarrow> Pop strict b = (b, Err ErrBufferEmpty)"
  by (simp add: Pop_def)

interpretation rb: bounded_queue "Push strict" "Pop strict" "\<lambda>b. nat (bcapacity b)" ring_list ring_inv
  for strict
proof
  fix q :: "'a buffer" and x :: 'a and xs :: "'a list"
  assume inv: "ring_inv q"
  show "length (ring_list q) \<le> nat (bcapacity q)"
    using inv by (simp add: ring_inv_def nat_mono)
  show "\<exists>q'. Push strict q x = (q', Ok ()) \<and> ring_inv q' \<and> nat (bcapacity q') = nat (bcapacity q)
      \<and> ring_list q' = ring_list q @ [x]" if "length (ring_list q) < nat (bcapacity q)"
    using Push_room [OF inv, of strict x] that by auto
  show "Push strict q x = (q, Err ErrBufferFull)" if "length (ring_list q) = nat (bcapacity q)"
    using inv that by (intro Push_full) (auto simp: ring_inv_def)
  show "\<exists>q'. Pop strict q = (q', Ok x) \<and> ring_inv q' \<and> nat (bcapacity q') = nat (bcapacity q)
      \<and> ring_list q' = xs" if "ring_list q = x # xs"
    using Pop_item [OF inv that, of strict] by auto
  show "Pop strict q = (q, Err ErrBufferEmpty)" if "ring_list q = []"
    using inv that by (intro Pop_empty) (auto simp: ring_inv_def ring_list_def)
qed

lemma IsFull_iff: "ring_inv b \<Longrightarrow> IsFull b \<longleftrightarrow> length (ring_list b) = nat (bcapacity b)"
  by (auto simp: IsFull_def ring_inv_def)

lemma IsEmpty_iff: "ring_inv b \<Longrightarrow> IsEmpty b \<longleftrightarrow> ring_list b = []"
  by (auto simp: IsEmpty_def ring_inv_def ring_list_def)

lemma Len_eq: "ring_inv b \<Longrightarrow> Len b = int (length (ring_list b))"
  by (simp add: Len_def ring_inv_def)

end
