(* ===== verification/Ledger_Worker.thy ===== *)
theory Ledger_Worker
  imports Genesis_Block Ring_Buffer
begin

text \<open>
  The asynchronous worker, \<^verbatim>\<open>src/internal/ledger/worker.go\<close>: submission with back-pressure, the drain
  loops, the latency histogram, anchoring, start and shutdown. The state is the \<^verbatim>\<open>Worker\<close> struct with
  its database and the process-wide pools. A slot of the ring is an event pointer. Where the code runs
  beside other goroutines (a blocked submitter asleep, the gap between a check and the push or the pop,
  shutdown waiting and draining) what they do to the state is an argument.
\<close>

section \<open>State\<close>

definition BackpressureDrop :: int where
  "BackpressureDrop = 0"

definition BackpressureBlock :: int where
  "BackpressureBlock = 1"

definition maxDrainEvents :: nat where
  "maxDrainEvents = 2 ^ 20"

definition maxShutdownTicks :: nat where
  "maxShutdownTicks = 2 ^ 12"

definition latencyBucketUpperNs :: "u64 list" where
  "latencyBucketUpperNs = [1000000, 5000000, 10000000, 25000000, 50000000, 100000000, - 1]"

text \<open>
  \<open>w_signal\<close>: the signal channel, of capacity one, holds a token. \<open>w_stopped\<close>: \<^verbatim>\<open>shutdownOnce\<close> has run,
  so both channels are closed.
\<close>

record 'db worker =
  w_ring :: "event option buffer"
  w_signal :: bool
  w_stopped :: bool
  w_db :: 'db
  w_signer :: signer
  w_runID :: string
  w_processor :: "processor option"
  w_mode :: int
  w_unhealthy :: bool
  w_processed :: u64
  w_dropped :: u64
  w_blocked :: u64
  w_latSum :: u64
  w_latCount :: u64
  w_buckets :: "u64 list"
  w_closing :: bool
  w_pools :: pools

definition NewWorker ::
    "bool \<Rightarrow> ('a) crypto_env_scheme \<Rightarrow> filesys \<Rightarrow> byte list outcome \<Rightarrow> int \<Rightarrow> 'db option \<Rightarrow> string \<Rightarrow> pools
       \<Rightarrow> filesys \<times> 'db worker outcome" where
  "NewWorker strict X fs rnd bufferSize database keyPath ps =
     (case bind_outcome (Check strict (bufferSize > 0) ''buffer size must be positive'') (\<lambda>_.
           bind_outcome (Check strict (database \<noteq> None) ''database repository missing'') (\<lambda>_.
           Check strict (keyPath \<noteq> '''') ''key path must not be empty'')) of
        Err x \<Rightarrow> (fs, Err x)
      | Panic x \<Rightarrow> (fs, Panic x)
      | Ok _ \<Rightarrow>
          (case NewSigner X fs rnd keyPath of
             (fs', Err x) \<Rightarrow> (fs', Err (Wrap ''initializing signer'' x))
           | (fs', Panic x) \<Rightarrow> (fs', Panic x)
           | (fs', Ok s) \<Rightarrow>
               (fs', bind_outcome (new_buffer strict None bufferSize) (\<lambda>rb.
                 Ok \<lparr>w_ring = rb, w_signal = False, w_stopped = False, w_db = the database, w_signer = s,
                     w_runID = '''', w_processor = None, w_mode = BackpressureDrop, w_unhealthy = False,
                     w_processed = 0, w_dropped = 0, w_blocked = 0, w_latSum = 0, w_latCount = 0,
                     w_buckets = replicate 7 0, w_closing = False, w_pools = ps\<rparr>))))"

definition SetBackpressureMode :: "bool \<Rightarrow> 'db worker \<Rightarrow> int \<Rightarrow> 'db worker \<times> unit outcome" where
  "SetBackpressureMode strict w mode =
     (case Check strict (mode = BackpressureDrop \<or> mode = BackpressureBlock) ''invalid backpressure mode'' of
        Ok _ \<Rightarrow> (w\<lparr>w_mode := mode\<rparr>, Ok ())
      | Err x \<Rightarrow> (w, Err x)
      | Panic x \<Rightarrow> (w, Panic x))"

definition GetBackpressureMode :: "bool \<Rightarrow> 'db worker \<Rightarrow> int outcome" where
  "GetBackpressureMode strict w =
     (case Check strict (w_mode w = BackpressureDrop \<or> w_mode w = BackpressureBlock)
             ''invalid backpressure mode'' of
        Ok _ \<Rightarrow> Ok (w_mode w)
      | Err x \<Rightarrow> Ok BackpressureDrop
      | Panic x \<Rightarrow> Panic x)"

definition BlockedSubmits :: "'db worker \<Rightarrow> u64" where
  "BlockedSubmits w = w_blocked w"

definition IsHealthy :: "'db worker \<Rightarrow> bool" where
  "IsHealthy w \<longleftrightarrow> \<not> w_unhealthy w"

definition Stats :: "'db worker \<Rightarrow> u64 \<times> u64" where
  "Stats w = (w_processed w, w_dropped w)"

definition QueueDepth :: "'db worker \<Rightarrow> int \<times> int" where
  "QueueDepth w = (Len (w_ring w), Cap (w_ring w))"

record LatencySnapshot =
  BoundsNs :: "u64 list"
  Counts :: "u64 list"
  SumNs :: u64
  Count :: u64

definition LatencyMetrics :: "'db worker \<Rightarrow> LatencySnapshot" where
  "LatencyMetrics w =
     \<lparr>BoundsNs = map (\<lambda>i. latencyBucketUpperNs ! i) [0..<7], Counts = map (\<lambda>i. w_buckets w ! i) [0..<7],
      SumNs = w_latSum w, Count = w_latCount w\<rparr>"

section \<open>Latency\<close>

text \<open>The loop over the buckets: the first one whose upper bound is not below the latency.\<close>

fun bucket_of :: "u64 \<Rightarrow> u64 list \<Rightarrow> nat option" where
  "bucket_of ns [] = None"
| "bucket_of ns (b # bs) = (if ns \<le> b then Some 0 else map_option Suc (bucket_of ns bs))"

definition recordLatency :: "bool \<Rightarrow> 'db worker \<Rightarrow> int \<Rightarrow> 'db worker \<times> unit outcome" where
  "recordLatency strict w d =
     (case Check strict (d \<ge> 0) ''latency duration must be non-negative'' of
        Panic x \<Rightarrow> (w, Panic x)
      | Err x \<Rightarrow> (w, Ok ())
      | Ok _ \<Rightarrow>
          if d = 0
          then (w\<lparr>w_latSum := w_latSum w + 0, w_latCount := w_latCount w + 1,
                  w_buckets := (w_buckets w)[0 := w_buckets w ! 0 + 1]\<rparr>, Ok ())
          else (let latencyNs = word_of_int d;
                    bs = (case bucket_of latencyNs latencyBucketUpperNs of
                            None \<Rightarrow> w_buckets w
                          | Some i \<Rightarrow> (w_buckets w)[i := w_buckets w ! i + 1])
                in (w\<lparr>w_buckets := bs, w_latSum := w_latSum w + latencyNs,
                      w_latCount := w_latCount w + 1\<rparr>, Ok ())))"

section \<open>Submission\<close>

definition drop_event :: "'db worker \<Rightarrow> 'db worker" where
  "drop_event w = w\<lparr>w_dropped := w_dropped w + 1\<rparr>"

text \<open>Reading a field of the event, as the log lines of a dropped event do, panics on a nil pointer.\<close>

definition deref :: "event option \<Rightarrow> unit outcome" where
  "deref e = (if e = None then Panic (RuntimeError ''nil pointer dereference'') else Ok ())"

text \<open>
  The waiting loop of the blocking mode, \<open>n\<close> attempts left; \<open>others i\<close> is what happens while the
  submitter sleeps for the \<open>i\<close>-th time. The flag says whether the submission goes on.
\<close>

primrec block_wait ::
    "(nat \<Rightarrow> 'db worker \<Rightarrow> 'db worker) \<Rightarrow> nat \<Rightarrow> nat \<Rightarrow> 'db worker \<Rightarrow> 'db worker \<times> bool" where
  "block_wait others i 0 w = (w, True)"
| "block_wait others i (Suc n) w =
     (if \<not> IsFull (w_ring w) then (w, True)
      else if w_closing w then (drop_event w, False)
      else block_wait others (Suc i) n (others i (w\<lparr>w_blocked := w_blocked w + 1\<rparr>)))"

definition maxBlockAttempts :: nat where
  "maxBlockAttempts = 1000"

text \<open>
  The push and the wake-up. A full signal channel is left alone; sending on a closed one panics.
\<close>

definition push_signal :: "bool \<Rightarrow> 'db worker \<Rightarrow> event option \<Rightarrow> 'db worker \<times> unit outcome" where
  "push_signal strict w e =
     (case Push strict (w_ring w) e of
        (rb, Panic x) \<Rightarrow> (w\<lparr>w_ring := rb\<rparr>, Panic x)
      | (rb, Err x) \<Rightarrow> (w\<lparr>w_ring := rb\<rparr>, Ok ())
      | (rb, Ok _) \<Rightarrow>
          if w_stopped w then (w\<lparr>w_ring := rb\<rparr>, Panic (RuntimeError ''send on closed channel''))
          else (w\<lparr>w_ring := rb, w_signal := True\<rparr>, Ok ()))"

text \<open>
  \<^verbatim>\<open>Submit\<close>; \<open>race\<close> is what other goroutines do between the last check for a full buffer and the push.
  \<^verbatim>\<open>assert.NotNil\<close> gets a typed pointer, which is never the nil interface.
\<close>

definition Submit ::
    "bool \<Rightarrow> (nat \<Rightarrow> 'db worker \<Rightarrow> 'db worker) \<Rightarrow> ('db worker \<Rightarrow> 'db worker) \<Rightarrow> 'db worker \<Rightarrow> event option
       \<Rightarrow> 'db worker \<times> unit outcome" where
  "Submit strict others race w e =
     (case NotNil strict (TypedPtr ''*models.Event'' (e = None)) ''event'' of
        Err x \<Rightarrow> (w, Ok ())
      | Panic x \<Rightarrow> (w, Panic x)
      | Ok _ \<Rightarrow>
          if w_closing w then (drop_event w, deref e)
          else if w_mode w = BackpressureBlock
          then (let (w1, go_on) = block_wait others 0 maxBlockAttempts w in
                if \<not> go_on then (w1, deref e)
                else if IsFull (w_ring w1) then (drop_event w1, deref e)
                else push_signal strict (race w1) e)
          else if IsFull (w_ring w) then (drop_event w, deref e)
          else push_signal strict (race w) e)"

section \<open>Processing\<close>

definition process_event ::
    "bool \<Rightarrow> ('a) crypto_env_scheme \<Rightarrow> 'db repository \<Rightarrow> fresh \<Rightarrow> 'db worker \<Rightarrow> event option
       \<Rightarrow> 'db worker \<times> event option \<times> unit outcome" where
  "process_event strict X R fr w ptr =
     (case w_processor w of
        None \<Rightarrow> (w, ptr, Panic (RuntimeError ''nil pointer dereference''))
      | Some p \<Rightarrow>
          (let (p', d', ps', ptr', r) = ProcessEvent strict X R fr p (w_db w) (w_pools w) ptr
           in (w\<lparr>w_processor := Some p', w_db := d', w_pools := ps'\<rparr>, ptr', r)))"

text \<open>
  The body both drain loops share, on a buffer that was not empty: pop, process, record the latency
  \<open>dur\<close>, count, and give the event back to the pool. The flag says whether the loop goes on.
\<close>

definition process_one ::
    "bool \<Rightarrow> ('a) crypto_env_scheme \<Rightarrow> 'db repository \<Rightarrow> fresh \<Rightarrow> int \<Rightarrow> 'db worker \<Rightarrow> 'db worker \<times> bool outcome" where
  "process_one strict X R fr dur w =
     (case Pop strict (w_ring w) of
        (rb, Panic x) \<Rightarrow> (w\<lparr>w_ring := rb\<rparr>, Panic x)
      | (rb, Err x) \<Rightarrow> (w\<lparr>w_ring := rb\<rparr>, Ok False)
      | (rb, Ok ptr) \<Rightarrow>
          (let (w1, ptr1, r) = process_event strict X R fr (w\<lparr>w_ring := rb\<rparr>) ptr in
           case (case r of Ok _ \<Rightarrow> (w1, Ok ())
                  | Err x \<Rightarrow> (case deref ptr1 of
                                 Ok _ \<Rightarrow> (w1\<lparr>w_unhealthy := True\<rparr>, Ok ())
                               | y \<Rightarrow> (w1, y))
                  | Panic x \<Rightarrow> (w1, Panic x)) of
             (w2, Err x) \<Rightarrow> (w2, Err x)
           | (w2, Panic x) \<Rightarrow> (w2, Panic x)
           | (w2, Ok _) \<Rightarrow>
               (case recordLatency strict w2 dur of
                  (w3, Err x) \<Rightarrow> (w3, Err x)
                | (w3, Panic x) \<Rightarrow> (w3, Panic x)
                | (w3, Ok _) \<Rightarrow>
                    (let w4 = w3\<lparr>w_processed := w_processed w3 + 1\<rparr>;
                         (ps, put) = PutEvent strict (w_pools w4) ptr1
                     in (w4\<lparr>w_pools := ps\<rparr>, bind_outcome put (\<lambda>_. Ok True))))))"

text \<open>
  A drain loop with \<open>n\<close> rounds left; \<open>ins i\<close> are the fresh values and the latency of round \<open>i\<close>. What other
  goroutines do in round \<open>i\<close> is \<open>others (2 * i)\<close> before the check for an empty buffer and
  \<open>others (2 * i + 1)\<close> between that check and the pop, which then may find the buffer empty.
\<close>

primrec drain_loop ::
    "bool \<Rightarrow> ('a) crypto_env_scheme \<Rightarrow> 'db repository \<Rightarrow> (nat \<Rightarrow> 'db worker \<Rightarrow> 'db worker) \<Rightarrow> (nat \<Rightarrow> fresh \<times> int)
       \<Rightarrow> nat \<Rightarrow> nat \<Rightarrow> 'db worker \<Rightarrow> 'db worker \<times> unit outcome" where
  "drain_loop strict X R others ins i 0 w = (w, Ok ())"
| "drain_loop strict X R others ins i (Suc n) w =
     (let w1 = others (2 * i) w in
      if IsEmpty (w_ring w1) then (w1, Ok ())
      else case process_one strict X R (fst (ins i)) (snd (ins i)) (others (2 * i + 1) w1) of
             (w', Ok True) \<Rightarrow> drain_loop strict X R others ins (Suc i) n w'
           | (w', Ok False) \<Rightarrow> (w', Ok ())
           | (w', Err x) \<Rightarrow> (w', Err x)
           | (w', Panic x) \<Rightarrow> (w', Panic x))"

definition drainBuffer ::
    "bool \<Rightarrow> ('a) crypto_env_scheme \<Rightarrow> 'db repository \<Rightarrow> (nat \<Rightarrow> 'db worker \<Rightarrow> 'db worker) \<Rightarrow> (nat \<Rightarrow> fresh \<times> int)
       \<Rightarrow> 'db worker \<Rightarrow> 'db worker \<times> unit outcome" where
  "drainBuffer strict X R others ins w =
     (case Check strict (Cap (w_ring w) \<le> int maxDrainEvents)
             (''ring buffer cap exceeds max: '' @ show_int (Cap (w_ring w))) of
        Panic x \<Rightarrow> (w, Panic x)
      | Err x \<Rightarrow> (w\<lparr>w_unhealthy := True\<rparr>, Err x)
      | Ok _ \<Rightarrow> drain_loop strict X R others ins 0 maxDrainEvents w)"

text \<open>
  One round of \<^verbatim>\<open>processEvents\<close>: \<open>None\<close> while it waits for a signal, otherwise the state after the round
  and whether the goroutine goes on. A closed channel still delivers the token it holds.
\<close>

definition processEvents_round ::
    "bool \<Rightarrow> ('a) crypto_env_scheme \<Rightarrow> 'db repository \<Rightarrow> (nat \<Rightarrow> 'db worker \<Rightarrow> 'db worker) \<Rightarrow> (nat \<Rightarrow> fresh \<times> int)
       \<Rightarrow> 'db worker \<Rightarrow> ('db worker \<times> bool outcome) option" where
  "processEvents_round strict X R others ins w =
     (if w_signal w
      then Some (case Check strict (Cap (w_ring w) \<le> int maxDrainEvents)
                        (''ring buffer cap exceeds max: '' @ show_int (Cap (w_ring w))) of
             Panic x \<Rightarrow> (w\<lparr>w_signal := False\<rparr>, Panic x)
           | Err x \<Rightarrow> (w\<lparr>w_signal := False, w_unhealthy := True\<rparr>, Ok False)
           | Ok _ \<Rightarrow> (case drain_loop strict X R others ins 0 maxDrainEvents (w\<lparr>w_signal := False\<rparr>) of
                        (w', Ok _) \<Rightarrow> (w', Ok True)
                      | (w', Err x) \<Rightarrow> (w', Err x)
                      | (w', Panic x) \<Rightarrow> (w', Panic x)))
      else if w_stopped w then Some (w, Ok False)
      else None)"

section \<open>Start, anchoring and shutdown\<close>

definition Start ::
    "bool \<Rightarrow> ('a) crypto_env_scheme \<Rightarrow> 'db repository \<Rightarrow> fresh \<Rightarrow> string \<Rightarrow> Anchor outcome \<Rightarrow> 'db worker
       \<Rightarrow> 'db worker \<times> unit outcome" where
  "Start strict X R fr uuid anchor w =
     (let started = (\<lambda>w runID. (w\<lparr>w_runID := runID, w_closing := False,
                        w_processor := Some (NewEventProcessor (w_signer w) runID)\<rparr>, Ok ())) in
      case wrap_err ''checking for existing runs'' (repo_HasRuns R (w_db w)) of
        Err x \<Rightarrow> (w, Err x)
      | Panic x \<Rightarrow> (w, Panic x)
      | Ok hasRuns \<Rightarrow>
          if \<not> hasRuns
          then (case CreateGenesisBlock strict X R (w_signer w) fr uuid anchor (w_db w) (w_pools w)
                       ''Logryph-Agent'' of
                  (d', ps', Err x) \<Rightarrow> (w\<lparr>w_db := d', w_pools := ps'\<rparr>, Err (Wrap ''creating genesis block'' x))
                | (d', ps', Panic x) \<Rightarrow> (w\<lparr>w_db := d', w_pools := ps'\<rparr>, Panic x)
                | (d', ps', Ok runID) \<Rightarrow> started (w\<lparr>w_db := d', w_pools := ps'\<rparr>) runID)
          else (case wrap_err ''loading run ID'' (repo_GetRunID R (w_db w)) of
                  Err x \<Rightarrow> (w, Err x)
                | Panic x \<Rightarrow> (w, Panic x)
                | Ok runID \<Rightarrow> started w runID))"

text \<open>One tick of \<^verbatim>\<open>anchorLoop\<close>: a failed fetch is skipped, a fetched anchor is submitted as an event.\<close>

definition anchor_event :: "fresh \<Rightarrow> Anchor \<Rightarrow> event \<Rightarrow> event" where
  "anchor_event fr a e =
     (let e1 = make_params (e\<lparr>ID := take 8 (f_uuid fr), Timestamp := f_now fr, EventType := ''anchor'',
                 Method := ''logryph:anchor'', Actor := ''system''\<rparr>)
      in e1\<lparr>Params := map_option (gm_of_list (anchor_params a)) (Params e1)\<rparr>)"

definition anchor_tick ::
    "bool \<Rightarrow> (nat \<Rightarrow> 'db worker \<Rightarrow> 'db worker) \<Rightarrow> ('db worker \<Rightarrow> 'db worker) \<Rightarrow> fresh \<Rightarrow> Anchor outcome
       \<Rightarrow> 'db worker \<Rightarrow> 'db worker \<times> unit outcome" where
  "anchor_tick strict others race fr anchor w =
     (case anchor of
        Err x \<Rightarrow> (w, Ok ())
      | Panic x \<Rightarrow> (w, Panic x)
      | Ok a \<Rightarrow>
          (let (ps, e) = GetEvent (f_pick fr) (w_pools w)
           in Submit strict others race (w\<lparr>w_pools := ps\<rparr>) (Some (anchor_event fr a e))))"

text \<open>
  \<^verbatim>\<open>waitForStop\<close>: \<open>stop_at\<close> is the number of ticks after which both goroutines have ended, if they do.
\<close>

definition waitForStop :: "bool \<Rightarrow> int \<Rightarrow> nat option \<Rightarrow> unit outcome" where
  "waitForStop strict timeout stop_at =
     bind_outcome (Check strict (timeout > 0) ''timeout must be positive'') (\<lambda>_.
     let step = timeout div int maxShutdownTicks;
         step1 = (if step = 0 then 1000000 else step) in
     bind_outcome (Check strict (step1 > 0) ''shutdown step must be positive'') (\<lambda>_.
     case stop_at of
       Some k \<Rightarrow> if k < maxShutdownTicks then Ok ()
                  else Err (ErrorString ''worker shutdown wait exceeded timeout'')
     | None \<Rightarrow> Err (ErrorString ''worker shutdown wait exceeded timeout'')))"

text \<open>
  \<^verbatim>\<open>Shutdown\<close>; \<open>meanwhile\<close> is what happens while it waits for the goroutines. When they have not ended in
  time it drains all the same, beside them: \<open>others\<close> is what they and late submitters do during the drain.
\<close>

definition Shutdown ::
    "bool \<Rightarrow> ('a) crypto_env_scheme \<Rightarrow> 'db repository \<Rightarrow> (nat \<Rightarrow> 'db worker \<Rightarrow> 'db worker) \<Rightarrow> (nat \<Rightarrow> fresh \<times> int)
       \<Rightarrow> nat option \<Rightarrow> ('db worker \<Rightarrow> 'db worker) \<Rightarrow> int \<Rightarrow> 'db worker \<Rightarrow> 'db worker \<times> unit outcome" where
  "Shutdown strict X R others ins stop_at meanwhile timeout w =
     (case Check strict (timeout > 0) ''timeout must be positive'' of
        Err x \<Rightarrow> (w, Err x)
      | Panic x \<Rightarrow> (w, Panic x)
      | Ok _ \<Rightarrow>
          (let w1 = meanwhile (w\<lparr>w_closing := True, w_stopped := True\<rparr>) in
           case waitForStop strict timeout stop_at of
             Panic x \<Rightarrow> (w1, Panic x)
           | _ \<Rightarrow>
               (case drainBuffer strict X R others ins w1 of
                  (w2, Err x) \<Rightarrow> (w2, Err x)
                | (w2, Panic x) \<Rightarrow> (w2, Panic x)
                | (w2, Ok _) \<Rightarrow> (let (d', r) = repo_Close R (w_db w2) in (w2\<lparr>w_db := d'\<rparr>, r)))))"

definition CloseWorker ::
    "bool \<Rightarrow> ('a) crypto_env_scheme \<Rightarrow> 'db repository \<Rightarrow> (nat \<Rightarrow> 'db worker \<Rightarrow> 'db worker) \<Rightarrow> (nat \<Rightarrow> fresh \<times> int)
       \<Rightarrow> nat option \<Rightarrow> ('db worker \<Rightarrow> 'db worker) \<Rightarrow> 'db worker \<Rightarrow> 'db worker \<times> unit outcome" where
  "CloseWorker strict X R others ins stop_at meanwhile w =
     Shutdown strict X R others ins stop_at meanwhile 5000000000 w"

section \<open>Lemmas: latency\<close>

lemma bucket_of_bounds:
  "bucket_of ns bs = Some i \<Longrightarrow> i < length bs \<and> ns \<le> bs ! i \<and> (\<forall>j < i. bs ! j < ns)"
proof (induction bs arbitrary: i)
  case (Cons b bs)
  then show ?case
    by (auto simp: less_Suc_eq_0_disj not_le split: if_splits)
qed simp

lemma bucket_of_total: "\<exists>i. bucket_of ns latencyBucketUpperNs = Some i"
  by (simp add: latencyBucketUpperNs_def)

lemma sum_list_bump:
  fixes xs :: "u64 list"
  shows "i < length xs \<Longrightarrow> sum_list (xs[i := xs ! i + 1]) = sum_list xs + 1"
  by (induction xs arbitrary: i) (auto split: nat.splits)

text \<open>Every recorded latency lands in exactly one bucket, the first that holds it.\<close>

lemma recordLatency_total:
  assumes "0 \<le> d" and "length (w_buckets w) = 7"
  shows "\<exists>i < 7. fst (recordLatency strict w d) = w\<lparr>w_buckets := (w_buckets w)[i := w_buckets w ! i + 1],
      w_latSum := w_latSum w + word_of_int d, w_latCount := w_latCount w + 1\<rparr>
    \<and> snd (recordLatency strict w d) = Ok ()
    \<and> word_of_int d \<le> latencyBucketUpperNs ! i
    \<and> (\<forall>j < i. latencyBucketUpperNs ! j < word_of_int d)"
proof (cases "d = 0")
  case True
  then show ?thesis
    by (intro exI [of _ 0]) (simp add: recordLatency_def latencyBucketUpperNs_def)
next
  case False
  obtain i where i: "bucket_of (word_of_int d) latencyBucketUpperNs = Some i"
    using bucket_of_total by blast
  then have "i < 7 \<and> word_of_int d \<le> latencyBucketUpperNs ! i
      \<and> (\<forall>j < i. latencyBucketUpperNs ! j < word_of_int d)"
    using bucket_of_bounds [OF i] by (simp add: latencyBucketUpperNs_def)
  then show ?thesis
    using False assms i by (intro exI [of _ i]) (simp add: recordLatency_def)
qed

section \<open>Lemmas: submission\<close>

lemma push_signal_room:
  assumes "ring_inv (w_ring w)" and "\<not> IsFull (w_ring w)" and "\<not> w_stopped w"
  shows "\<exists>rb. push_signal strict w e = (w\<lparr>w_ring := rb, w_signal := True\<rparr>, Ok ())
    \<and> ring_inv rb \<and> bcapacity rb = bcapacity (w_ring w) \<and> ring_list rb = ring_list (w_ring w) @ [e]"
proof -
  have "nat (bcount (w_ring w)) < nat (bcapacity (w_ring w))"
    using assms(1,2) by (auto simp: ring_inv_def IsFull_def)
  then show ?thesis
    using Push_room [OF assms(1), of strict e] assms(3) by (auto simp: push_signal_def)
qed

text \<open>With nobody else running, a submission is queued or counted as dropped.\<close>

abbreviation alone :: "nat \<Rightarrow> 'db worker \<Rightarrow> 'db worker" where
  "alone i w \<equiv> w"

lemma block_wait_alone:
  "block_wait alone i n w =
     (if \<not> IsFull (w_ring w) \<or> n = 0 then (w, True)
      else if w_closing w then (drop_event w, False)
      else (w\<lparr>w_blocked := w_blocked w + of_nat n\<rparr>, True))"
proof (induction n arbitrary: i w)
  case (Suc n)
  then show ?case by (auto simp: add.assoc)
qed simp

definition accepts :: "'db worker \<Rightarrow> bool" where
  "accepts w \<longleftrightarrow> \<not> w_closing w \<and> \<not> IsFull (w_ring w)"

lemma Submit_accepts:
  assumes "ring_inv (w_ring w)" and "accepts w" and "\<not> w_stopped w"
  shows "\<exists>rb. Submit strict alone id w (Some e) = (w\<lparr>w_ring := rb, w_signal := True\<rparr>, Ok ())
    \<and> ring_inv rb \<and> bcapacity rb = bcapacity (w_ring w) \<and> ring_list rb = ring_list (w_ring w) @ [Some e]"
  using push_signal_room [OF assms(1) _ assms(3), of strict "Some e"] assms(2)
  by (auto simp: Submit_def NotNil_def accepts_def block_wait_alone)

lemma Submit_drops:
  assumes "\<not> accepts w"
  shows "Submit strict alone id w (Some e) =
    (w\<lparr>w_blocked := w_blocked w + (if w_mode w = BackpressureBlock \<and> \<not> w_closing w then 1000 else 0),
       w_dropped := w_dropped w + 1\<rparr>, Ok ())"
  using assms
  by (auto simp: Submit_def NotNil_def accepts_def block_wait_alone drop_event_def deref_def
      maxBlockAttempts_def)

section \<open>Lemmas: processing\<close>

text \<open>Events whose maps are in canonical form, as every event of the program has them.\<close>

definition event_wf :: "event \<Rightarrow> bool" where
  "event_wf e \<longleftrightarrow> event_ok e \<and> (\<forall>m. Params e = Some m \<longrightarrow> gm_wf m) \<and> (\<forall>m. Response e = Some m \<longrightarrow> gm_wf m)"

text \<open>The open tasks the worker's processor knows of.\<close>

definition open_tasks :: "'db worker \<Rightarrow> string gomap" where
  "open_tasks w = (case w_processor w of None \<Rightarrow> [] | Some p \<Rightarrow> p_taskStates p)"

text \<open>The queued events, as events.\<close>

definition queued :: "'db worker \<Rightarrow> event list" where
  "queued w = map the (ring_list (w_ring w))"

lemma recordLatency_frame:
  "\<exists>b s c. fst (recordLatency strict w d) = w\<lparr>w_buckets := b, w_latSum := s, w_latCount := c\<rparr>"
proof -
  let ?r = "fst (recordLatency strict w d)"
  have "?r = w\<lparr>w_buckets := w_buckets ?r, w_latSum := w_latSum ?r, w_latCount := w_latCount ?r\<rparr>"
    by (cases "0 \<le> d"; cases "d = 0"; cases strict) (simp_all add: recordLatency_def Let_def)
  then show ?thesis by blast
qed

context event_repository
begin

definition winv :: "'db worker \<Rightarrow> bool" where
  "winv w \<longleftrightarrow> ring_inv (w_ring w) \<and> clean_pools (w_pools w) \<and> signer_ok X (w_signer w)
     \<and> (\<forall>ptr \<in> set (ring_list (w_ring w)). \<exists>e. ptr = Some e \<and> event_wf e)
     \<and> (\<exists>p. w_processor w = Some p \<and> p_signer p = w_signer w \<and> p_runID p = w_runID w
          \<and> ledger p (w_db w) \<and> tasks_ok (p_taskStates p))"

lemma process_event_cases:
  assumes X: "crypto_ok X" and w: "winv w" and e: "event_wf e" and now: "valid_time (f_now fr)"
    and res: "process_event strict X R fr w (Some e) = (w', ptr, x)"
  shows "winv w' \<and> (\<exists>e'. ptr = Some e' \<and> same_content e e' \<and> event_wf e')
    \<and> (\<exists>p d ps. w' = w\<lparr>w_processor := p, w_db := d, w_pools := ps\<rparr>)
    \<and> (\<exists>es. extends (w_runID w) es (w_db w) (w_db w') \<and> length es \<le> 2
        \<and> (x = Ok () \<longrightarrow> gains strict X (open_tasks w) e es \<and> open_tasks w' = task_next e (open_tasks w)))"
proof -
  obtain p where p: "w_processor w = Some p" "p_signer p = w_signer w" "p_runID p = w_runID w"
    "ledger p (w_db w)" "tasks_ok (p_taskStates p)"
    using w by (auto simp: winv_def)
  obtain p' d' ps' where pe: "ProcessEvent strict X R fr p (w_db w) (w_pools w) (Some e) = (p', d', ps', ptr, x)"
    and w': "w' = w\<lparr>w_processor := Some p', w_db := d', w_pools := ps'\<rparr>"
    using res p(1) by (auto simp: process_event_def split: prod.splits)
  have "signer_ok X (p_signer p)" "clean_pools (w_pools w)" "event_ok e"
    using w p(2) e by (simp_all add: winv_def event_wf_def)
  note c = process_cases [OF X this(1) p(4) this(2) now p(5) this(3) pe]
  obtain e' where e': "ptr = Some e'" "same_content e e'" using c by blast
  have "event_wf e'"
    using e same_content_ok [OF e'(2)] same_content_fields [OF e'(2)] by (simp add: event_wf_def)
  moreover have "ledger p' d'" using c by (simp add: ledger_def)
  ultimately show ?thesis
    using c w e' p unfolding w' by (auto simp: winv_def open_tasks_def)
qed

text \<open>
  One round of a drain loop on a non-empty buffer: the oldest event leaves the ring and, unless the
  round flags the worker as unhealthy or panics, it is in the ledger.
\<close>

lemma process_one_cases:
  assumes X: "crypto_ok X" and w: "winv w" and q: "ring_list (w_ring w) = Some e # rest"
    and now: "valid_time (f_now fr)"
    and res: "process_one strict X R fr dur w = (w', x)"
  shows "winv w' \<and> ring_list (w_ring w') = rest \<and> bcapacity (w_ring w') = bcapacity (w_ring w)
    \<and> w_runID w' = w_runID w \<and> w_stopped w' = w_stopped w \<and> w_closing w' = w_closing w
    \<and> w_dropped w' = w_dropped w \<and> x \<noteq> Ok False
    \<and> (x = Ok True \<longrightarrow> w_processed w' = w_processed w + 1) \<and> (w_unhealthy w \<longrightarrow> w_unhealthy w')
    \<and> (\<exists>es. extends (w_runID w) es (w_db w) (w_db w') \<and> length es \<le> 2
        \<and> (x = Ok True \<longrightarrow> \<not> w_unhealthy w' \<longrightarrow>
             gains strict X (open_tasks w) e es \<and> open_tasks w' = task_next e (open_tasks w)))"
proof -
  have ring: "ring_inv (w_ring w)" using w by (simp add: winv_def)
  obtain rb where rb: "Pop strict (w_ring w) = (rb, Ok (Some e))" "ring_inv rb"
    "bcapacity rb = bcapacity (w_ring w)" "ring_list rb = rest"
    using Pop_item [OF ring q, of strict] by blast
  let ?w = "w\<lparr>w_ring := rb\<rparr>"
  have w0: "winv ?w" and e: "event_wf e"
    using w q rb by (auto simp: winv_def)
  obtain w1 ptr y where pe: "process_event strict X R fr ?w (Some e) = (w1, ptr, y)"
    by (metis prod_cases3)
  note c = process_event_cases [OF X w0 e now pe]
  obtain p d ps where w1: "winv w1" "w1 = ?w\<lparr>w_processor := p, w_db := d, w_pools := ps\<rparr>"
    using c by blast
  obtain e' where e': "ptr = Some e'" "event_wf e'"
    using c by blast
  have tasks: "open_tasks ?w = open_tasks w" by (simp add: open_tasks_def)
  have "\<exists>es. extends (w_runID ?w) es (w_db ?w) (w_db w1) \<and> length es \<le> 2
      \<and> (y = Ok () \<longrightarrow> gains strict X (open_tasks w) e es \<and> open_tasks w1 = task_next e (open_tasks w))"
    using c unfolding tasks by blast
  then obtain es where es: "extends (w_runID w) es (w_db w) (w_db w1)" "length es \<le> 2"
      "y = Ok () \<longrightarrow> gains strict X (open_tasks w) e es \<and> open_tasks w1 = task_next e (open_tasks w)"
    by auto
  define w2 where "w2 = w1\<lparr>w_unhealthy := w_unhealthy w1 \<or> (\<exists>z. y = Err z)\<rparr>"
  obtain w3 r where lat: "recordLatency strict w2 dur = (w3, r)" by fastforce
  obtain b s c where w3: "w3 = w2\<lparr>w_buckets := b, w_latSum := s, w_latCount := c\<rparr>"
    using recordLatency_frame [of strict w2 dur] lat by auto
  obtain ps' put where pt: "PutEvent strict (w_pools w3) (Some e') = (ps', put)" by fastforce
  have clean: "clean_pools ps'"
    using PutEvent_clean [of "w_pools w3" e' strict] pt e'(2) w1(1)
    by (auto simp: w3 w2_def winv_def event_wf_def)
  let ?w4 = "w3\<lparr>w_processed := w_processed w3 + 1, w_pools := ps'\<rparr>"
  have inv: "winv w2" "winv w3" "winv ?w4"
    using w1(1) clean by (auto simp: winv_def w3 w2_def)
  have out: "(w', x) = (if is_panic y then (w1, Panic (case y of Panic z \<Rightarrow> z | _ \<Rightarrow> AssertionFailed ''''))
      else case r of Ok _ \<Rightarrow> (?w4, bind_outcome put (\<lambda>_. Ok True))
        | Err z \<Rightarrow> (w3, Err z) | Panic z \<Rightarrow> (w3, Panic z))"
  proof (cases y)
    case (Ok u)
    then show ?thesis
      using res lat pt by (auto simp: process_one_def rb pe e'(1) w2_def split: outcome.splits)
  next
    case (Err z)
    then show ?thesis
      using res lat pt by (auto simp: process_one_def rb pe e'(1) deref_def w2_def split: outcome.splits)
  next
    case (Panic z)
    then show ?thesis using res by (auto simp: process_one_def rb pe)
  qed
  have frame: "w' \<in> {w1, w3, ?w4}" "x \<noteq> Ok False"
    "x = Ok True \<Longrightarrow> w' = ?w4 \<and> \<not> is_panic y"
    using out by (auto simp: outcome_simps split: if_splits outcome.splits)
  have eqs: "w_db w' = w_db w1" "ring_list (w_ring w') = rest" "bcapacity (w_ring w') = bcapacity (w_ring w)"
    "w_runID w' = w_runID w" "w_stopped w' = w_stopped w" "w_closing w' = w_closing w"
    "w_dropped w' = w_dropped w" "w_unhealthy w \<longrightarrow> w_unhealthy w'" "winv w'" "open_tasks w' = open_tasks w1"
    using frame(1) rb w1 inv by (auto simp: w3 w2_def open_tasks_def)
  moreover have "w_processed w' = w_processed w + 1" if "x = Ok True"
    using frame(3) [OF that] w1 by (simp add: w3 w2_def)
  moreover have "y = Ok ()" if "x = Ok True" "\<not> w_unhealthy w'"
    using frame(3) [OF that(1)] that(2) by (cases y) (auto simp: w3 w2_def)
  ultimately show ?thesis
    using frame(2) es by metis
qed

end

text \<open>The body of the drain loops has no error return.\<close>

lemma PutEvent_no_err: "PutEvent strict p ptr \<noteq> (q, Err z)"
  by (cases ptr) (auto simp: PutEvent_def Let_def split: outcome.splits)

lemma recordLatency_no_err: "recordLatency strict v dur \<noteq> (u, Err x)"
  by (cases "0 \<le> dur"; cases "dur = 0"; cases strict) (simp_all add: recordLatency_def Let_def)

lemma process_one_no_err: "process_one strict X R fr dur w \<noteq> (w', Err z)"
  by (auto simp: process_one_def Let_def bind_outcome_Err_iff recordLatency_no_err PutEvent_no_err
      deref_def split: outcome.splits prod.splits if_splits)

context event_repository
begin

text \<open>
  A drain loop that runs alone, with enough rounds, and does not panic empties the ring and counts every
  event; if it leaves the worker healthy, every queued event is in the ledger.
\<close>

lemma drain_cases:
  assumes X: "crypto_ok X" and now: "\<And>i. valid_time (f_now (fst (ins i)))"
  shows "winv w \<Longrightarrow> length (ring_list (w_ring w)) \<le> n \<Longrightarrow> drain_loop strict X R alone ins i n w = (w', x) \<Longrightarrow>
    winv w' \<and> w_runID w' = w_runID w \<and> (\<forall>y. x \<noteq> Err y) \<and> w_dropped w' = w_dropped w
    \<and> (w_unhealthy w \<longrightarrow> w_unhealthy w')
    \<and> (\<exists>es. extends (w_runID w) es (w_db w) (w_db w') \<and> length es \<le> 2 * length (ring_list (w_ring w))
         \<and> (x = Ok () \<longrightarrow> \<not> w_unhealthy w' \<longrightarrow> recorded strict X (open_tasks w) (queued w) es))
    \<and> (x = Ok () \<longrightarrow> ring_list (w_ring w') = []
         \<and> w_processed w' = w_processed w + of_nat (length (ring_list (w_ring w))))"
proof (induction n arbitrary: i w)
  case 0
  have "extends (w_runID w) [] (w_db w) (w_db w)" by (rule extends_refl)
  moreover have "ring_list (w_ring w) = []"
    using "0.prems"(2) by (simp del: ring_list_length)
  ultimately show ?case using "0.prems"(1,3) by (auto simp: queued_def)
next
  case (Suc n)
  have ring: "ring_inv (w_ring w)" using Suc.prems(1) by (simp add: winv_def)
  show ?case
  proof (cases "ring_list (w_ring w)")
    case Nil
    then have "(w', x) = (w, Ok ())"
      using Suc.prems(3) IsEmpty_iff [OF ring] by simp
    then show ?thesis
      using Suc.prems(1) Nil extends_refl [of "w_runID w" "w_db w"] by (auto simp: queued_def)
  next
    case (Cons ptr rest)
    obtain e where e: "ptr = Some e" using Suc.prems(1) Cons by (auto simp: winv_def)
    obtain w1 y where one: "process_one strict X R (fst (ins i)) (snd (ins i)) w = (w1, y)" by fastforce
    note c = process_one_cases [OF X Suc.prems(1) Cons [unfolded e] now one]
    obtain es where es: "extends (w_runID w) es (w_db w) (w_db w1)" "length es \<le> 2"
      "y = Ok True \<longrightarrow> \<not> w_unhealthy w1 \<longrightarrow>
         gains strict X (open_tasks w) e es \<and> open_tasks w1 = task_next e (open_tasks w)"
      using c by blast
    have ne: "\<not> IsEmpty (w_ring w)" using IsEmpty_iff [OF ring] Cons by simp
    have q: "queued w = e # queued w1" using Cons e c by (simp add: queued_def)
    show ?thesis
    proof (cases "y = Ok True")
      case True
      have rec: "drain_loop strict X R alone ins (Suc i) n w1 = (w', x)"
        using Suc.prems(3) ne one True by simp
      have "length (ring_list (w_ring w1)) \<le> n" using c Cons Suc.prems(2) by simp
      note ih = Suc.IH [OF _ this rec]
      obtain fs where fs: "extends (w_runID w) fs (w_db w1) (w_db w')" "length fs \<le> 2 * length rest"
        "x = Ok () \<longrightarrow> \<not> w_unhealthy w' \<longrightarrow> recorded strict X (open_tasks w1) (queued w1) fs"
        using ih c by auto
      have grow: "extends (w_runID w) (es @ fs) (w_db w) (w_db w')"
        "length (es @ fs) \<le> 2 * length (ring_list (w_ring w))"
        using extends_trans [OF es(1) fs(1)] es(2) fs(2) Cons by simp_all
      have "recorded strict X (open_tasks w) (queued w) (es @ fs)" if "x = Ok ()" "\<not> w_unhealthy w'"
        using that es(3) fs(3) ih c True q by auto
      with grow have "\<exists>gs. extends (w_runID w) gs (w_db w) (w_db w') \<and> length gs \<le> 2 * length (ring_list (w_ring w))
          \<and> (x = Ok () \<longrightarrow> \<not> w_unhealthy w' \<longrightarrow> recorded strict X (open_tasks w) (queued w) gs)"
        by blast
      then show ?thesis
        using ih c Cons True by (auto simp: algebra_simps)
    next
      case False
      then obtain z where "(w', x) = (w1, Err z) \<and> y = Err z \<or> (w', x) = (w1, Panic z) \<and> y = Panic z"
        using Suc.prems(3) ne one c by (cases y) (auto split: bool.splits)
      moreover have "y \<noteq> Err z" for z
        using process_one_no_err one by metis
      ultimately show ?thesis
        using c es Cons by auto
    qed
  qed
qed

end

context event_repository
begin

text \<open>
  With no fault pending and an unused identifier (two, when the event closes a task), the oldest event is
  written: the round returns and leaves the worker as healthy as it was.
\<close>

lemma process_one_total:
  assumes X: "crypto_ok X" and w: "winv w" "up (w_db w)" and q: "ring_list (w_ring w) = Some e # rest"
    and now: "valid_time (f_now fr)" and dur: "0 \<le> dur"
    and id: "ID e \<noteq> ''''" "ID e \<notin> ids (w_db w)" and r: "w_runID w \<noteq> ''''"
    and room: "length (log (w_db w) (w_runID w)) < cap"
    and small: "go_len (Params e) \<le> 256" "go_len (Response e) \<le> 256"
    and open_task: "w_processor w = Some p"
    and fin: "closes (p_taskStates p) e \<longrightarrow> take 8 (f_uuid fr) \<noteq> ''''
      \<and> take 8 (f_uuid fr) \<notin> insert (ID e) (ids (w_db w)) \<and> Suc (length (log (w_db w) (w_runID w))) < cap"
  shows "\<exists>w'. process_one strict X R fr dur w = (w', Ok True) \<and> w_unhealthy w' = w_unhealthy w
    \<and> up (w_db w') \<and> ids (w_db w') \<subseteq> insert (ID e) (insert (take 8 (f_uuid fr)) (ids (w_db w)))"
proof -
  have ring: "ring_inv (w_ring w)" and s: "signer_ok X (w_signer w)" and ps: "clean_pools (w_pools w)"
    and e: "event_wf e" and p: "p_signer p = w_signer w" "p_runID p = w_runID w" "ledger p (w_db w)"
      "tasks_ok (p_taskStates p)"
    using w(1) q open_task by (auto simp: winv_def)
  have sp: "signer_ok X (p_signer p)" and ok: "event_ok e"
    using s p(1) e by (simp_all add: event_wf_def)
  obtain rb where rb: "Pop strict (w_ring w) = (rb, Ok (Some e))"
    using Pop_item [OF ring q, of strict] by blast
  obtain d1 e1 where per: "persistEvent strict X R p (w_db w) e = (d1, e1, Ok ())"
    using persist_total [OF X sp _ w(2) ok _ id, of strict] p r room by (auto simp: ledger_def)
  note c = persist_cases [OF X sp ok p(3) per]
  have same: "same_content e e1" and d1: "ledger p d1" using c by auto
  have small1: "go_len (Params e1) \<le> 256" "go_len (Response e1) \<le> 256"
    and wf1: "\<forall>m. Params e1 = Some m \<longrightarrow> gm_wf m" "\<forall>m. Response e1 = Some m \<longrightarrow> gm_wf m"
    using small e same_content_fields [OF same] by (simp_all add: event_wf_def)
  have grown: "up d1" "ids d1 = insert (ID e) (ids (w_db w))"
    "length (log d1 (w_runID w)) = Suc (length (log (w_db w) (w_runID w)))"
    using persist_Ok [OF X sp _ ok _ per] p(2,3) w(2) by (simp_all add: ledger_def)
  have "\<exists>p' d' ps'. ProcessEvent strict X R fr p (w_db w) (w_pools w) (Some e) = (p', d', ps', Some e1, Ok ())
      \<and> up d' \<and> ids d' \<subseteq> insert (take 8 (f_uuid fr)) (ids d1)"
  proof (cases "tracked e1")
    case True
    obtain p2 d2 ps2 where "trackTaskState strict X R fr p d1 (w_pools w) e1 = (p2, d2, ps2, Ok ())"
      "up d2" "ids d2 \<subseteq> insert (take 8 (f_uuid fr)) (ids d1)"
      using track_total [OF X sp d1 grown(1) ps now p(4) True] fin r p(2) grown tracked_content [OF same] by metis
    then show ?thesis using per True by (simp add: ProcessEvent_def tracked_def)
  next
    case False
    then show ?thesis using per grown(1) by (auto simp: ProcessEvent_def tracked_def)
  qed
  then obtain p' d' ps' where
    pe: "ProcessEvent strict X R fr p (w_db w) (w_pools w) (Some e) = (p', d', ps', Some e1, Ok ())"
    and d': "up d'" "ids d' \<subseteq> insert (take 8 (f_uuid fr)) (insert (ID e) (ids (w_db w)))"
    using grown(2) by auto
  let ?w1 = "w\<lparr>w_ring := rb, w_processor := Some p', w_db := d', w_pools := ps'\<rparr>"
  obtain w3 lr where lat: "recordLatency strict ?w1 dur = (w3, lr)" by fastforce
  have lr: "lr = Ok ()" using dur lat by (auto simp: recordLatency_def Let_def split: if_splits)
  obtain b t k where w3: "w3 = ?w1\<lparr>w_buckets := b, w_latSum := t, w_latCount := k\<rparr>"
    using recordLatency_frame [of strict ?w1 dur] lat by auto
  show ?thesis
    using rb pe lat lr d' PutEvent_small [OF small1 wf1, of strict ps']
    by (auto simp: process_one_def process_event_def open_task w3)
qed

end

end
