(* ===== verification/Byte_Buffer.thy ===== *)
theory Byte_Buffer
  imports Event_Pool
begin

text \<open>
  The part of \<^verbatim>\<open>bytes.Buffer\<close> the interceptor uses on a pooled buffer: \<^verbatim>\<open>ReadFrom\<close> and \<^verbatim>\<open>Bytes\<close>. The slice
  \<^verbatim>\<open>Bytes\<close> returns shares the buffer's array, so a body built on it is an address and a length, read when
  the body is read.
\<close>

section \<open>Operations\<close>

definition buf_bytes :: "pools \<Rightarrow> gobuffer \<Rightarrow> string" where
  "buf_bytes p b = take (gb_len b) (arrays p (gb_array b))"

text \<open>
  \<^verbatim>\<open>grow(512)\<close> before each read: the array is kept when it has the room, otherwise a new one of at least
  twice the capacity takes its place; \<open>sz\<close> is the size the allocator rounds up to.
\<close>

definition buf_grow :: "(nat \<Rightarrow> nat) \<Rightarrow> pools \<Rightarrow> gobuffer \<Rightarrow> pools \<times> gobuffer" where
  "buf_grow sz p b =
     (if int (gb_len b) + 512 \<le> gb_cap b then (p, b)
      else let c = max (gb_len b + 512) (2 * nat (gb_cap b)); c' = max c (sz c) in
        (alloc_array (buf_bytes p b @ replicate (c' - gb_len b) (CHR 0x00)) p,
         b\<lparr>gb_array := next_array p, gb_cap := int c'\<rparr>))"

definition buf_room :: "gobuffer \<Rightarrow> nat" where
  "buf_room b = nat (gb_cap b - int (gb_len b))"

definition buf_write :: "pools \<Rightarrow> gobuffer \<Rightarrow> string \<Rightarrow> pools \<times> gobuffer" where
  "buf_write p b bs =
     (let a = arrays p (gb_array b) in
      (p\<lparr>arrays := (arrays p)(gb_array b := take (gb_len b) a @ bs @ drop (gb_len b + length bs) a)\<rparr>,
       b\<lparr>gb_len := gb_len b + length bs\<rparr>))"

lemma buf_grow_room: "buf_grow sz p b = (p1, b1) \<Longrightarrow> 512 \<le> buf_room b1"
  by (auto simp: buf_grow_def buf_room_def Let_def split: if_splits)

text \<open>
  \<^verbatim>\<open>ReadFrom\<close>: every \<^verbatim>\<open>Read\<close> of the source fills at most the room there is with the next piece of its
  content; the last piece comes with the end of the stream or with its error. A read that only reports
  the end is an empty last piece.
\<close>

function ReadFrom ::
    "(nat \<Rightarrow> nat) \<Rightarrow> pools \<Rightarrow> gobuffer \<Rightarrow> string list \<Rightarrow> error option \<Rightarrow> pools \<times> gobuffer \<times> unit outcome" where
  "ReadFrom sz p b [] err =
     (let (p1, b1) = buf_grow sz p b in (p1, b1, case err of None \<Rightarrow> Ok () | Some e \<Rightarrow> Err e))"
| "ReadFrom sz p b (c # cs) err =
     (let (p1, b1) = buf_grow sz p b; (p2, b2) = buf_write p1 b1 (take (buf_room b1) c) in
      if length c \<le> buf_room b1
      then if cs = [] then (p2, b2, case err of None \<Rightarrow> Ok () | Some e \<Rightarrow> Err e)
           else ReadFrom sz p2 b2 cs err
      else ReadFrom sz p2 b2 (drop (buf_room b1) c # cs) err)"
  by pat_completeness auto

termination
proof (relation "measure (\<lambda>(sz, p, b, cs, err). length (concat cs) + length cs)")
  fix sz :: "nat \<Rightarrow> nat" and p b and c :: string and cs :: "string list" and err :: "error option" and x p1 b1 y p2 b2
  assume "x = buf_grow sz p b" "(p1, b1) = x" "\<not> length c \<le> buf_room b1"
  then show "((sz, p2, b2, drop (buf_room b1) c # cs, err), (sz, p, b, c # cs, err))
      \<in> measure (\<lambda>(sz, p, b, cs, err). length (concat cs) + length cs)"
    using buf_grow_room [of sz p b p1 b1] by simp
qed simp_all

declare ReadFrom.simps [simp del]

lemma ReadFrom_Cons:
  assumes "buf_grow sz p b = (p1, b1)" and "buf_write p1 b1 (take (buf_room b1) c) = (p2, b2)"
  shows "ReadFrom sz p b (c # cs) err =
    (if length c \<le> buf_room b1
     then if cs = [] then (p2, b2, case err of None \<Rightarrow> Ok () | Some e \<Rightarrow> Err e)
          else ReadFrom sz p2 b2 cs err
     else ReadFrom sz p2 b2 (drop (buf_room b1) c # cs) err)"
  using assms by (subst ReadFrom.simps(2)) simp

section \<open>Lemmas\<close>

definition buffer_ok :: "pools \<Rightarrow> gobuffer \<Rightarrow> bool" where
  "buffer_ok p b \<longleftrightarrow> gb_array b < next_array p \<and> length (arrays p (gb_array b)) = nat (gb_cap b)
     \<and> int (gb_len b) \<le> gb_cap b"

text \<open>What a write through buffer \<open>b\<close> leaves alone.\<close>

definition writes_only :: "gobuffer \<Rightarrow> pools \<Rightarrow> gobuffer \<Rightarrow> pools \<Rightarrow> bool" where
  "writes_only b p b' p' \<longleftrightarrow> next_array p \<le> next_array p'
     \<and> (gb_array b' = gb_array b \<or> next_array p \<le> gb_array b')
     \<and> (\<forall>a < next_array p. a \<noteq> gb_array b \<longrightarrow> arrays p' a = arrays p a)
     \<and> p' = p\<lparr>arrays := arrays p', next_array := next_array p'\<rparr>"

lemma writes_only_trans:
  assumes a: "writes_only b p b1 p1" and c: "writes_only b1 p1 b2 p2"
  shows "writes_only b p b2 p2"
proof -
  have "arrays p2 i = arrays p i" if "i < next_array p" "i \<noteq> gb_array b" for i
  proof -
    have "i < next_array p1" "i \<noteq> gb_array b1" "arrays p1 i = arrays p i"
      using a that by (auto simp: writes_only_def)
    then show ?thesis using c by (simp add: writes_only_def)
  qed
  moreover have "p2 = p\<lparr>arrays := arrays p2, next_array := next_array p2\<rparr>"
  proof -
    have "p2 = p1\<lparr>arrays := arrays p2, next_array := next_array p2\<rparr>" using c by (simp add: writes_only_def)
    also have "\<dots> = p\<lparr>arrays := arrays p1, next_array := next_array p1\<rparr>\<lparr>arrays := arrays p2, next_array := next_array p2\<rparr>"
      using a unfolding writes_only_def by (metis (no_types))
    finally show ?thesis by simp
  qed
  ultimately show ?thesis using a c by (auto simp: writes_only_def)
qed

lemma buf_grow_ok:
  assumes "buffer_ok p b" and "buf_grow sz p b = (p1, b1)"
  shows "buffer_ok p1 b1 \<and> buf_bytes p1 b1 = buf_bytes p b \<and> writes_only b p b1 p1 \<and> gb_len b1 = gb_len b"
  using assms
  by (auto simp: buf_grow_def buffer_ok_def buf_bytes_def alloc_array_def writes_only_def Let_def split: if_splits)

lemma buf_write_ok:
  assumes "buffer_ok p b" and "length bs \<le> buf_room b" and "buf_write p b bs = (p1, b1)"
  shows "buffer_ok p1 b1 \<and> buf_bytes p1 b1 = buf_bytes p b @ bs \<and> writes_only b p b1 p1
    \<and> gb_len b1 = gb_len b + length bs"
  using assms
  by (auto simp: buf_write_def buffer_ok_def buf_bytes_def buf_room_def writes_only_def Let_def)

lemma ReadFrom_ok:
  assumes "buffer_ok p b" and "ReadFrom sz p b cs err = (p', b', x)"
  shows "buffer_ok p' b' \<and> buf_bytes p' b' = buf_bytes p b @ concat cs \<and> writes_only b p b' p'
    \<and> gb_len b' = gb_len b + length (concat cs) \<and> x = (case err of None \<Rightarrow> Ok () | Some e \<Rightarrow> Err e)"
  using assms
proof (induction sz p b cs err arbitrary: p' b' x rule: ReadFrom.induct)
  case (1 sz p b err)
  then show ?case using buf_grow_ok [of p b sz p' b'] by (auto simp: ReadFrom.simps(1) split: prod.splits)
next
  case (2 sz p b c cs err)
  obtain p1 b1 where g: "buf_grow sz p b = (p1, b1)" by force
  obtain p2 b2 where w: "buf_write p1 b1 (take (buf_room b1) c) = (p2, b2)" by force
  note s1 = buf_grow_ok [OF "2.prems"(1) g]
  have s2: "buffer_ok p2 b2 \<and> buf_bytes p2 b2 = buf_bytes p b @ take (buf_room b1) c
      \<and> writes_only b p b2 p2 \<and> gb_len b2 = gb_len b + length (take (buf_room b1) c)"
    using buf_write_ok [OF _ _ w] s1 writes_only_trans [of b p b1 p1 b2 p2] by simp
  note res = "2.prems"(2) [unfolded ReadFrom_Cons [OF g w]]
  consider "length c \<le> buf_room b1" "cs = []" | "length c \<le> buf_room b1" "cs \<noteq> []" | "\<not> length c \<le> buf_room b1"
    by blast
  then show ?case
  proof cases
    case 1
    then show ?thesis using res s2 by auto
  next
    case 2
    have "ReadFrom sz p2 b2 cs err = (p', b', x)" using res 2 by simp
    from "2.IH"(1) [OF g [symmetric] refl w [symmetric] refl 2 _ this] s2 2(1) show ?thesis
      using writes_only_trans [of b p b2 p2 b' p'] by auto
  next
    case 3
    have "ReadFrom sz p2 b2 (drop (buf_room b1) c # cs) err = (p', b', x)" using res 3 by simp
    from "2.IH"(2) [OF g [symmetric] refl w [symmetric] refl 3 _ this] s2 3 show ?thesis
      using writes_only_trans [of b p b2 p2 b' p'] by auto
  qed
qed

end
