(* ===== verification/Interceptor.thy ===== *)
theory Interceptor
  imports Ledger_Worker Observer Mcp_Message Byte_Buffer
begin

text \<open>
  The proxy hooks, \<^verbatim>\<open>src/internal/interceptor/server.go\<close>, over the shared state of
  \<^verbatim>\<open>src/internal/core/engine.go\<close>: decoding a request, evaluating the policy, redacting what is forwarded
  and submitting an event. A body is an object a later reader reads: a network stream, a slice of a
  buffer's array, or bytes of its own. The worker of the engine is never nil; the process pools are part
  of its state.
\<close>

section \<open>Shared state\<close>

record 'db engine =
  c_Worker :: "'db worker"
  c_ActiveTasks :: "goval gomap"
  c_Observer :: "ObserverEngine option"
  c_LastEventByTask :: "goval gomap"

definition NewEngine :: "'db worker \<Rightarrow> ObserverEngine option \<Rightarrow> 'db engine" where
  "NewEngine w obs = \<lparr>c_Worker = w, c_ActiveTasks = [], c_Observer = obs, c_LastEventByTask = []\<rparr>"

abbreviation c_pools :: "'db engine \<Rightarrow> pools" where
  "c_pools c \<equiv> w_pools (c_Worker c)"

definition with_pools :: "'db engine \<Rightarrow> pools \<Rightarrow> 'db engine" where
  "with_pools c p = c\<lparr>c_Worker := (c_Worker c)\<lparr>w_pools := p\<rparr>\<rparr>"

section \<open>Bodies\<close>

datatype body = NilBody | Stream "string list" "error option" | View nat nat | Bytes string

record http_request =
  req_Method :: string
  req_Body :: body
  req_ContentLength :: int

text \<open>What a reader that reads the body now would read.\<close>

fun body_text :: "pools \<Rightarrow> body \<Rightarrow> string" where
  "body_text p NilBody = ''''"
| "body_text p (Stream cs err) = concat cs"
| "body_text p (View a n) = take n (arrays p a)"
| "body_text p (Bytes s) = s"

fun body_pieces :: "pools \<Rightarrow> body \<Rightarrow> string list \<times> error option" where
  "body_pieces p (Stream cs err) = (cs, err)"
| "body_pieces p b = ([body_text p b], None)"

section \<open>Policy\<close>

definition ActionAllow :: string where
  "ActionAllow = ''allow''"

definition ActionTag :: string where
  "ActionTag = ''tag''"

definition ActionRedact :: string where
  "ActionRedact = ''redact''"

definition maxPolicies :: nat where
  "maxPolicies = 256"

definition maxPatterns :: nat where
  "maxPatterns = 128"

definition maxRedactKeys :: nat where
  "maxRedactKeys = 128"

definition maxParams :: nat where
  "maxParams = 256"

fun match_patterns ::
    "bool \<Rightarrow> ('a) float_conv_scheme \<Rightarrow> fmt_conv \<Rightarrow> Rule \<Rightarrow> string \<Rightarrow> goval gomap option \<Rightarrow> string list \<Rightarrow> bool outcome" where
  "match_patterns strict F M rule mthd params [] = Ok False"
| "match_patterns strict F M rule mthd params (pattern # patterns) =
     bind_outcome (MatchPattern strict pattern mthd) (\<lambda>hit.
     if \<not> hit then match_patterns strict F M rule mthd params patterns
     else if MatchConditions rule = [] then Ok True
     else bind_outcome (CheckConditions strict F M (MatchConditions rule) params) (\<lambda>ok.
          if ok then Ok True else match_patterns strict F M rule mthd params patterns))"

fun policy_loop ::
    "bool \<Rightarrow> ('a) float_conv_scheme \<Rightarrow> fmt_conv \<Rightarrow> string \<Rightarrow> goval gomap option \<Rightarrow> Rule list
       \<Rightarrow> (string \<times> Rule option) outcome" where
  "policy_loop strict F M mthd params [] = Ok (ActionAllow, None)"
| "policy_loop strict F M mthd params (rule # rules) =
     bind_outcome (Check strict (length (MatchMethods rule) \<le> maxPatterns)
       (''match_methods exceeds max in rule='' @ r_ID rule)) (\<lambda>_.
     bind_outcome (Check strict (length (MatchConditions rule) \<le> maxConditions)
       (''conditions exceeds max in rule='' @ r_ID rule)) (\<lambda>_.
     bind_outcome (match_patterns strict F M rule mthd params (take maxPatterns (MatchMethods rule))) (\<lambda>hit.
     if hit then Ok (if Redact rule \<noteq> [] then ActionRedact else ActionTag, Some rule)
     else policy_loop strict F M mthd params rules)))"

definition evaluatePolicy ::
    "bool \<Rightarrow> ('a) float_conv_scheme \<Rightarrow> fmt_conv \<Rightarrow> ObserverEngine option \<Rightarrow> string \<Rightarrow> goval gomap option
       \<Rightarrow> (string \<times> Rule option) outcome" where
  "evaluatePolicy strict F M obs mthd params =
     bind_outcome (Check strict (obs \<noteq> None) ''observer engine missing'') (\<lambda>_.
     bind_outcome (Check strict (mthd \<noteq> '''') ''method name is non-empty'') (\<lambda>_.
     let policies = GetPolicies (the obs) in
     bind_outcome (Check strict (length policies \<le> maxPolicies)
       (''policy count exceeds max: '' @ show_nat (length policies))) (\<lambda>_.
     policy_loop strict F M mthd params (take maxPolicies policies))))"

section \<open>Requests\<close>

text \<open>\<^verbatim>\<open>m[k].(string)\<close> with the zero value when it is no string; reading a nil map finds nothing.\<close>

definition string_at :: "goval gomap option \<Rightarrow> string \<Rightarrow> string" where
  "string_at m k =
     (case m of None \<Rightarrow> ''''
      | Some kvs \<Rightarrow> (case gm_lookup kvs k of Some (GStr s) \<Rightarrow> s | _ \<Rightarrow> ''''))"

definition extractTaskMetadata ::
    "bool \<Rightarrow> ('a) float_conv_scheme \<Rightarrow> string \<Rightarrow> (MCPRequest \<times> string \<times> string) outcome" where
  "extractTaskMetadata strict F body =
     bind_outcome (Check strict (length body > 0) ''request body is empty'') (\<lambda>_.
     bind_outcome (Check strict (length body < 1024 * 1024)
       (''request body too large: size='' @ show_nat (length body))) (\<lambda>_.
     bind_outcome (wrap_err ''invalid JSON-RPC'' (UnmarshalRequest F body)) (\<lambda>mcpReq.
     bind_outcome (Check strict (rq_Method mcpReq \<noteq> '''') ''method must not be empty'') (\<lambda>_.
     bind_outcome (Check strict (rq_JSONRPC mcpReq = ''2.0'')
       (''invalid JSON-RPC version: '' @ rq_JSONRPC mcpReq)) (\<lambda>_.
     Ok (mcpReq, string_at (rq_Params mcpReq) ''task_id'', rq_Method mcpReq))))))"

fun redact_loop :: "string list \<Rightarrow> goval gomap option \<Rightarrow> goval gomap option" where
  "redact_loop [] params = params"
| "redact_loop (key # keys) params =
     redact_loop keys
       (case params of
          None \<Rightarrow> None
        | Some kvs \<Rightarrow> if gm_lookup kvs key \<noteq> None then Some (gm_update key (GStr ''[REDACTED]'') kvs) else params)"

definition redactSensitiveData ::
    "bool \<Rightarrow> ('a) float_conv_scheme \<Rightarrow> string \<Rightarrow> string list \<Rightarrow> string outcome" where
  "redactSensitiveData strict F body keys =
     bind_outcome (Check strict (length body > 0) ''body must not be empty'') (\<lambda>_.
     case Check strict (length keys > 0) ''redaction keys must be defined'' of
       Panic x \<Rightarrow> Panic x
     | Err _ \<Rightarrow> Ok body
     | Ok _ \<Rightarrow>
         bind_outcome (Check strict (length keys \<le> maxRedactKeys)
           (''redaction keys exceed max: '' @ show_nat (length keys))) (\<lambda>_.
         bind_outcome (UnmarshalRequest F body) (\<lambda>mcpReq.
         bind_outcome (Check strict (go_len (rq_Params mcpReq) \<le> maxParams)
           (''excessive parameters in request: '' @ show_nat (go_len (rq_Params mcpReq)))) (\<lambda>_.
         MarshalRequest F (mcpReq\<lparr>rq_Params := redact_loop (take maxRedactKeys keys) (rq_Params mcpReq)\<rparr>)))))"

definition policyIDOrEmpty :: "bool \<Rightarrow> Rule option \<Rightarrow> string outcome" where
  "policyIDOrEmpty strict rule =
     (case rule of
        None \<Rightarrow> Ok ''''
      | Some r \<Rightarrow>
          (case bind_outcome (Check strict (r_ID r \<noteq> '''') ''policy ID missing'') (\<lambda>_.
                 Check strict (length (r_ID r) \<le> 128) (''policy ID too long: '' @ show_nat (length (r_ID r)))) of
             Ok _ \<Rightarrow> Ok (r_ID r) | Err _ \<Rightarrow> Ok '''' | Panic x \<Rightarrow> Panic x))"

definition riskLevelOrEmpty :: "bool \<Rightarrow> Rule option \<Rightarrow> string outcome" where
  "riskLevelOrEmpty strict rule =
     (case rule of
        None \<Rightarrow> Ok ''''
      | Some r \<Rightarrow>
          (case bind_outcome (Check strict (r_RiskLevel r \<noteq> '''') ''risk level missing'') (\<lambda>_.
                 Check strict (length (r_RiskLevel r) \<le> 32)
                   (''risk level too long: '' @ show_nat (length (r_RiskLevel r)))) of
             Ok _ \<Rightarrow> Ok (r_RiskLevel r) | Err _ \<Rightarrow> Ok '''' | Panic x \<Rightarrow> Panic x))"

section \<open>Events\<close>

definition tool_call_event :: "fresh \<Rightarrow> event \<Rightarrow> string \<Rightarrow> MCPRequest \<Rightarrow> Rule option \<Rightarrow> event" where
  "tool_call_event fr e taskID mcpReq rule =
     (let e1 = e\<lparr>ID := take 8 (f_uuid fr), Timestamp := f_now fr, EventType := ''tool_call'',
                 Method := rq_Method mcpReq, Params := rq_Params mcpReq, TaskID := taskID\<rparr>
      in case rule of None \<Rightarrow> e1 | Some r \<Rightarrow> e1\<lparr>PolicyID := r_ID r, RiskLevel := r_RiskLevel r\<rparr>)"

text \<open>The parent of an event: the last call of the same task. \<^verbatim>\<open>LastEventByTask\<close> holds \<^verbatim>\<open>interface{}\<close> values.\<close>

definition link_parent :: "bool \<Rightarrow> goval gomap \<Rightarrow> string \<Rightarrow> event \<Rightarrow> event outcome" where
  "link_parent strict m taskID e =
     (if taskID = '''' then Ok e
      else case gm_lookup m taskID of
        None \<Rightarrow> Ok e
      | Some (GStr pid) \<Rightarrow> Ok (e\<lparr>ParentID := pid\<rparr>)
      | Some _ \<Rightarrow>
          (case Check strict False (''parentID has unexpected type for taskID='' @ taskID) of
             Panic x \<Rightarrow> Panic x | _ \<Rightarrow> Ok e))"

definition submitToolCallEvent ::
    "bool \<Rightarrow> (nat \<Rightarrow> 'db worker \<Rightarrow> 'db worker) \<Rightarrow> ('db worker \<Rightarrow> 'db worker) \<Rightarrow> fresh \<Rightarrow> 'db engine
       \<Rightarrow> string \<Rightarrow> MCPRequest \<Rightarrow> Rule option \<Rightarrow> 'db engine \<times> unit outcome" where
  "submitToolCallEvent strict others race fr c taskID mcpReq rule =
     (let (ps, e) = GetEvent (f_pick fr) (c_pools c);
          c1 = with_pools c ps in
      case link_parent strict (c_LastEventByTask c) taskID (tool_call_event fr e taskID mcpReq rule) of
        Panic x \<Rightarrow> (c1, Panic x)
      | Err x \<Rightarrow> (c1, Err x)
      | Ok event \<Rightarrow>
          (let c2 = (if taskID = '''' then c1
                     else c1\<lparr>c_LastEventByTask := gm_update taskID (GStr (ID event)) (c_LastEventByTask c1)\<rparr>);
               (w, r) = Submit strict others race (c_Worker c2) (Some event)
           in (c2\<lparr>c_Worker := w\<rparr>, r)))"

definition applyRedactionAndSubmit ::
    "bool \<Rightarrow> ('a) float_conv_scheme \<Rightarrow> (nat \<Rightarrow> 'db worker \<Rightarrow> 'db worker) \<Rightarrow> ('db worker \<Rightarrow> 'db worker) \<Rightarrow> fresh
       \<Rightarrow> 'db engine \<Rightarrow> http_request \<Rightarrow> string \<Rightarrow> Rule option \<Rightarrow> string \<Rightarrow> string \<Rightarrow> string \<Rightarrow> MCPRequest
       \<Rightarrow> 'db engine \<times> http_request \<times> unit outcome" where
  "applyRedactionAndSubmit strict F others race fr c req action rule bodyBytes taskID mthd mcpReq =
     (case Check strict (length mthd > 0) ''method must not be empty'' of
        Panic x \<Rightarrow> (c, req, Panic x)
      | Err x \<Rightarrow> (c, req, Err x)
      | Ok _ \<Rightarrow>
          (case (if action = ActionRedact \<and> rule \<noteq> None
                 then bind_outcome (redactSensitiveData strict F bodyBytes (Redact (the rule)))
                        (\<lambda>s. Ok (req\<lparr>req_Body := Bytes s\<rparr>))
                 else Ok req) of
             Panic x \<Rightarrow> (c, req, Panic x)
           | Err x \<Rightarrow> (c, req, Err x)
           | Ok req' \<Rightarrow>
               (case bind_outcome (policyIDOrEmpty strict rule) (\<lambda>_. riskLevelOrEmpty strict rule) of
                  Panic x \<Rightarrow> (c, req', Panic x)
                | Err x \<Rightarrow> (c, req', Err x)
                | Ok _ \<Rightarrow>
                    (let (c', r) = submitToolCallEvent strict others race fr c taskID mcpReq rule
                     in (c', req', r)))))"

section \<open>The two hooks\<close>

text \<open>
  \<open>bpick\<close> is the pool's choice of a buffer, \<open>sz\<close> the allocator's rounding. \<^verbatim>\<open>pool.PutBuffer\<close> is deferred: it
  runs on every way out, a panic included. A body that fails to be read is left consumed.
\<close>

definition read_body ::
    "nat option \<Rightarrow> (nat \<Rightarrow> nat) \<Rightarrow> pools \<Rightarrow> body \<Rightarrow> pools \<times> gobuffer \<times> unit outcome" where
  "read_body bpick sz p b =
     (let (p1, buf) = GetBuffer bpick p; (cs, err) = body_pieces p b in ReadFrom sz p1 buf cs err)"

definition put_back :: "bool \<Rightarrow> 'db engine \<Rightarrow> gobuffer \<Rightarrow> 'db engine" where
  "put_back strict c buf = with_pools c (fst (PutBuffer strict (c_pools c) (Some buf)))"

definition intercept_body ::
    "bool \<Rightarrow> ('a) float_conv_scheme \<Rightarrow> fmt_conv \<Rightarrow> (nat \<Rightarrow> 'db worker \<Rightarrow> 'db worker) \<Rightarrow> ('db worker \<Rightarrow> 'db worker)
       \<Rightarrow> fresh \<Rightarrow> 'db engine \<Rightarrow> http_request \<Rightarrow> string \<Rightarrow> 'db engine \<times> http_request \<times> unit outcome" where
  "intercept_body strict F M others race fr c req bodyBytes =
     (case extractTaskMetadata strict F bodyBytes of
        Panic x \<Rightarrow> (c, req, Panic x)
      | Err x \<Rightarrow> (c, req, Ok ())
      | Ok (mcpReq, taskID, mthd) \<Rightarrow>
          (case evaluatePolicy strict F M (c_Observer c) mthd (rq_Params mcpReq) of
             Panic x \<Rightarrow> (c, req, Panic x)
           | Err x \<Rightarrow> (c, req, Ok ())
           | Ok (action, rule) \<Rightarrow>
               (case applyRedactionAndSubmit strict F others race fr c req action rule bodyBytes taskID mthd mcpReq of
                  (c', req', Panic x) \<Rightarrow> (c', req', Panic x)
                | (c', req', _) \<Rightarrow> (c', req', Ok ()))))"

definition InterceptRequest ::
    "bool \<Rightarrow> ('a) float_conv_scheme \<Rightarrow> fmt_conv \<Rightarrow> (nat \<Rightarrow> 'db worker \<Rightarrow> 'db worker) \<Rightarrow> ('db worker \<Rightarrow> 'db worker)
       \<Rightarrow> nat option \<Rightarrow> (nat \<Rightarrow> nat) \<Rightarrow> fresh \<Rightarrow> 'db engine \<Rightarrow> http_request
       \<Rightarrow> 'db engine \<times> http_request \<times> unit outcome" where
  "InterceptRequest strict F M others race bpick sz fr c req =
     (if req_Method req \<noteq> ''POST'' then (c, req, Ok ())
      else if req_Body req = NilBody then (c, req, Ok ())
      else case read_body bpick sz (c_pools c) (req_Body req) of
        (p, buf, Panic x) \<Rightarrow> (put_back strict (with_pools c p) buf, req, Panic x)
      | (p, buf, Err x) \<Rightarrow> (put_back strict (with_pools c p) buf, req\<lparr>req_Body := Stream [] (Some x)\<rparr>, Ok ())
      | (p, buf, Ok _) \<Rightarrow>
          (let (c', req', r) = intercept_body strict F M others race fr (with_pools c p)
                 (req\<lparr>req_Body := View (gb_array buf) (gb_len buf)\<rparr>) (buf_bytes p buf)
           in (put_back strict c' buf, req', r)))"

definition response_event :: "fresh \<Rightarrow> event \<Rightarrow> goval gomap option \<Rightarrow> string \<Rightarrow> string \<Rightarrow> event" where
  "response_event fr e result taskID taskState =
     e\<lparr>ID := take 8 (f_uuid fr), Timestamp := f_now fr, EventType := ''tool_response'',
       Response := result, TaskID := taskID, TaskState := taskState\<rparr>"

definition has_string :: "goval gomap option \<Rightarrow> string \<Rightarrow> bool" where
  "has_string m k \<longleftrightarrow>
     (case m of None \<Rightarrow> False
      | Some kvs \<Rightarrow> (case gm_lookup kvs k of Some (GStr s) \<Rightarrow> True | _ \<Rightarrow> False))"

definition observe_response ::
    "bool \<Rightarrow> ('a) float_conv_scheme \<Rightarrow> (nat \<Rightarrow> 'db worker \<Rightarrow> 'db worker) \<Rightarrow> ('db worker \<Rightarrow> 'db worker) \<Rightarrow> fresh
       \<Rightarrow> 'db engine \<Rightarrow> string \<Rightarrow> 'db engine \<times> unit outcome" where
  "observe_response strict F others race fr c bodyBytes =
     (case UnmarshalResponse F bodyBytes of
        Panic x \<Rightarrow> (c, Panic x)
      | Err _ \<Rightarrow> (c, Ok ())
      | Ok mcpResp \<Rightarrow>
          if \<not> IsHealthy (c_Worker c) then (c, Ok ())
          else
            (let result = rs_Result mcpResp;
                 taskID = string_at result ''task_id'';
                 taskState = string_at result ''state'';
                 c1 = (if has_string result ''state'' \<and> taskID \<noteq> ''''
                       then c\<lparr>c_ActiveTasks := gm_update taskID (GStr taskState) (c_ActiveTasks c)\<rparr> else c);
                 (ps, e) = GetEvent (f_pick fr) (c_pools c1);
                 c2 = with_pools c1 ps;
                 (w, r) = Submit strict others race (c_Worker c2)
                            (Some (response_event fr e result taskID taskState))
             in (c2\<lparr>c_Worker := w\<rparr>, r)))"

definition InterceptResponse ::
    "bool \<Rightarrow> ('a) float_conv_scheme \<Rightarrow> (nat \<Rightarrow> 'db worker \<Rightarrow> 'db worker) \<Rightarrow> ('db worker \<Rightarrow> 'db worker)
       \<Rightarrow> nat option \<Rightarrow> (nat \<Rightarrow> nat) \<Rightarrow> fresh \<Rightarrow> 'db engine \<Rightarrow> body \<Rightarrow> 'db engine \<times> body \<times> unit outcome" where
  "InterceptResponse strict F others race bpick sz fr c respBody =
     (case read_body bpick sz (c_pools c) respBody of
        (p, buf, Panic x) \<Rightarrow> (put_back strict (with_pools c p) buf, respBody, Panic x)
      | (p, buf, Err x) \<Rightarrow> (put_back strict (with_pools c p) buf, Stream [] (Some x), Err x)
      | (p, buf, Ok _) \<Rightarrow>
          (let (c', r) = observe_response strict F others race fr (with_pools c p) (buf_bytes p buf)
           in (put_back strict c' buf, View (gb_array buf) (gb_len buf), r)))"

section \<open>Lemmas: what the hooks leave alone\<close>

definition buffers_ok :: "pools \<Rightarrow> bool" where
  "buffers_ok p \<longleftrightarrow> (\<forall>b \<in> set (bufferPool p). buffer_ok p b \<and> gb_len b = 0)"

lemma GetBuffer_ok:
  assumes "buffers_ok p" and "GetBuffer pick p = (p1, b)"
  shows "buffer_ok p1 b \<and> gb_len b = 0"
proof (cases "pick_ok pick (bufferPool p)")
  case True
  then have "bufferPool p ! the pick \<in> set (bufferPool p)"
    by (auto simp: pick_ok_def split: option.splits)
  then show ?thesis
    using assms True by (auto simp: GetBuffer_def buffers_ok_def buffer_ok_def)
next
  case False
  then show ?thesis
    using assms by (auto simp: GetBuffer_def new_gobuffer_def alloc_array_def buffer_ok_def)
qed

lemma read_body_ok:
  assumes "buffers_ok p" and "body_pieces p b = (cs, err)" and "read_body bpick sz p b = (p', buf, x)"
  shows "buf_bytes p' buf = concat cs \<and> gb_len buf = length (concat cs)
    \<and> x = (case err of None \<Rightarrow> Ok () | Some e \<Rightarrow> Err e)"
proof -
  obtain p1 b1 where g: "GetBuffer bpick p = (p1, b1)" by force
  have "buffer_ok p1 b1" "gb_len b1 = 0" using GetBuffer_ok [OF assms(1) g] by auto
  moreover have "ReadFrom sz p1 b1 cs err = (p', buf, x)"
    using assms(2,3) g by (simp add: read_body_def)
  ultimately show ?thesis
    using ReadFrom_ok [of p1 b1 sz cs err p' buf x] by (auto simp: buf_bytes_def)
qed

lemma with_pools_simps [simp]:
  "c_pools (with_pools c p) = p" "c_Observer (with_pools c p) = c_Observer c"
  "c_LastEventByTask (with_pools c p) = c_LastEventByTask c" "c_ActiveTasks (with_pools c p) = c_ActiveTasks c"
  "c_Worker (with_pools c p) = (c_Worker c)\<lparr>w_pools := p\<rparr>"
  by (simp_all add: with_pools_def)

lemma Submit_pools: "w_pools (fst (Submit strict alone id w (Some e))) = w_pools w"
  by (auto simp: Submit_def NotNil_def block_wait_alone drop_event_def push_signal_def
      split: outcome.splits prod.splits)

text \<open>The part of the pools that the byte buffers live in.\<close>

definition byte_heap :: "pools \<Rightarrow> (nat \<Rightarrow> string) \<times> nat \<times> gobuffer list" where
  "byte_heap p = (arrays p, next_array p, bufferPool p)"

lemma GetEvent_heap: "byte_heap (fst (GetEvent pick p)) = byte_heap p"
  by (simp add: GetEvent_def new_event_def byte_heap_def)

lemma submitToolCallEvent_heap:
  "byte_heap (c_pools (fst (submitToolCallEvent strict alone id fr c taskID mcpReq rule))) = byte_heap (c_pools c)"
  by (simp add: submitToolCallEvent_def Let_def case_prod_beta Submit_pools GetEvent_heap split: outcome.split)

lemma put_back_arrays: "arrays (c_pools (put_back strict c b)) = arrays (c_pools c)"
  by (auto simp: put_back_def PutBuffer_def split: outcome.splits)

lemma apply_frame:
  assumes "applyRedactionAndSubmit strict F alone id fr c req action rule body taskID mthd mcpReq = (c', req', x)"
  shows "byte_heap (c_pools c') = byte_heap (c_pools c)
    \<and> (req' = req \<or> (\<exists>r s. rule = Some r \<and> redactSensitiveData strict F body (Redact r) = Ok s
                        \<and> req' = req\<lparr>req_Body := Bytes s\<rparr>))"
  using assms submitToolCallEvent_heap [of strict fr c taskID mcpReq rule]
  by (auto simp: applyRedactionAndSubmit_def Let_def case_prod_beta outcome_simps bind_outcome_Err_iff
      split: outcome.splits if_splits)

lemma intercept_body_frame:
  assumes "intercept_body strict F M alone id fr c req body = (c', req', x)"
  shows "byte_heap (c_pools c') = byte_heap (c_pools c)
    \<and> (req' = req \<or> (\<exists>(r :: Rule) s. redactSensitiveData strict F body (Redact r) = Ok s \<and> req' = req\<lparr>req_Body := Bytes s\<rparr>))"
  using assms
  by (auto simp: intercept_body_def split: outcome.splits prod.splits dest!: apply_frame)

text \<open>
  The policy turns a body into another one: the body is a call, the first rule that applies to it lists
  keys to redact, and the redaction of the body under that rule succeeds with \<open>s\<close>.
\<close>

definition redacts_to ::
    "bool \<Rightarrow> ('a) float_conv_scheme \<Rightarrow> fmt_conv \<Rightarrow> ObserverEngine option \<Rightarrow> string \<Rightarrow> string \<Rightarrow> bool" where
  "redacts_to strict F M obs body s \<longleftrightarrow>
     (\<exists>q t m r. extractTaskMetadata strict F body = Ok (q, t, m)
        \<and> evaluatePolicy strict F M obs m (rq_Params q) = Ok (ActionRedact, Some r)
        \<and> redactSensitiveData strict F body (Redact r) = Ok s)"

lemma redacts_to_unique: "redacts_to strict F M obs body s \<Longrightarrow> redacts_to strict F M obs body s' \<Longrightarrow> s' = s"
  by (auto simp: redacts_to_def)

lemma intercept_body_request:
  assumes "intercept_body strict F M others race fr c req body = (c', req', x)"
  shows "(redacts_to strict F M (c_Observer c) body s \<longrightarrow> req' = req\<lparr>req_Body := Bytes s\<rparr>)
    \<and> ((\<nexists>s. redacts_to strict F M (c_Observer c) body s) \<longrightarrow> req' = req)"
proof (cases "extractTaskMetadata strict F body")
  case (Ok y)
  then obtain q t m where y: "y = (q, t, m)" "m \<noteq> ''''"
    by (cases y) (auto simp: extractTaskMetadata_def outcome_simps)
  show ?thesis
    using assms Ok y
    by (auto simp: intercept_body_def redacts_to_def applyRedactionAndSubmit_def Let_def case_prod_beta
        outcome_simps bind_outcome_Err_iff split: outcome.splits prod.splits if_splits)
qed (use assms in \<open>auto simp: intercept_body_def redacts_to_def\<close>)

text \<open>
  Right after the hook the body is the redacted one where the policy asks for redaction and redaction
  succeeds, and reads as it came otherwise.
\<close>

lemma InterceptRequest_body:
  assumes "buffers_ok (c_pools c)" and "body_pieces (c_pools c) (req_Body req) = (cs, None)"
    and "InterceptRequest strict F M alone id bpick sz fr c req = (c', req', x)"
    and "req_Method req = ''POST''" and "req_Body req \<noteq> NilBody"
  shows "req_Method req' = ''POST'' \<and> req_ContentLength req' = req_ContentLength req
    \<and> (redacts_to strict F M (c_Observer c) (concat cs) s \<longrightarrow> req_Body req' = Bytes s)
    \<and> ((\<nexists>s. redacts_to strict F M (c_Observer c) (concat cs) s) \<longrightarrow> body_text (c_pools c') (req_Body req') = concat cs)"
proof -
  obtain p buf y where b: "read_body bpick sz (c_pools c) (req_Body req) = (p, buf, y)"
    by (cases "read_body bpick sz (c_pools c) (req_Body req)")
  have t: "buf_bytes p buf = concat cs" "y = Ok ()"
    using read_body_ok [OF assms(1,2) b] by simp_all
  let ?req = "req\<lparr>req_Body := View (gb_array buf) (gb_len buf)\<rparr>"
  obtain c1 req1 x1 where i: "intercept_body strict F M alone id fr (with_pools c p) ?req (buf_bytes p buf) = (c1, req1, x1)"
    by (cases "intercept_body strict F M alone id fr (with_pools c p) ?req (buf_bytes p buf)")
  have r: "c' = put_back strict c1 buf" "req' = req1"
    using assms(3-5) b t(2) i by (auto simp: InterceptRequest_def)
  have "arrays (c_pools c1) = arrays p" using intercept_body_frame [OF i] by (auto simp: byte_heap_def)
  moreover have "req1 = ?req\<lparr>req_Body := Bytes s\<rparr>" if "redacts_to strict F M (c_Observer c) (concat cs) s" for s
    using intercept_body_request [OF i, of s] t(1) that by simp
  moreover have "req1 = ?req" if "\<nexists>s. redacts_to strict F M (c_Observer c) (concat cs) s"
    using intercept_body_request [OF i] t(1) that by simp
  ultimately show ?thesis
    using r t(1) assms(4) put_back_arrays [of strict c1 buf]
    by (cases "\<exists>s. redacts_to strict F M (c_Observer c) (concat cs) s") (auto simp: buf_bytes_def)
qed

section \<open>Lemmas: redaction\<close>

lemma redact_loop_lookup:
  "\<exists>kvs'. redact_loop keys (Some kvs) = Some kvs'
     \<and> (\<forall>k. gm_lookup kvs' k = (if k \<in> set keys \<and> gm_lookup kvs k \<noteq> None then Some (GStr ''[REDACTED]'') else gm_lookup kvs k))"
proof (induction keys arbitrary: kvs)
  case (Cons key keys)
  show ?case
  proof (cases "gm_lookup kvs key")
    case None
    then show ?thesis using Cons.IH [of kvs] by auto
  next
    case (Some v)
    obtain kvs' where k: "redact_loop keys (Some (gm_update key (GStr ''[REDACTED]'') kvs)) = Some kvs'"
      "\<forall>k. gm_lookup kvs' k = (if k \<in> set keys \<and> gm_lookup (gm_update key (GStr ''[REDACTED]'') kvs) k \<noteq> None
         then Some (GStr ''[REDACTED]'') else gm_lookup (gm_update key (GStr ''[REDACTED]'') kvs) k)"
      using Cons.IH by blast
    show ?thesis using k Some by (auto simp: gm_lookup_update)
  qed
qed simp

lemma redact_loop_None: "redact_loop keys None = None"
  by (induction keys) simp_all

lemma to_valid_redacted: "to_valid ''[REDACTED]'' = ''[REDACTED]''"
  by (simp add: to_valid.simps utf8_len_ascii cv_def)

lemma redact_loop_decoded: "map_decoded m \<Longrightarrow> map_decoded (redact_loop keys m)"
proof (induction keys arbitrary: m)
  case (Cons key keys)
  have "map_decoded (Some (gm_update key (GStr ''[REDACTED]'') kvs))"
    if "m = Some kvs" "gm_lookup kvs key \<noteq> None" for kvs
  proof -
    have "decoded_map (max_nesting - 2) kvs" using Cons.prems that by (simp add: map_decoded_def)
    moreover have "to_valid key = key"
      using that calculation by (auto simp: decoded_map_def normal_members_iff dest: map_of_SomeD)
    ultimately show ?thesis
      by (simp add: map_decoded_def decoded_map_update decoded_def to_valid_redacted)
  qed
  then show ?case using Cons by (cases m) auto
qed simp

lemma redact_round_trip:
  assumes F: "float_conv_ok F" and q: "UnmarshalRequest F body = Ok q"
    and s: "redactSensitiveData strict F body keys = Ok s" and keys: "keys \<noteq> []"
  shows "UnmarshalRequest F s = Ok (q\<lparr>rq_Params := redact_loop keys (rq_Params q)\<rparr>)"
proof -
  let ?q = "q\<lparr>rq_Params := redact_loop keys (rq_Params q)\<rparr>"
  have ok: "request_ok q" "map_decoded (rq_Params q)" using UnmarshalRequest_ok [OF F q] by auto
  have q': "request_ok ?q"
    using ok map_decoded_ok [OF redact_loop_decoded [OF ok(2), of keys]] by (simp add: request_ok_def)
  have "length keys \<le> maxRedactKeys" and m: "MarshalRequest F ?q = Ok s"
    using s q keys by (auto simp: redactSensitiveData_def outcome_simps)
  then show ?thesis
    using MarshalRequest_ok [OF q', of F] request_round_trip [OF F q'] by simp
qed

section \<open>Lemmas: events\<close>

lemma read_body_clean:
  assumes "clean_pools p" and "buffers_ok p" and "read_body bpick sz p b = (p', buf, x)"
  shows "clean_pools p'"
proof -
  obtain p1 b1 where g: "GetBuffer bpick p = (p1, b1)" by force
  obtain cs err where b: "body_pieces p b = (cs, err)" by force
  have "buffer_ok p1 b1" "clean_pools p1"
    using GetBuffer_ok [OF assms(2) g] Buffer_clean(3) [OF assms(1), of bpick] g by auto
  moreover have "ReadFrom sz p1 b1 cs err = (p', buf, x)" using assms(3) g b by (simp add: read_body_def)
  ultimately have "clean_pools p1" "p' = p1\<lparr>arrays := arrays p', next_array := next_array p'\<rparr>"
    using ReadFrom_ok [of p1 b1 sz cs err p' buf x] by (simp_all add: writes_only_def)
  then show ?thesis unfolding clean_pools_def by (metis (no_types, lifting) pools.select_convs(2,3) pools.surjective pools.update_convs(4,5))
qed

lemma put_back_clean: "clean_pools (c_pools c) \<Longrightarrow> clean_pools (c_pools (put_back strict c b))"
  by (simp add: put_back_def Buffer_clean(1))

text \<open>Only the interceptor writes \<^verbatim>\<open>LastEventByTask\<close>, and it stores strings.\<close>

definition strings_only :: "goval gomap \<Rightarrow> bool" where
  "strings_only m \<longleftrightarrow> (\<forall>k v. gm_lookup m k = Some v \<longrightarrow> (\<exists>s. v = GStr s))"

lemma link_parent_Ok:
  "strings_only m \<Longrightarrow> link_parent strict m taskID e =
     Ok (if taskID = '''' \<or> gm_lookup m taskID = None then e else e\<lparr>ParentID := string_at (Some m) taskID\<rparr>)"
  by (auto simp: link_parent_def strings_only_def string_at_def split: option.splits) force

lemma link_parent_clean:
  assumes "strings_only m" and "ParentID e = ''''"
  shows "link_parent strict m taskID e = Ok (e\<lparr>ParentID := if taskID = '''' then '''' else string_at (Some m) taskID\<rparr>)"
proof -
  have "e\<lparr>ParentID := ''''\<rparr> = e" using assms(2) by (cases e) simp
  then show ?thesis using assms(1) by (auto simp: link_parent_Ok string_at_def)
qed

lemma tool_call_event_fields:
  assumes "clean_event e" and "map_decoded (rq_Params q)" and "valid_time (f_now fr)"
  shows "ParentID (tool_call_event fr e t q rule) = ''''" "event_wf (tool_call_event fr e t q rule)"
proof -
  let ?e = "tool_call_event fr e t q rule"
  have f: "Timestamp ?e = f_now fr" "Params ?e = rq_Params q" "Response ?e = Response e" "ParentID ?e = ParentID e"
    by (simp_all add: tool_call_event_def Let_def split: option.split)
  have c: "ParentID e = ''''" "Response e \<in> {None, Some []}"
    using assms(1) by (simp_all add: clean_event_def zero_event_def) (metis event.select_convs(12))
  show "ParentID ?e = ''''" using f c by simp
  show "event_wf ?e"
    using c(2) assms(3) map_decoded_ok [OF assms(2)]
    by (auto simp: event_wf_def event_ok_def f map_ok_def map_value_def max_nesting_def)
qed

section \<open>Lemmas: buffers between two requests\<close>

lemma ReadFrom_fits:
  assumes "gb_len b = 0" and "512 \<le> gb_cap b" and "int (length d) \<le> gb_cap b"
  shows "ReadFrom sz p b [d] None =
    (p\<lparr>arrays := (arrays p)(gb_array b := d @ drop (length d) (arrays p (gb_array b)))\<rparr>, b\<lparr>gb_len := length d\<rparr>, Ok ())"
proof -
  have "buf_grow sz p b = (p, b)" using assms by (simp add: buf_grow_def)
  moreover have "length d \<le> buf_room b" using assms by (simp add: buf_room_def)
  ultimately show ?thesis
    using assms by (simp add: ReadFrom_Cons [of sz p b p b d, OF _ surjective_pairing] buf_write_def Let_def)
qed

text \<open>A one-piece body that fits the buffer the pool hands out is written to the front of its array.\<close>

lemma InterceptRequest_array:
  assumes g: "GetBuffer bpick (c_pools c) = (p1, b)" and b: "gb_len b = 0" "512 \<le> gb_cap b" "gb_cap b \<le> maxBufferSize"
    and d: "int (length d) \<le> gb_cap b"
    and req: "req_Method req = ''POST''" "req_Body req = Stream [d] None"
    and res: "InterceptRequest strict F M alone id bpick sz fr c req = (c', req', x)"
  shows "arrays (c_pools c') = (arrays p1)(gb_array b := d @ drop (length d) (arrays p1 (gb_array b)))
    \<and> bufferPool (c_pools c') = b # bufferPool p1
    \<and> (req_Body req' = View (gb_array b) (length d) \<or> (\<exists>s. req_Body req' = Bytes s))"
proof -
  let ?p = "p1\<lparr>arrays := (arrays p1)(gb_array b := d @ drop (length d) (arrays p1 (gb_array b)))\<rparr>"
  let ?b = "b\<lparr>gb_len := length d\<rparr>"
  have r: "read_body bpick sz (c_pools c) (req_Body req) = (?p, ?b, Ok ())"
    using ReadFrom_fits [OF b(1,2) d] by (simp add: read_body_def g req)
  let ?req = "req\<lparr>req_Body := View (gb_array b) (length d)\<rparr>"
  obtain c1 req1 x1 where i: "intercept_body strict F M alone id fr (with_pools c ?p) ?req (buf_bytes ?p ?b) = (c1, req1, x1)"
    by (cases "intercept_body strict F M alone id fr (with_pools c ?p) ?req (buf_bytes ?p ?b)")
  have e: "c' = put_back strict c1 ?b" "req' = req1"
    using res req r i by (auto simp: InterceptRequest_def)
  note f = intercept_body_frame [OF i]
  have "b\<lparr>gb_len := 0\<rparr> = b" using b(1) by (cases b) simp
  then have "bufferPool (c_pools c') = b # bufferPool (c_pools c1)"
    using b(3) by (simp add: e put_back_def PutBuffer_def maxBufferSize_def)
  then show ?thesis
    using f e put_back_arrays [of strict c1 ?b] by (auto simp: byte_heap_def)
qed

end
