(* ===== verification/Admin_Api.thy ===== *)
theory Admin_Api
  imports Interceptor
begin

text \<open>
  The admin endpoints, \<^verbatim>\<open>src/internal/api/handlers.go\<close>: key rotation, probes and metrics. A response is
  its status, content type and body; \<open>wok i\<close> tells whether the \<open>i\<close>-th write to the connection succeeds.
  The text \<^verbatim>\<open>%.6f\<close> prints for a number of nanoseconds in seconds is the argument \<open>secs\<close>.
\<close>

section \<open>Responses\<close>

record http_response =
  resp_Status :: int
  resp_Type :: string
  resp_Body :: string

definition http_error :: "string \<Rightarrow> int \<Rightarrow> http_response" where
  "http_error msg code =
     \<lparr>resp_Status = code, resp_Type = ''text/plain; charset=utf-8'', resp_Body = msg @ [CHR 0x0A]\<rparr>"

text \<open>Consecutive writes, up to the first that fails.\<close>

fun write_seq :: "(nat \<Rightarrow> bool) \<Rightarrow> nat \<Rightarrow> string list \<Rightarrow> string" where
  "write_seq wok i [] = ''''"
| "write_seq wok i (s # ss) = (if wok i then s @ write_seq wok (Suc i) ss else '''')"

section \<open>Key rotation\<close>

text \<open>
  The worker and its processor share one signer, so rotating it changes both. \<open>token\<close> is the value of
  \<^verbatim>\<open>LOGRYPH_ADMIN_TOKEN\<close>, \<open>header\<close> that of \<^verbatim>\<open>X-Admin-Token\<close>.
\<close>

definition set_signer :: "signer \<Rightarrow> 'db worker \<Rightarrow> 'db worker" where
  "set_signer s w = w\<lparr>w_signer := s, w_processor := map_option (\<lambda>p. p\<lparr>p_signer := s\<rparr>) (w_processor w)\<rparr>"

definition HandleRekey ::
    "('a) crypto_env_scheme \<Rightarrow> byte list outcome \<Rightarrow> (nat \<Rightarrow> bool) \<Rightarrow> string \<Rightarrow> string \<Rightarrow> string
       \<Rightarrow> filesys \<Rightarrow> 'db engine \<Rightarrow> filesys \<times> 'db engine \<times> http_response outcome" where
  "HandleRekey X rnd wok token mthd header fs c =
     (if mthd \<noteq> ''POST'' then (fs, c, Ok (http_error ''Method not allowed'' 405))
      else if token \<noteq> '''' \<and> header \<noteq> token then (fs, c, Ok (http_error ''Unauthorized'' 401))
      else case RotateKey X fs rnd (w_signer (c_Worker c)) ''.logryph_key'' of
        (fs', s', r) \<Rightarrow>
          (let c' = c\<lparr>c_Worker := set_signer s' (c_Worker c)\<rparr> in
           case r of
             Panic x \<Rightarrow> (fs', c', Panic x)
           | Err x \<Rightarrow> (fs', c', Ok (http_error (error_msg x) 500))
           | Ok (oldPubKey, newPubKey) \<Rightarrow>
               (fs', c', Ok \<lparr>resp_Status = 200, resp_Type = ''text/plain; charset=utf-8'',
                  resp_Body = write_seq wok 0 [''Key rotated'' @ [CHR 0x0A] @ ''Old: '' @ oldPubKey
                    @ [CHR 0x0A] @ ''New: '' @ newPubKey]\<rparr>)))"

section \<open>Probes\<close>

definition HandleStats :: "('a) float_conv_scheme \<Rightarrow> (nat \<Rightarrow> bool) \<Rightarrow> 'db engine \<Rightarrow> http_response" where
  "HandleStats F wok c =
     (let m = GetMetrics (c_pools c) in
      \<lparr>resp_Status = 200, resp_Type = ''application/json'',
       resp_Body = write_seq wok 0 [enc F (GMap [(''EventHits'', GUint (EventHits m)),
         (''EventMisses'', GUint (EventMisses m)), (''BufferHits'', GUint (BufferHits m)),
         (''BufferMisses'', GUint (BufferMisses m))]) @ [CHR 0x0A]]\<rparr>)"

definition HandleHealth :: "(nat \<Rightarrow> bool) \<Rightarrow> http_response" where
  "HandleHealth wok =
     \<lparr>resp_Status = 200, resp_Type = ''text/plain; charset=utf-8'', resp_Body = write_seq wok 0 [''ok'']\<rparr>"

definition HandleReady :: "(nat \<Rightarrow> bool) \<Rightarrow> 'db engine \<Rightarrow> http_response" where
  "HandleReady wok c =
     (if \<not> IsHealthy (c_Worker c) then http_error ''worker unhealthy'' 503
      else \<lparr>resp_Status = 200, resp_Type = ''text/plain; charset=utf-8'', resp_Body = write_seq wok 0 [''ready'']\<rparr>)"

section \<open>Metrics\<close>

record prometheusMetrics =
  PoolEventHits :: u64
  PoolEventMisses :: u64
  EventsProcessed :: u64
  EventsDropped :: u64
  EventsBlocked :: u64
  pm_BackpressureMode :: string
  pm_ActiveTasks :: int
  pm_QueueDepth :: int
  pm_QueueCapacity :: int
  pm_LatencyMetrics :: LatencySnapshot

definition maxActiveTasks :: nat where
  "maxActiveTasks = 10000"

text \<open>The \<^verbatim>\<open>Range\<close> over the active tasks counts at most \<^verbatim>\<open>maxActiveTasks\<close> of them.\<close>

definition collectMetrics :: "bool \<Rightarrow> 'db engine \<Rightarrow> prometheusMetrics outcome" where
  "collectMetrics strict c =
     (let w = c_Worker c; poolMetrics = GetMetrics (c_pools c); (proc, drop) = Stats w;
          (queueDepth, queueCap) = QueueDepth w; latency = LatencyMetrics w; blocked = BlockedSubmits w in
      bind_outcome (GetBackpressureMode strict w) (\<lambda>mode.
      let modeLabel = (if mode = BackpressureBlock then ''block'' else ''drop'') in
      case Check strict (queueCap \<ge> 0) ''queue capacity must be non-negative'' of
        Panic x \<Rightarrow> Panic x
      | _ \<Rightarrow>
          (let tasks = int (min (length (c_ActiveTasks c)) maxActiveTasks) in
           case Check strict (tasks \<le> int maxActiveTasks) (''active tasks exceeded cap: '' @ show_int tasks) of
             Panic x \<Rightarrow> Panic x
           | _ \<Rightarrow> Ok \<lparr>PoolEventHits = EventHits poolMetrics, PoolEventMisses = EventMisses poolMetrics,
                      EventsProcessed = proc, EventsDropped = drop, EventsBlocked = blocked,
                      pm_BackpressureMode = modeLabel, pm_ActiveTasks = tasks, pm_QueueDepth = queueDepth,
                      pm_QueueCapacity = queueCap, pm_LatencyMetrics = latency\<rparr>)))"

abbreviation nl :: string where
  "nl \<equiv> [CHR 0x0A]"

abbreviation dq :: string where
  "dq \<equiv> [CHR 0x22]"

definition show_u64 :: "u64 \<Rightarrow> string" where
  "show_u64 x = show_nat (unat x)"

text \<open>The three lines of one metric: help, type and sample.\<close>

definition metric_lines :: "string \<Rightarrow> string \<Rightarrow> string \<Rightarrow> string \<Rightarrow> string \<Rightarrow> string list" where
  "metric_lines name help kind labels value =
     [''# HELP '' @ name @ '' '' @ help @ nl, ''# TYPE '' @ name @ '' '' @ kind @ nl,
      name @ labels @ '' '' @ value @ nl]"

definition bucket_label :: "(u64 \<Rightarrow> string) \<Rightarrow> u64 \<Rightarrow> string" where
  "bucket_label secs upper = (if upper = - 1 then ''+Inf'' else secs upper)"

fun bucket_lines :: "(u64 \<Rightarrow> string) \<Rightarrow> u64 list \<Rightarrow> u64 list \<Rightarrow> string list" where
  "bucket_lines secs (b # bs) (n # ns) =
     (''logryph_ledger_event_latency_seconds_bucket{le='' @ dq @ bucket_label secs b @ dq @ ''} '' @ show_u64 n @ nl)
       # bucket_lines secs bs ns"
| "bucket_lines secs _ _ = []"

definition maxBuckets :: nat where
  "maxBuckets = 20"

definition formatLatencyHistogram :: "(u64 \<Rightarrow> string) \<Rightarrow> LatencySnapshot \<Rightarrow> string list" where
  "formatLatencyHistogram secs latency =
     [''# HELP logryph_ledger_event_latency_seconds Event processing latency'' @ nl,
      ''# TYPE logryph_ledger_event_latency_seconds histogram'' @ nl]
     @ bucket_lines secs (take maxBuckets (BoundsNs latency)) (Counts latency)
     @ [''logryph_ledger_event_latency_seconds_sum '' @ secs (SumNs latency) @ nl,
        ''logryph_ledger_event_latency_seconds_count '' @ show_u64 (Count latency) @ nl]"

definition formatPrometheusText :: "(u64 \<Rightarrow> string) \<Rightarrow> prometheusMetrics \<Rightarrow> string list" where
  "formatPrometheusText secs m =
     metric_lines ''logryph_pool_event_hits_total'' ''Total hits on the event pool'' ''counter'' ''''
       (show_u64 (PoolEventHits m))
     @ metric_lines ''logryph_pool_event_misses_total'' ''Total misses (allocations) in the event pool'' ''counter'' ''''
       (show_u64 (PoolEventMisses m))
     @ metric_lines ''logryph_ledger_events_processed_total'' ''Total events successfully written to the ledger''
       ''counter'' '''' (show_u64 (EventsProcessed m))
     @ metric_lines ''logryph_ledger_events_dropped_total'' ''Total events dropped due to backpressure'' ''counter'' ''''
       (show_u64 (EventsDropped m))
     @ metric_lines ''logryph_ledger_events_blocked_total'' ''Total submit attempts blocked by backpressure''
       ''counter'' '''' (show_u64 (EventsBlocked m))
     @ metric_lines ''logryph_ledger_backpressure_mode'' ''Current backpressure mode (drop|block)'' ''gauge''
       (''{mode='' @ dq @ pm_BackpressureMode m @ dq @ ''}'') ''1''
     @ metric_lines ''logryph_engine_active_tasks_total'' ''Number of currently active causal tasks'' ''gauge'' ''''
       (show_int (pm_ActiveTasks m))
     @ metric_lines ''logryph_ledger_queue_depth'' ''Current queue depth'' ''gauge'' '''' (show_int (pm_QueueDepth m))
     @ metric_lines ''logryph_ledger_queue_capacity'' ''Queue capacity'' ''gauge'' '''' (show_int (pm_QueueCapacity m))
     @ formatLatencyHistogram secs (pm_LatencyMetrics m)"

definition HandlePrometheus :: "bool \<Rightarrow> (u64 \<Rightarrow> string) \<Rightarrow> (nat \<Rightarrow> bool) \<Rightarrow> 'db engine \<Rightarrow> http_response outcome" where
  "HandlePrometheus strict secs wok c =
     bind_outcome (collectMetrics strict c) (\<lambda>m.
     Ok \<lparr>resp_Status = 200, resp_Type = ''text/plain; version=0.0.4; charset=utf-8'',
         resp_Body = write_seq wok 0 (formatPrometheusText secs m)\<rparr>)"

end
