(* ===== verification/Server_Main.thy ===== *)
theory Server_Main
  imports Admin_Api Cli_Console
begin

text \<open>
  The server process, \<^verbatim>\<open>src/main.go\<close>: how it comes up, what its two HTTP servers do with a request, and
  the orderly shutdown. Listening, waiting for a signal and the log are not modelled; a call that ends
  the process with \<^verbatim>\<open>log.Fatalf\<close> or a panic is.
\<close>

section \<open>Start-up\<close>

record service =
  sv_engine :: "db engine"
  sv_port :: int
  sv_target :: string

datatype startup = Running service | Died exit

definition boot :: "string \<Rightarrow> 'a outcome \<Rightarrow> ('a \<Rightarrow> startup) \<Rightarrow> startup" where
  "boot msg r k =
     (case r of
        Ok x \<Rightarrow> k x
      | Err e \<Rightarrow> Died (Fatal (msg @ '': '' @ error_msg e))
      | Panic e \<Rightarrow> Died (Crash e))"

definition server_flags :: flag_set where
  "server_flags =
     [(''config'', FString ''logryph-policy.yaml''), (''target'', FString ''http://localhost:8080''),
      (''port'', FInt 9999), (''backpressure'', FString ''drop'')]"

text \<open>What the outside of the process supplies while it starts.\<close>

record start_env =
  se_absPath :: "string \<Rightarrow> string outcome"
  se_yaml :: yaml_decoder
  se_disk :: disk
  se_random :: "byte list outcome"
  se_fresh :: fresh
  se_uuid :: string
  se_get :: http_get
  se_now :: int
  se_badURL :: "string \<Rightarrow> error option"

definition choose_mode :: "bool \<Rightarrow> string \<Rightarrow> db worker \<Rightarrow> (db worker \<Rightarrow> startup) \<Rightarrow> startup" where
  "choose_mode strict backpressure w k =
     (if backpressure = ''block'' then
        (case SetBackpressureMode strict w BackpressureBlock of
           (w', r) \<Rightarrow> boot ''Failed to set backpressure mode'' r (\<lambda>_. k w'))
      else if backpressure = ''drop'' then
        (case SetBackpressureMode strict w BackpressureDrop of
           (w', r) \<Rightarrow> boot ''Failed to set backpressure mode'' r (\<lambda>_. k w'))
      else Died (Fatal (''Invalid backpressure mode '' @ [CHR 0x27] @ backpressure @ [CHR 0x27]
             @ '': must be '' @ [CHR 0x27] @ ''drop'' @ [CHR 0x27] @ '' or '' @ [CHR 0x27] @ ''block'' @ [CHR 0x27])))"

text \<open>From a new worker to a running service.\<close>

definition start_worker ::
    "bool \<Rightarrow> ('a) crypto_env_scheme \<Rightarrow> start_env \<Rightarrow> flag_set \<Rightarrow> ObserverEngine \<Rightarrow> db worker \<Rightarrow> startup" where
  "start_worker strict X E flags obsEngine worker =
     choose_mode strict (flag_string flags ''backpressure'') worker (\<lambda>w1.
     case Start strict X (sqlite_repo strict X (se_now E)) (se_fresh E) (se_uuid E)
            (FetchBitcoinAnchor (se_get E) (f_now (se_fresh E))) w1 of
       (w2, r) \<Rightarrow>
         boot ''Worker start failed'' r (\<lambda>_.
         (case se_badURL E (flag_string flags ''target'') of
            Some e \<Rightarrow> Died (Fatal (''Invalid target URL: '' @ error_msg e))
          | None \<Rightarrow> Running \<lparr>sv_engine = NewEngine w2 (Some obsEngine), sv_port = flag_int flags ''port'',
                      sv_target = flag_string flags ''target''\<rparr>)))"

text \<open>\<open>args\<close> is \<^verbatim>\<open>os.Args[1:]\<close>; the watcher of the policy file runs beside, from the engine made here.\<close>

definition start_service ::
    "bool \<Rightarrow> ('a) crypto_env_scheme \<Rightarrow> start_env \<Rightarrow> pools \<Rightarrow> string list \<Rightarrow> filesys \<Rightarrow> filesys \<times> startup" where
  "start_service strict X E ps args fs =
     (case parse_flags server_flags args of
        Leave n \<Rightarrow> (fs, Died (Exit n))
      | Parsed flags \<Rightarrow>
          (case bind_outcome (wrap_err ''Invalid target''
                  (Check strict (flag_string flags ''target'' \<noteq> '''') ''target must not be empty'')) (\<lambda>_.
                bind_outcome (wrap_err ''Invalid listen port''
                  (Check strict (flag_int flags ''port'' > 0) ''listen port must be positive'')) (\<lambda>_.
                bind_outcome (wrap_err ''Failed to load observer rules''
                  (NewObserverEngine strict (se_absPath E) (se_yaml E) fs (flag_string flags ''config''))) (\<lambda>obsEngine.
                bind_outcome (wrap_err ''Database init failed'' (OpenDB (se_disk E))) (\<lambda>d. Ok (obsEngine, d))))) of
             Err e \<Rightarrow> (fs, Died (Fatal (error_msg e)))
           | Panic e \<Rightarrow> (fs, Died (Crash e))
           | Ok (obsEngine, d) \<Rightarrow>
               (case NewWorker strict X fs (se_random E) 1000 (Some d) ''.logryph_key'' ps of
                  (fs1, r) \<Rightarrow> (fs1, boot ''Worker init failed'' r (start_worker strict X E flags obsEngine)))))"

section \<open>The proxy\<close>

text \<open>
  \<^verbatim>\<open>httputil.ReverseProxy\<close> around the hooks. The HTTP round trip to the tool server is the argument \<open>rt\<close>: it
  is handed the method, the declared length and the body as it reads when it is sent (none when the
  declared length is 0), after the interceptor has returned; \<open>meanwhile\<close> is what other requests do before
  that. An error of the round trip or of \<^verbatim>\<open>ModifyResponse\<close> is answered with 502.
\<close>

type_synonym round_trip = "string \<Rightarrow> int \<Rightarrow> string list \<times> error option \<Rightarrow> (int \<times> string list) outcome"

definition outgoing :: "pools \<Rightarrow> http_request \<Rightarrow> string list \<times> error option" where
  "outgoing p req = (if req_ContentLength req = 0 then ([], None) else body_pieces p (req_Body req))"

definition bad_gateway :: http_response where
  "bad_gateway = \<lparr>resp_Status = 502, resp_Type = '''', resp_Body = ''''\<rparr>"

definition serve_proxy ::
    "bool \<Rightarrow> ('a) float_conv_scheme \<Rightarrow> fmt_conv \<Rightarrow> (nat \<Rightarrow> db worker \<Rightarrow> db worker) \<Rightarrow> (db worker \<Rightarrow> db worker)
       \<Rightarrow> (nat option \<times> fresh) \<Rightarrow> (nat option \<times> fresh) \<Rightarrow> (nat \<Rightarrow> nat) \<Rightarrow> (db engine \<Rightarrow> db engine) \<Rightarrow> round_trip
       \<Rightarrow> db engine \<Rightarrow> http_request \<Rightarrow> db engine \<times> http_response outcome" where
  "serve_proxy strict F M others race inReq inResp sz meanwhile rt c req =
     (case InterceptRequest strict F M others race (fst inReq) sz (snd inReq) c req of
        (c1, req1, Panic x) \<Rightarrow> (c1, Panic x)
      | (c1, req1, _) \<Rightarrow>
          (let c2 = meanwhile c1 in
           case rt (req_Method req1) (req_ContentLength req1) (outgoing (c_pools c2) req1) of
             Panic x \<Rightarrow> (c2, Panic x)
           | Err x \<Rightarrow> (c2, Ok bad_gateway)
           | Ok (code, answer) \<Rightarrow>
               (case InterceptResponse strict F others race (fst inResp) sz (snd inResp) c2 (Stream answer None) of
                  (c3, b, Panic x) \<Rightarrow> (c3, Panic x)
                | (c3, b, Err x) \<Rightarrow> (c3, Ok bad_gateway)
                | (c3, b, Ok _) \<Rightarrow>
                    (c3, Ok \<lparr>resp_Status = code, resp_Type = '''', resp_Body = body_text (c_pools c3) b\<rparr>))))"

section \<open>The admin server\<close>

definition admin_server ::
    "bool \<Rightarrow> ('a) crypto_env_scheme \<Rightarrow> byte list outcome \<Rightarrow> (u64 \<Rightarrow> string) \<Rightarrow> (nat \<Rightarrow> bool) \<Rightarrow> string
       \<Rightarrow> string \<Rightarrow> string \<Rightarrow> string \<Rightarrow> filesys \<Rightarrow> 'db engine \<Rightarrow> filesys \<times> 'db engine \<times> http_response outcome" where
  "admin_server strict X rnd secs wok token path mthd header fs c =
     (if path = ''/api/rekey'' then HandleRekey X rnd wok token mthd header fs c
      else if path = ''/api/metrics'' then (fs, c, Ok (HandleStats X wok c))
      else if path = ''/metrics'' then (fs, c, HandlePrometheus strict secs wok c)
      else if path = ''/healthz'' then (fs, c, Ok (HandleHealth wok))
      else if path = ''/readyz'' then (fs, c, Ok (HandleReady wok c))
      else (fs, c, Ok (http_error ''404 page not found'' 404)))"

text \<open>
  A request to the admin port: the path of the URL, and the token header (\<^verbatim>\<open>r.Header.Get\<close>, empty when it is
  not there).
\<close>

definition admin_port :: string where
  "admin_port = ''http://localhost:9998''"

definition admin_request ::
    "bool \<Rightarrow> ('a) crypto_env_scheme \<Rightarrow> byte list outcome \<Rightarrow> (u64 \<Rightarrow> string) \<Rightarrow> (nat \<Rightarrow> bool) \<Rightarrow> string \<Rightarrow> filesys
       \<Rightarrow> 'db engine \<Rightarrow> string \<Rightarrow> string \<Rightarrow> (string \<times> string) list \<Rightarrow> filesys \<times> 'db engine \<times> http_response outcome" where
  "admin_request strict X rnd secs wok token fs c mthd url headers =
     admin_server strict X rnd secs wok token (drop (length admin_port) url) mthd
       (case map_of headers ''X-Admin-Token'' of None \<Rightarrow> '''' | Some v \<Rightarrow> v) fs c"

section \<open>Shutdown\<close>

definition shutdownTimeout :: int where
  "shutdownTimeout = 10 * 1000000000"

text \<open>
  The HTTP servers stop taking requests first (what they still serve is \<open>draining\<close>); failures are only
  logged. The worker is shut down last.
\<close>

definition gracefulShutdown ::
    "bool \<Rightarrow> ('a) crypto_env_scheme \<Rightarrow> db repository \<Rightarrow> (nat \<Rightarrow> db worker \<Rightarrow> db worker) \<Rightarrow> (nat \<Rightarrow> fresh \<times> int)
       \<Rightarrow> nat option \<Rightarrow> (db worker \<Rightarrow> db worker) \<Rightarrow> (db engine \<Rightarrow> db engine) \<Rightarrow> int \<Rightarrow> db engine
       \<Rightarrow> db engine \<times> unit outcome" where
  "gracefulShutdown strict X R others ins stop_at meanwhile draining timeout c =
     (case Check strict (timeout > 0) ''timeout must be positive'' of
        Panic x \<Rightarrow> (c, Panic x)
      | Err x \<Rightarrow> (c, Ok ())
      | Ok _ \<Rightarrow>
          (let c1 = draining c;
               c2 = c1\<lparr>c_Observer := map_option (\<lambda>o'. fst (StopWatch o')) (c_Observer c1)\<rparr> in
           case Shutdown strict X R others ins stop_at meanwhile timeout (c_Worker c2) of
             (w, Panic x) \<Rightarrow> (c2\<lparr>c_Worker := w\<rparr>, Panic x)
           | (w, _) \<Rightarrow> (c2\<lparr>c_Worker := w\<rparr>, Ok ())))"

end
