(* ===== verification/Demo_Environment.thy ===== *)
theory Demo_Environment
  imports Genesis_Block
begin

text \<open>
  A concrete environment that satisfies the laws the development asks of the number conversions, of
  canonical JSON and of Ed25519, and concrete inputs over it. It shows that those laws can hold
  together; it stands for no part of the program, and its signatures are no secret.
\<close>

definition demo_parse :: "string \<Rightarrow> u64 option" where
  "demo_parse s =
     (let n = read_digits s in
      if list_all is_digit s \<and> n < 2 ^ 64 \<and> f64_finite (of_nat n) then Some (of_nat n) else Some 0)"

definition demo_show :: "u64 \<Rightarrow> string" where
  "demo_show x = show_nat (unat x)"

definition demo_tag :: "byte list \<Rightarrow> byte list" where
  "demo_tag k = k @ k"

definition demo_env :: crypto_env where
  "demo_env =
     \<lparr>parse_float = demo_parse, json_float = demo_show,
      jcs_format = (\<lambda>v. Ok (enc \<lparr>parse_float = demo_parse, json_float = demo_show\<rparr> (pos_zero v))),
      ed_keygen = (\<lambda>seed. seed @ seed),
      ed_sign = (\<lambda>key m. demo_tag (drop 32 key)),
      ed_verify = (\<lambda>pub m sig. sig = demo_tag pub)\<rparr>"

lemma demo_show_number: "json_number (demo_show x)"
  using json_number_show_int [of "int (unat x)"] by (simp add: demo_show_def show_int_def)

lemma demo_parse_show: "f64_finite x \<Longrightarrow> demo_parse (demo_show x) = Some x"
  using unsigned_less [of x, where ?'a = nat] by (simp add: demo_parse_def demo_show_def)

lemma demo_parse_finite: "demo_parse s = Some x \<Longrightarrow> f64_finite x"
proof -
  have "f64_finite 0" by (simp add: f64_finite_def)
  then show "demo_parse s = Some x \<Longrightarrow> f64_finite x"
    by (auto simp: demo_parse_def Let_def split: if_splits)
qed

lemma demo_parse_total: "demo_parse s \<noteq> None"
  by (simp add: demo_parse_def Let_def)

lemma demo_float_ok: "float_conv_ok demo_env"
  by (auto simp: float_conv_ok_def demo_env_def demo_show_number demo_parse_show demo_parse_finite
      demo_parse_total)

text \<open>The encoder looks at the printer of numbers only.\<close>

lemma enc_lists_env:
  "\<forall>v \<in> set vs. enc F v = enc G v \<Longrightarrow> enc_elems F vs = enc_elems G vs"
  "\<forall>(k, v) \<in> set kvs. enc F v = enc G v \<Longrightarrow> enc_members F kvs = enc_members G kvs"
proof -
  show "\<forall>v \<in> set vs. enc F v = enc G v \<Longrightarrow> enc_elems F vs = enc_elems G vs"
    by (induction vs) (simp_all add: enc_elems_Cons)
  show "\<forall>(k, v) \<in> set kvs. enc F v = enc G v \<Longrightarrow> enc_members F kvs = enc_members G kvs"
    by (induction kvs) (auto simp: enc_members_Cons)
qed

lemma enc_env: "json_float F = json_float G \<Longrightarrow> enc F v = enc G v"
proof (induction v)
  case (GMap kvs)
  then have "\<forall>(k, v) \<in> set kvs. enc F v = enc G v" by fastforce
  then show ?case by (simp add: enc_lists_env(2))
qed (simp_all add: enc_lists_env(1))

lemma demo_jcs: "jcs_format demo_env v = Ok (enc demo_env (pos_zero v))"
proof -
  let ?F = "\<lparr>parse_float = demo_parse, json_float = demo_show\<rparr>"
  have "jcs_format demo_env v = Ok (enc ?F (pos_zero v))" by (simp add: demo_env_def)
  moreover have "enc ?F (pos_zero v) = enc demo_env (pos_zero v)" by (rule enc_env) (simp add: demo_env_def)
  ultimately show ?thesis by (simp only:)
qed

text \<open>The rewriting of negative zeros keeps a value normal and as deep as it was.\<close>

lemma normal_pos_zero: "normal v \<Longrightarrow> normal (pos_zero v)"
proof (induction v)
  case (GMap kvs)
  have "gm_wf (map (map_prod id pos_zero) kvs)" using GMap.prems by (simp add: gm_wf_def sorted_wrt_map case_prod_beta)
  then show ?case using GMap by (force simp: normal_members_iff)
qed (auto simp: normal_list_iff f64_finite_def)

lemma depth_pos_zero: "gv_depth (pos_zero v) = gv_depth v"
proof (induction v)
  case (GList vs)
  then show ?case by (induction vs) auto
next
  case (GMap kvs)
  then have "\<forall>(k, v) \<in> set kvs. gv_depth (pos_zero v) = gv_depth v" by fastforce
  then have "members_depth (map (map_prod id pos_zero) kvs) = members_depth kvs"
    by (induction kvs) auto
  then show ?case by simp
qed simp_all

lemma demo_jcs_ok: "jcs_ok demo_env"
proof -
  have "Unmarshal demo_env (enc demo_env v) = Ok v" if "normal v" "gv_depth v \<le> max_nesting" for v
    using Unmarshal_enc [OF demo_float_ok marshalable_normal [OF that(1)] that(2)]
    by (simp add: norm_normal [OF that(1)])
  then show ?thesis
    by (simp add: jcs_ok_def demo_jcs normal_pos_zero depth_pos_zero)
qed

lemma demo_ed_ok: "ed_ok demo_env"
  by (simp add: ed_ok_def demo_env_def demo_tag_def)

lemma demo_ok: "crypto_ok demo_env"
  by (simp add: crypto_ok_def demo_float_ok demo_jcs_ok demo_ed_ok)

section \<open>Concrete inputs\<close>

definition demo_signer :: signer where
  "demo_signer = \<lparr>privateKey = replicate 64 7, publicKey = replicate 32 7\<rparr>"

lemma demo_signer_ok: "signer_ok demo_env demo_signer"
proof -
  have "replicate 64 (7 :: byte) = replicate 32 7 @ replicate 32 7"
    unfolding replicate_add [symmetric] by simp
  then show ?thesis
    by (intro signer_ok_def [THEN iffD2] exI [of _ "replicate 32 7"])
      (simp add: demo_signer_def demo_env_def)
qed

definition demo_time :: gotime where
  "demo_time = \<lparr>t_year = 2026, t_month = 1, t_day = 2, t_hour = 3, t_min = 4, t_sec = 5, t_nsec = 600,
     t_off = 0, t_mono = Some 9\<rparr>"

lemma demo_time_valid: "valid_time demo_time"
  by (simp add: demo_time_def valid_time_def days_in_def)

definition demo_fresh :: fresh where
  "demo_fresh = \<lparr>f_uuid = ''0a1b2c3d-0000'', f_now = demo_time, f_pick = None\<rparr>"

definition demo_event :: event where
  "demo_event = zero_event\<lparr>ID := ''e1'', Timestamp := demo_time, EventType := ''tool_call'',
     Method := ''db:query'', Params := Some [(''q'', GStr ''x'')], TaskID := ''t1'', TaskState := ''working''\<rparr>"

lemma demo_event_ok: "event_ok demo_event"
  by (simp add: demo_event_def event_ok_def demo_time_valid map_ok_def map_value_def zero_event_def
      max_nesting_def)

definition empty_db :: db where
  "empty_db = \<lparr>db_runs = [], db_events = [], db_open = True, db_read_err = None, db_write_err = None,
     db_rows_err = None, db_close_err = None, db_conn_err = None\<rparr>"

lemma empty_db_up: "db_up empty_db" "store_inv empty_db" "run_log F empty_db r = []" "db_ids empty_db = {}"
  by (simp_all add: empty_db_def db_up_def store_inv_def run_rows_def run_log_def order_asc_def db_ids_def)

lemma empty_pools_clean: "clean_pools empty_pools"
  by (simp add: empty_pools_def clean_pools_def)

end
