(* ===== verification/Ledger_Run.thy ===== *)
theory Ledger_Run
  imports Ledger_Worker Chain_Audit Demo_Environment
begin

text \<open>
  The worker over the SQLite store as a transition system: submissions, anchor ticks, rounds of the
  drain loop, changes of mode, the start of shutdown, faults of the database and the use of the object
  pools by the proxy interleave in any order. Each operation is one step, during which nobody else acts
  and the faults of the database stay as they are; a panic ends the process, so a run has only steps that
  return. The key of the worker is the same throughout: rotation is not a step (the admin API has it).
\<close>

section \<open>States and steps\<close>

definition ledger_ok :: "crypto_env \<Rightarrow> processor \<Rightarrow> db \<Rightarrow> bool" where
  "ledger_ok X p d \<longleftrightarrow> store_inv d
     \<and> chain_from X (p_signer p) (p_runID p) zero_hash 0 (run_log X d (p_runID p))"

definition worker_ok :: "crypto_env \<Rightarrow> db worker \<Rightarrow> bool" where
  "worker_ok X w \<longleftrightarrow> ring_inv (w_ring w) \<and> clean_pools (w_pools w) \<and> signer_ok X (w_signer w)
     \<and> (\<forall>ptr \<in> set (ring_list (w_ring w)). \<exists>e. ptr = Some e \<and> event_wf e)
     \<and> (\<exists>p. w_processor w = Some p \<and> p_signer p = w_signer w \<and> p_runID p = w_runID w
          \<and> ledger_ok X p (w_db w) \<and> tasks_ok (p_taskStates p))"

lemma sq_ledger: "sq.ledger X = ledger_ok X"
  by (simp add: fun_eq_iff ledger_ok_def sq.ledger_def)

lemma sq_winv: "sq.winv X = worker_ok X"
  by (simp add: fun_eq_iff worker_ok_def sq.winv_def sq_ledger)

text \<open>Only run \<open>r\<close> grew, by \<open>es\<close>.\<close>

definition grows :: "crypto_env \<Rightarrow> string \<Rightarrow> event list \<Rightarrow> db \<Rightarrow> db \<Rightarrow> bool" where
  "grows X r es d d' \<longleftrightarrow> run_log X d' = (run_log X d)(r := run_log X d r @ es)"

lemma sq_extends: "sq.extends X = grows X"
  by (simp add: fun_eq_iff grows_def sq.extends_def)

text \<open>The environment may close the handle or raise and clear faults; it does not touch the tables.\<close>

definition db_fault :: "db \<Rightarrow> db \<Rightarrow> bool" where
  "db_fault d d' \<longleftrightarrow> db_events d' = db_events d \<and> db_runs d' = db_runs d"

lemma db_fault_view:
  assumes "db_fault d d'"
  shows "run_log X d' = run_log X d" "store_inv d' = store_inv d" "db_ids d' = db_ids d"
  using assms store_view_cong [of d' d] by (simp_all add: db_fault_def)

inductive worker_run ::
    "bool \<Rightarrow> crypto_env \<Rightarrow> db worker \<Rightarrow> event list \<Rightarrow> event list \<Rightarrow> db worker \<Rightarrow> bool"
  for strict :: bool and X :: crypto_env and w0 :: "db worker" where
  run_init: "worker_run strict X w0 [] [] w0"
| run_submit: "worker_run strict X w0 acc han w \<Longrightarrow> event_wf e \<Longrightarrow>
     Submit strict alone id w (Some e) = (w', Ok ()) \<Longrightarrow>
     worker_run strict X w0 (if accepts w then acc @ [e] else acc) han w'"
| run_anchor: "worker_run strict X w0 acc han w \<Longrightarrow> valid_time (f_now fr) \<Longrightarrow> valid_time (an_Timestamp a) \<Longrightarrow>
     anchor_tick strict alone id fr (Ok a) w = (w', Ok ()) \<Longrightarrow>
     worker_run strict X w0
       (if accepts w then acc @ [anchor_event fr a (snd (GetEvent (f_pick fr) (w_pools w)))] else acc) han w'"
| run_process: "worker_run strict X w0 acc han w \<Longrightarrow> ring_list (w_ring w) = Some e # rest \<Longrightarrow>
     valid_time (f_now fr) \<Longrightarrow> process_one strict X (sqlite_repo strict X now) fr dur w = (w', Ok True) \<Longrightarrow>
     worker_run strict X w0 acc (han @ [e]) w'"
| run_mode: "worker_run strict X w0 acc han w \<Longrightarrow> SetBackpressureMode strict w m = (w', Ok ()) \<Longrightarrow>
     worker_run strict X w0 acc han w'"
| run_stop: "worker_run strict X w0 acc han w \<Longrightarrow>
     worker_run strict X w0 acc han (w\<lparr>w_closing := True, w_stopped := True\<rparr>)"
| run_fault: "worker_run strict X w0 acc han w \<Longrightarrow> db_fault (w_db w) d \<Longrightarrow>
     worker_run strict X w0 acc han (w\<lparr>w_db := d\<rparr>)"
| run_pools: "worker_run strict X w0 acc han w \<Longrightarrow> clean_pools ps \<Longrightarrow>
     worker_run strict X w0 acc han (w\<lparr>w_pools := ps\<rparr>)"

section \<open>Each step keeps the invariant\<close>

lemma anchor_event_wf:
  assumes "clean_event e" and "valid_time (f_now fr)" and "valid_time (an_Timestamp a)"
  shows "event_wf (anchor_event fr a e)"
  using assms
  by (auto simp: anchor_event_def make_params_def anchor_params_def clean_event_def event_wf_def event_ok_def
      map_ok_def map_value_def max_nesting_def less_char_def gm_wf_def)

lemma worker_ok_ring:
  assumes "worker_ok X w" and "ring_inv rb" and "ring_list rb = ring_list (w_ring w) @ [Some e]" and "event_wf e"
  shows "worker_ok X (w\<lparr>w_ring := rb, w_signal := b\<rparr>)"
  using assms by (auto simp: worker_ok_def)

lemma worker_ok_frame [simp]:
  "worker_ok X (w\<lparr>w_mode := m\<rparr>) = worker_ok X w"
  "worker_ok X (w\<lparr>w_closing := b, w_stopped := c\<rparr>) = worker_ok X w"
  by (simp_all add: worker_ok_def)

lemma worker_ok_fault:
  assumes "worker_ok X w" and "db_fault (w_db w) d"
  shows "worker_ok X (w\<lparr>w_db := d\<rparr>)"
  using assms db_fault_view(1) [OF assms(2), of X] db_fault_view(2) [OF assms(2)]
  by (auto simp: worker_ok_def ledger_ok_def)

lemma submit_step:
  assumes w: "worker_ok X w" "w_stopped w \<longrightarrow> w_closing w" and e: "event_wf e"
    and res: "Submit strict alone id w (Some e) = (w', r)"
  shows "worker_ok X w' \<and> r = Ok () \<and> (w_stopped w' \<longrightarrow> w_closing w') \<and> w_db w' = w_db w
    \<and> w_runID w' = w_runID w \<and> w_unhealthy w' = w_unhealthy w \<and> w_processor w' = w_processor w
    \<and> ring_list (w_ring w') = ring_list (w_ring w) @ (if accepts w then [Some e] else [])
    \<and> w_dropped w' = w_dropped w + (if accepts w then 0 else 1)"
proof (cases "accepts w")
  case True
  then have "\<not> w_stopped w" using w(2) by (auto simp: accepts_def)
  moreover have "ring_inv (w_ring w)" using w(1) by (simp add: worker_ok_def)
  ultimately obtain rb where "Submit strict alone id w (Some e) = (w\<lparr>w_ring := rb, w_signal := True\<rparr>, Ok ())"
    and "ring_inv rb" "ring_list rb = ring_list (w_ring w) @ [Some e]"
    using Submit_accepts [OF _ True, of strict e] by auto
  then show ?thesis
    using worker_ok_ring [OF w(1) _ _ e] res w(2) True by auto
next
  case False
  then show ?thesis
    using Submit_drops [OF False, of strict e] res w by (auto simp: worker_ok_def)
qed

text \<open>One event processed over the store, whatever the outcome.\<close>

lemmas sq_process_one = sq.process_one_cases [unfolded sq_winv sq_extends]

lemma grows_nil: "grows X r [] d d"
  by (simp add: grows_def)

lemma grows_app: "grows X r es d d' \<Longrightarrow> grows X r fs d' d'' \<Longrightarrow> grows X r (es @ fs) d d''"
  by (simp add: grows_def)

text \<open>What a run has done: the invariant, the order of events, and the growth of the ledger.\<close>

definition run_inv ::
    "bool \<Rightarrow> crypto_env \<Rightarrow> db worker \<Rightarrow> event list \<Rightarrow> event list \<Rightarrow> db worker \<Rightarrow> bool" where
  "run_inv strict X w0 acc han w \<longleftrightarrow>
     worker_ok X w \<and> (w_stopped w \<longrightarrow> w_closing w) \<and> w_runID w = w_runID w0
     \<and> ring_list (w_ring w0) @ map Some acc = map Some han @ ring_list (w_ring w)
     \<and> (\<exists>es. grows X (w_runID w0) es (w_db w0) (w_db w)
          \<and> (\<not> w_unhealthy w \<longrightarrow> recorded strict X (open_tasks w0) han es
               \<and> open_tasks w = fold task_next han (open_tasks w0)))"

lemma run_inv_step:
  assumes "run_inv strict X w0 acc han w" and "worker_ok X w'" and "w_stopped w' \<longrightarrow> w_closing w'"
    and "w_runID w' = w_runID w" and "w_unhealthy w' = w_unhealthy w" and "run_log X (w_db w') = run_log X (w_db w)"
    and "ring_list (w_ring w') = ring_list (w_ring w) @ map Some new" and "w_processor w' = w_processor w"
  shows "run_inv strict X w0 (acc @ new) han w'"
proof -
  have "grows X r es d (w_db w') = grows X r es d (w_db w)" for r es d
    using assms(6) by (simp add: grows_def)
  moreover have "open_tasks w' = open_tasks w" using assms(8) by (simp add: open_tasks_def)
  moreover have queue: "ring_list (w_ring w0) @ map Some acc = map Some han @ ring_list (w_ring w)"
    using assms(1) by (simp add: run_inv_def)
  have "ring_list (w_ring w0) @ map Some (acc @ new) = (ring_list (w_ring w0) @ map Some acc) @ map Some new"
    by simp
  then have "ring_list (w_ring w0) @ map Some (acc @ new) = map Some han @ ring_list (w_ring w')"
    unfolding queue assms(7) by simp
  ultimately show ?thesis
    using assms(1-5) by (simp add: run_inv_def)
qed

lemma run_inv_process:
  assumes X: "crypto_ok X" and inv: "run_inv strict X w0 acc han w"
    and q: "ring_list (w_ring w) = Some e # rest" and now: "valid_time (f_now fr)"
    and res: "process_one strict X (sqlite_repo strict X t) fr dur w = (w', Ok True)"
  shows "run_inv strict X w0 acc (han @ [e]) w'"
proof -
  have w: "worker_ok X w" and run: "w_runID w = w_runID w0" and stop: "w_stopped w \<longrightarrow> w_closing w"
    and queue: "ring_list (w_ring w0) @ map Some acc = map Some han @ ring_list (w_ring w)"
    using inv by (simp_all add: run_inv_def)
  obtain es where es: "grows X (w_runID w0) es (w_db w0) (w_db w)"
    "\<not> w_unhealthy w \<longrightarrow> recorded strict X (open_tasks w0) han es
       \<and> open_tasks w = fold task_next han (open_tasks w0)"
    using inv by (auto simp: run_inv_def)
  note c = sq_process_one [OF X w q now res]
  obtain a where a: "grows X (w_runID w) a (w_db w) (w_db w')"
    "\<not> w_unhealthy w' \<longrightarrow> gains strict X (open_tasks w) e a \<and> open_tasks w' = task_next e (open_tasks w)"
    using c by blast
  have "grows X (w_runID w0) (es @ a) (w_db w0) (w_db w')"
    using grows_app [OF es(1)] a(1) run by simp
  moreover have "recorded strict X (open_tasks w0) (han @ [e]) (es @ a)
      \<and> open_tasks w' = fold task_next (han @ [e]) (open_tasks w0)" if "\<not> w_unhealthy w'"
  proof -
    have "\<not> w_unhealthy w" using c that by blast
    then show ?thesis using es(2) a(2) that recorded_snoc [of strict X "open_tasks w0" han es e a] by simp
  qed
  ultimately have "\<exists>es'. grows X (w_runID w0) es' (w_db w0) (w_db w')
      \<and> (\<not> w_unhealthy w' \<longrightarrow> recorded strict X (open_tasks w0) (han @ [e]) es'
           \<and> open_tasks w' = fold task_next (han @ [e]) (open_tasks w0))"
    by blast
  then show ?thesis
    using c run stop queue q by (simp add: run_inv_def)
qed

lemma run_invariant:
  assumes X: "crypto_ok X" and w0: "worker_ok X w0" "w_stopped w0 \<longrightarrow> w_closing w0"
  shows "worker_run strict X w0 acc han w \<Longrightarrow> run_inv strict X w0 acc han w"
proof (induction rule: worker_run.induct)
  case run_init
  have "grows X (w_runID w0) [] (w_db w0) (w_db w0)" by (rule grows_nil)
  then show ?case using w0 by (auto simp: run_inv_def)
next
  case (run_submit acc han w e w')
  then have "worker_ok X w" "w_stopped w \<longrightarrow> w_closing w" by (simp_all add: run_inv_def)
  from submit_step [OF this run_submit.hyps(2,3)]
  show ?case
    using run_inv_step [OF run_submit.IH, of w' "if accepts w then [e] else []"]
    by (auto split: if_splits)
next
  case (run_anchor acc han w fr a w')
  then have w: "worker_ok X w" "w_stopped w \<longrightarrow> w_closing w" by (simp_all add: run_inv_def)
  obtain ps e where get: "GetEvent (f_pick fr) (w_pools w) = (ps, e)" by fastforce
  have clean: "clean_event e" "clean_pools ps"
    using GetEvent_clean [of "w_pools w" "f_pick fr"] w(1) get by (simp_all add: worker_ok_def)
  let ?w = "w\<lparr>w_pools := ps\<rparr>" and ?e = "anchor_event fr a e"
  have ok: "worker_ok X ?w" "w_stopped ?w \<longrightarrow> w_closing ?w" using w clean by (simp_all add: worker_ok_def)
  have sub: "Submit strict alone id ?w (Some ?e) = (w', Ok ())"
    using run_anchor.hyps(4) by (simp add: anchor_tick_def get)
  have acc: "accepts ?w = accepts w" by (simp add: accepts_def)
  from submit_step [OF ok anchor_event_wf [OF clean(1) run_anchor.hyps(2,3)] sub]
  show ?case
    using run_inv_step [OF run_anchor.IH, of w' "if accepts w then [?e] else []"] acc get
    by (auto split: if_splits)
next
  case (run_process acc han w e rest fr now dur w')
  show ?case
    by (rule run_inv_process [OF X run_process.IH run_process.hyps(2-4)])
next
  case (run_mode acc han w m w')
  then have "w' = w\<lparr>w_mode := m\<rparr>" by (auto simp: SetBackpressureMode_def split: outcome.splits)
  then show ?case
    using run_mode.IH run_inv_step [OF run_mode.IH, of w' "[]"] by (simp add: run_inv_def)
next
  case (run_stop acc han w)
  then show ?case
    using run_inv_step [OF run_stop.IH, of "w\<lparr>w_closing := True, w_stopped := True\<rparr>" "[]"]
    by (simp add: run_inv_def)
next
  case (run_fault acc han w d)
  then have "worker_ok X (w\<lparr>w_db := d\<rparr>)" "w_stopped w \<longrightarrow> w_closing w"
    by (simp_all add: run_inv_def worker_ok_fault)
  then show ?case
    using run_inv_step [OF run_fault.IH, of "w\<lparr>w_db := d\<rparr>" "[]"]
      db_fault_view(1) [OF run_fault.hyps(2), of X] by simp
next
  case (run_pools acc han w ps)
  then have "worker_ok X (w\<lparr>w_pools := ps\<rparr>)" "w_stopped w \<longrightarrow> w_closing w"
    by (auto simp: run_inv_def worker_ok_def)
  then show ?case
    using run_inv_step [OF run_pools.IH, of "w\<lparr>w_pools := ps\<rparr>" "[]"] by simp
qed

section \<open>Starting\<close>

text \<open>A worker whose ledger and queue are still empty, before \<^verbatim>\<open>Start\<close>.\<close>

definition unstarted :: "crypto_env \<Rightarrow> db worker \<Rightarrow> bool" where
  "unstarted X w \<longleftrightarrow> ring_inv (w_ring w) \<and> ring_list (w_ring w) = [] \<and> clean_pools (w_pools w)
     \<and> signer_ok X (w_signer w) \<and> store_inv (w_db w) \<and> db_runs (w_db w) = [] \<and> db_events (w_db w) = []
     \<and> \<not> w_stopped w"

lemma run_log_no_rows: "db_events d = [] \<Longrightarrow> run_log X d r = []"
  by (simp add: run_log_def run_rows_def order_asc_def)

lemma start_genesis:
  assumes X: "crypto_ok X" and w: "unstarted X w" and now: "valid_time (f_now fr)"
    and anchor: "\<forall>a. anchor = Ok a \<longrightarrow> valid_time (an_Timestamp a)"
    and res: "Start strict X (sqlite_repo strict X t) fr uuid anchor w = (w', Ok ())"
  shows "worker_ok X w' \<and> w_runID w' = uuid \<and> w_ring w' = w_ring w \<and> \<not> w_stopped w' \<and> \<not> w_closing w'
    \<and> (db_up (w_db w') \<longleftrightarrow> db_up (w_db w)) \<and> w_signer w' = w_signer w \<and> w_unhealthy w' = w_unhealthy w
    \<and> w_processor w' = Some (NewEventProcessor (w_signer w) uuid) \<and> db_ids (w_db w') = {f_uuid fr}
    \<and> (\<exists>g. run_log X (w_db w') uuid = [g] \<and> EventType g = ''genesis'')"
proof -
  let ?R = "sqlite_repo strict X t"
  have st: "ring_inv (w_ring w)" "ring_list (w_ring w) = []" "clean_pools (w_pools w)"
    "signer_ok X (w_signer w)" "store_inv (w_db w)" "db_runs (w_db w) = []" "run_log X (w_db w) uuid = []"
    "\<not> w_stopped w"
    using w run_log_no_rows [of "w_db w" X uuid] by (simp_all add: unstarted_def)
  have "repo_HasRuns ?R (w_db w) = Ok False"
    using res st(6) by (auto simp: Start_def sqlite_repo_def HasRuns_def query_ready_def
        split: outcome.splits if_splits option.splits)
  then obtain d' ps' r where gen: "CreateGenesisBlock strict X ?R (w_signer w) fr uuid anchor (w_db w)
      (w_pools w) ''Logryph-Agent'' = (d', ps', Ok r)"
    and w': "w' = w\<lparr>w_db := d', w_pools := ps', w_runID := r, w_closing := False,
      w_processor := Some (NewEventProcessor (w_signer w) r)\<rparr>"
    using res by (auto simp: Start_def split: outcome.splits prod.splits)
  from sq.genesis_Ok [OF X st(4,5,7,3) now anchor gen]
  obtain g where "r = uuid" "store_inv d'" "clean_pools ps'" "db_up d' \<longleftrightarrow> db_up (w_db w)"
    "db_ids d' = insert (f_uuid fr) (db_ids (w_db w))" "run_log X d' uuid = [g]"
    "EventType g = ''genesis''" "chain_from X (w_signer w) uuid zero_hash 0 (run_log X d' uuid)"
    by auto
  then show ?thesis
    using st w by (auto simp: w' worker_ok_def NewEventProcessor_def ledger_ok_def tasks_ok_def unstarted_def
        db_ids_def)
qed

lemma InsertRun_up:
  assumes "db_up d" and "r \<notin> set (map r_id (db_runs d))" and "r \<noteq> ''''" "a \<noteq> ''''" "g \<noteq> ''''" "k \<noteq> ''''"
  shows "snd (InsertRun strict d t r a g k) = Ok ()"
  using assms by (simp add: InsertRun_def)

lemma GetPublicKey_nonempty:
  assumes "crypto_ok X" and "signer_ok X s"
  shows "GetPublicKey s \<noteq> ''''"
proof -
  have "length (publicKey s) = 32"
    using assms by (auto simp: signer_ok_def crypto_ok_def ed_ok_def)
  then have "length (GetPublicKey s) = 64" by (simp add: GetPublicKey_def)
  then show ?thesis by auto
qed

lemma start_total:
  assumes X: "crypto_ok X" and w: "unstarted X w" "db_up (w_db w)" and now: "valid_time (f_now fr)"
    and anchor: "\<forall>a. anchor = Ok a \<longrightarrow> valid_time (an_Timestamp a)" "\<not> is_panic anchor"
    and id: "f_uuid fr \<noteq> ''''" "uuid \<noteq> ''''" and pick: "f_pick fr = None"
  shows "\<exists>w'. Start strict X (sqlite_repo strict X t) fr uuid anchor w = (w', Ok ())"
proof -
  let ?R = "sqlite_repo strict X t"
  have st: "signer_ok X (w_signer w)" "store_inv (w_db w)" "clean_pools (w_pools w)" "db_runs (w_db w) = []"
    "run_log X (w_db w) uuid = []" "db_ids (w_db w) = {}"
    using w run_log_no_rows [of "w_db w" X uuid] by (simp_all add: unstarted_def db_ids_def)
  have "Params (snd (GetEvent (f_pick fr) (w_pools w))) = Some []"
    by (simp add: pick GetEvent_def pick_ok_def new_event_def)
  moreover have "snd (repo_InsertRun ?R (w_db w) uuid ''Logryph-Agent'' h (GetPublicKey (w_signer w))) = Ok ()"
    if "length h = 64" for h
  proof -
    have "h \<noteq> ''''" using that by auto
    then show ?thesis
      using InsertRun_up [OF w(2), of uuid "''Logryph-Agent''" h "GetPublicKey (w_signer w)" strict t] id st
        GetPublicKey_nonempty [OF X st(1)] by (simp add: sqlite_repo_def)
  qed
  ultimately obtain d' ps' where "CreateGenesisBlock strict X ?R (w_signer w) fr uuid anchor (w_db w)
      (w_pools w) ''Logryph-Agent'' = (d', ps', Ok uuid)"
    using sq.genesis_total [OF X st(1,2) w(2) st(5) st(3) _ now id(1) _ id(2) anchor, of strict t] st(6)
    by force
  moreover have "repo_HasRuns ?R (w_db w) = Ok False"
    using w(2) st(4) by (simp add: sqlite_repo_def HasRuns_def)
  ultimately show ?thesis by (simp add: Start_def)
qed

section \<open>A concrete run\<close>

definition demo_worker :: "db worker" where
  "demo_worker =
     \<lparr>w_ring = \<lparr>bdata = [None, None], bcapacity = 2, bhead = 0, btail = 0, bcount = 0\<rparr>,
      w_signal = False, w_stopped = False, w_db = empty_db, w_signer = demo_signer, w_runID = '''',
      w_processor = None, w_mode = BackpressureDrop, w_unhealthy = False, w_processed = 0, w_dropped = 0,
      w_blocked = 0, w_latSum = 0, w_latCount = 0, w_buckets = replicate 7 0, w_closing = False,
      w_pools = empty_pools\<rparr>"

definition demo_repo :: "db repository" where
  "demo_repo = sqlite_repo True demo_env 0"

definition demo_offline :: "Anchor outcome" where
  "demo_offline = Err (ErrorString ''offline'')"

definition demo_started :: "db worker" where
  "demo_started = fst (Start True demo_env demo_repo demo_fresh ''run-1'' demo_offline demo_worker)"

definition demo_queued :: "db worker" where
  "demo_queued = fst (Submit True alone id demo_started (Some demo_event))"

lemma demo_unstarted: "unstarted demo_env demo_worker" "db_up (w_db demo_worker)"
  by (simp_all add: unstarted_def demo_worker_def ring_inv_def ring_list_def empty_pools_clean demo_signer_ok
      empty_db_up) (simp_all add: empty_db_def)

lemma demo_fresh_facts: "valid_time (f_now demo_fresh)" "f_uuid demo_fresh \<noteq> ''''" "f_pick demo_fresh = None"
  by (simp_all add: demo_fresh_def demo_time_valid)

lemma demo_start: "Start True demo_env demo_repo demo_fresh ''run-1'' demo_offline demo_worker = (demo_started, Ok ())"
proof -
  obtain w' where "Start True demo_env demo_repo demo_fresh ''run-1'' demo_offline demo_worker = (w', Ok ())"
    using start_total [OF demo_ok demo_unstarted demo_fresh_facts(1), of demo_offline "''run-1''" True 0]
      demo_fresh_facts by (auto simp: demo_offline_def demo_repo_def)
  then show ?thesis by (simp add: demo_started_def)
qed

lemma demo_started_ok:
  "worker_ok demo_env demo_started" "w_runID demo_started = ''run-1''" "w_ring demo_started = w_ring demo_worker"
  "\<not> w_stopped demo_started" "\<not> w_closing demo_started" "db_up (w_db demo_started)"
  "\<not> w_unhealthy demo_started" "w_signer demo_started = demo_signer"
  "db_ids (w_db demo_started) = {''0a1b2c3d-0000''}"
  "\<exists>g. run_log demo_env (w_db demo_started) ''run-1'' = [g] \<and> EventType g = ''genesis''"
  "w_processor demo_started = Some (NewEventProcessor demo_signer ''run-1'')"
proof -
  have "\<forall>a. demo_offline = Ok a \<longrightarrow> valid_time (an_Timestamp a)" by (simp add: demo_offline_def)
  note s = start_genesis [OF demo_ok demo_unstarted(1) demo_fresh_facts(1) this demo_start [unfolded demo_repo_def]]
  show "worker_ok demo_env demo_started" "w_runID demo_started = ''run-1''"
    "w_ring demo_started = w_ring demo_worker" "\<not> w_stopped demo_started" "\<not> w_closing demo_started"
    "\<exists>g. run_log demo_env (w_db demo_started) ''run-1'' = [g] \<and> EventType g = ''genesis''"
    using s by blast+
  show "db_up (w_db demo_started)" using s demo_unstarted(2) by blast
  show "\<not> w_unhealthy demo_started" "w_signer demo_started = demo_signer"
    "w_processor demo_started = Some (NewEventProcessor demo_signer ''run-1'')"
    using s by (simp_all add: demo_worker_def)
  show "db_ids (w_db demo_started) = {''0a1b2c3d-0000''}" using s by (simp add: demo_fresh_def)
qed

lemma demo_event_wf: "event_wf demo_event"
  using demo_event_ok by (simp add: event_wf_def) (simp add: demo_event_def zero_event_def gm_wf_def)

lemma demo_accepts: "accepts demo_started"
  using demo_started_ok(3,5) by (simp add: accepts_def demo_worker_def IsFull_def)

lemma demo_submit: "Submit True alone id demo_started (Some demo_event) = (demo_queued, Ok ())"
  and demo_queued_ok: "worker_ok demo_env demo_queued" "w_db demo_queued = w_db demo_started"
    "ring_list (w_ring demo_queued) = [Some demo_event]" "w_runID demo_queued = ''run-1''"
    "\<not> w_unhealthy demo_queued" "w_processor demo_queued = Some (NewEventProcessor demo_signer ''run-1'')"
proof -
  obtain w' r where sub: "Submit True alone id demo_started (Some demo_event) = (w', r)" by fastforce
  then have w': "w' = demo_queued" by (simp add: demo_queued_def)
  have "ring_list (w_ring demo_started) = []"
    using demo_started_ok(3) by (simp add: demo_worker_def ring_list_def)
  then show "Submit True alone id demo_started (Some demo_event) = (demo_queued, Ok ())"
    "worker_ok demo_env demo_queued" "w_db demo_queued = w_db demo_started"
    "ring_list (w_ring demo_queued) = [Some demo_event]" "w_runID demo_queued = ''run-1''"
    "\<not> w_unhealthy demo_queued" "w_processor demo_queued = Some (NewEventProcessor demo_signer ''run-1'')"
    using submit_step [OF demo_started_ok(1) _ demo_event_wf sub] demo_started_ok(2,4,7,11) demo_accepts sub w'
    by simp_all
qed

lemma demo_queued_run: "worker_run True demo_env demo_started [demo_event] [] demo_queued"
  using worker_run.run_submit [OF worker_run.run_init demo_event_wf demo_submit, of demo_env] demo_accepts
  by simp

lemma ledger_audit:
  assumes "ledger_ok X p d" and "db_up d" and "p_runID p \<noteq> ''''" and "run_log X d (p_runID p) \<noteq> []"
  shows "VerifyChain strict X (GetAllEvents strict X d) (p_runID p) (p_signer p) =
    Ok \<lparr>Valid = True, TotalEvents = int (min 100000 (length (run_log X d (p_runID p)))),
        ErrorMessage = '''', FailedAtSeq = 0\<rparr>"
  using sq.verify_ledger [unfolded sq_ledger, OF assms(1-3), of strict strict 0] assms(4)
  by (simp add: sqlite_repo_def maxEventRows_def maxVerifyEvents_def)

lemma demo_audit:
  "VerifyChain True demo_env (GetAllEvents True demo_env (w_db demo_queued)) ''run-1'' (w_signer demo_queued) =
    Ok \<lparr>Valid = True, TotalEvents = 1, ErrorMessage = '''', FailedAtSeq = 0\<rparr>"
proof -
  obtain p where p: "p_signer p = w_signer demo_queued" "p_runID p = ''run-1''"
    "ledger_ok demo_env p (w_db demo_queued)"
    using demo_queued_ok(1,4) by (auto simp: worker_ok_def)
  moreover have "length (run_log demo_env (w_db demo_queued) ''run-1'') = 1"
    using demo_queued_ok(2) demo_started_ok(10) by auto
  moreover from this have "run_log demo_env (w_db demo_queued) ''run-1'' \<noteq> []" by auto
  ultimately show ?thesis
    using ledger_audit [OF p(3), of True] demo_started_ok(6) demo_queued_ok(2) by simp
qed

text \<open>The run goes on: the queued event is processed, then one that closes its task is.\<close>

definition demo_first :: "db worker" where
  "demo_first = fst (process_one True demo_env (sqlite_repo True demo_env 0) demo_fresh 5 demo_queued)"

definition demo_finish :: event where
  "demo_finish = demo_event\<lparr>ID := ''e2'', EventType := ''tool_response'', TaskState := ''completed''\<rparr>"

definition demo_second :: "db worker" where
  "demo_second = fst (Submit True alone id demo_first (Some demo_finish))"

definition demo_fresh2 :: fresh where
  "demo_fresh2 = demo_fresh\<lparr>f_uuid := ''4e5f6a7b-0000''\<rparr>"

definition demo_done :: "db worker" where
  "demo_done = fst (process_one True demo_env (sqlite_repo True demo_env 0) demo_fresh2 7 demo_second)"

lemma demo_event_facts: "ID demo_event = ''e1''" "go_len (Params demo_event) \<le> 256" "go_len (Response demo_event) \<le> 256"
  "ID demo_finish = ''e2''" "go_len (Params demo_finish) \<le> 256" "go_len (Response demo_finish) \<le> 256"
  by (simp_all add: demo_finish_def demo_event_def zero_event_def go_len_def)

lemma demo_finish_wf: "event_wf demo_finish"
  using demo_event_wf by (simp add: demo_finish_def event_wf_def event_ok_def)

lemma demo_first_step:
  "process_one True demo_env (sqlite_repo True demo_env 0) demo_fresh 5 demo_queued = (demo_first, Ok True)"
  "\<not> w_unhealthy demo_first" "db_up (w_db demo_first)"
  "db_ids (w_db demo_first) \<subseteq> {''e1'', ''0a1b2c3d'', ''0a1b2c3d-0000''}"
proof -
  have task: "\<not> closes (p_taskStates (NewEventProcessor demo_signer ''run-1'')) demo_event"
    by (simp add: closes_def NewEventProcessor_def)
  have id: "ID demo_event \<noteq> ''''" "ID demo_event \<notin> db_ids (w_db demo_queued)"
    using demo_started_ok(9) demo_queued_ok(2) by (simp_all add: demo_event_facts)
  have st: "db_up (w_db demo_queued)" "w_runID demo_queued \<noteq> ''''"
    "length (run_log demo_env (w_db demo_queued) (w_runID demo_queued)) < 2 ^ 63"
    using demo_started_ok(6,10) demo_queued_ok(2,4) by auto
  obtain w' where w': "process_one True demo_env (sqlite_repo True demo_env 0) demo_fresh 5 demo_queued = (w', Ok True)"
    "w_unhealthy w' = w_unhealthy demo_queued" "db_up (w_db w')"
    "db_ids (w_db w') \<subseteq> insert (ID demo_event) (insert (take 8 (f_uuid demo_fresh)) (db_ids (w_db demo_queued)))"
    using sq.process_one_total [unfolded sq_winv, OF demo_ok demo_queued_ok(1) st(1) demo_queued_ok(3) demo_fresh_facts(1)
        _ id st(2,3) demo_event_facts(2,3) demo_queued_ok(6), where dur = 5 and strict = True and stricta = True and now = 0] task by auto
  then have "w' = demo_first" by (simp add: demo_first_def)
  then show "process_one True demo_env (sqlite_repo True demo_env 0) demo_fresh 5 demo_queued = (demo_first, Ok True)"
    "\<not> w_unhealthy demo_first" "db_up (w_db demo_first)"
    "db_ids (w_db demo_first) \<subseteq> {''e1'', ''0a1b2c3d'', ''0a1b2c3d-0000''}"
    using w' demo_queued_ok(2,5) demo_started_ok(9) by (simp_all add: demo_event_facts demo_fresh_def)
qed

lemma demo_first_ok:
  "worker_ok demo_env demo_first" "ring_list (w_ring demo_first) = []" "\<not> w_stopped demo_first" "accepts demo_first"
  "w_runID demo_first = ''run-1''" "open_tasks demo_first = [(''t1'', ''working'')]"
  "\<exists>g e. run_log demo_env (w_db demo_first) ''run-1'' = [g, e]"
proof -
  have sub: "bcapacity (w_ring demo_queued) = 2 \<and> \<not> w_stopped demo_queued \<and> \<not> w_closing demo_queued"
    using Submit_accepts [OF _ demo_accepts demo_started_ok(4), of True demo_event] demo_started_ok(1,3,4,5)
    by (auto simp: demo_queued_def worker_ok_def demo_worker_def)
  note c = sq_process_one [OF demo_ok demo_queued_ok(1,3) demo_fresh_facts(1) demo_first_step(1)]
  have t: "open_tasks demo_queued = []"
    using demo_queued_ok(6) by (simp add: open_tasks_def NewEventProcessor_def)
  have n: "task_next demo_event [] = [(''t1'', ''working'')]" "\<not> closes [] demo_event"
    by (simp_all add: task_next_def tracked_def closes_def isTerminalState_def demo_event_def)
  from c demo_first_step(2) t
  obtain es where es: "grows demo_env ''run-1'' es (w_db demo_queued) (w_db demo_first)" "gains True demo_env [] demo_event es"
    "open_tasks demo_first = task_next demo_event []"
    using demo_queued_ok(4) by auto
  show "worker_ok demo_env demo_first" "ring_list (w_ring demo_first) = []" "\<not> w_stopped demo_first"
    "w_runID demo_first = ''run-1''" "open_tasks demo_first = [(''t1'', ''working'')]"
    using c sub demo_queued_ok(4) es(3) n by auto
  then show "accepts demo_first"
    using c sub IsFull_iff [of "w_ring demo_first"] by (auto simp: accepts_def worker_ok_def)
  show "\<exists>g e. run_log demo_env (w_db demo_first) ''run-1'' = [g, e]"
    using es(1,2) n(2) demo_started_ok(10) demo_queued_ok(2) by (auto simp: grows_def gains_def)
qed

lemma demo_second_ok:
  "Submit True alone id demo_first (Some demo_finish) = (demo_second, Ok ())"
  "worker_ok demo_env demo_second" "w_db demo_second = w_db demo_first"
  "ring_list (w_ring demo_second) = [Some demo_finish]" "w_runID demo_second = ''run-1''"
  "\<not> w_unhealthy demo_second" "w_processor demo_second = w_processor demo_first"
proof -
  obtain w' r where sub: "Submit True alone id demo_first (Some demo_finish) = (w', r)" by fastforce
  then have w': "w' = demo_second" by (simp add: demo_second_def)
  show "Submit True alone id demo_first (Some demo_finish) = (demo_second, Ok ())"
    "worker_ok demo_env demo_second" "w_db demo_second = w_db demo_first"
    "ring_list (w_ring demo_second) = [Some demo_finish]" "w_runID demo_second = ''run-1''"
    "\<not> w_unhealthy demo_second" "w_processor demo_second = w_processor demo_first"
    using submit_step [OF demo_first_ok(1) _ demo_finish_wf sub] demo_first_ok demo_first_step(2) sub w'
    by simp_all
qed

lemma demo_finish_closes: "closes [(''t1'', ''working'')] demo_finish"
  by (simp add: closes_def tracked_def isTerminalState_def demo_finish_def demo_event_def)

lemma demo_done_step:
  "process_one True demo_env (sqlite_repo True demo_env 0) demo_fresh2 7 demo_second = (demo_done, Ok True)"
  "\<not> w_unhealthy demo_done" "db_up (w_db demo_done)"
proof -
  obtain p where p: "w_processor demo_second = Some p" using demo_second_ok(2) by (auto simp: worker_ok_def)
  have id: "ID demo_finish \<noteq> ''''" "ID demo_finish \<notin> db_ids (w_db demo_second)"
    "take 8 (f_uuid demo_fresh2) \<noteq> ''''"
    "take 8 (f_uuid demo_fresh2) \<notin> insert (ID demo_finish) (db_ids (w_db demo_second))"
    using demo_first_step(4) by (auto simp: demo_event_facts demo_fresh2_def demo_second_ok(3))
  have st: "db_up (w_db demo_second)" "w_runID demo_second \<noteq> ''''" "valid_time (f_now demo_fresh2)"
    and len: "length (run_log demo_env (w_db demo_second) (w_runID demo_second)) = 2"
    using demo_first_step(3) demo_first_ok(7) demo_second_ok(3,5) demo_fresh_facts(1) by (auto simp: demo_fresh2_def)
  have room: "length (run_log demo_env (w_db demo_second) (w_runID demo_second)) < 2 ^ 63" using len by simp
  obtain w' where w': "process_one True demo_env (sqlite_repo True demo_env 0) demo_fresh2 7 demo_second = (w', Ok True)"
    "w_unhealthy w' = w_unhealthy demo_second" "db_up (w_db w')"
    using sq.process_one_total [unfolded sq_winv, OF demo_ok demo_second_ok(2) st(1) demo_second_ok(4) st(3)
        _ id(1,2) st(2) room demo_event_facts(5,6) p, where dur = 7 and strict = True and stricta = True and now = 0]
      id(3,4) len by auto
  then have "w' = demo_done" by (simp add: demo_done_def)
  then show "process_one True demo_env (sqlite_repo True demo_env 0) demo_fresh2 7 demo_second = (demo_done, Ok True)"
    "\<not> w_unhealthy demo_done" "db_up (w_db demo_done)"
    using w' demo_second_ok(6) by simp_all
qed

lemma demo_done_run:
  "worker_run True demo_env demo_started [demo_event, demo_finish] [demo_event, demo_finish] demo_done"
proof -
  have f: "valid_time (f_now demo_fresh2)" using demo_fresh_facts(1) by (simp add: demo_fresh2_def)
  have "worker_run True demo_env demo_started [demo_event] [demo_event] demo_first"
    using worker_run.run_process [OF demo_queued_run demo_queued_ok(3) demo_fresh_facts(1) demo_first_step(1)] by simp
  from worker_run.run_submit [OF this demo_finish_wf demo_second_ok(1)]
  have "worker_run True demo_env demo_started [demo_event, demo_finish] [demo_event] demo_second"
    using demo_first_ok(4) by simp
  from worker_run.run_process [OF this demo_second_ok(4) f demo_done_step(1)] show ?thesis by simp
qed

section \<open>Properties\<close>

text \<open>
  C1. From a started worker, whatever steps have run (submissions, processing, anchors, faults of the
  database, the start of shutdown), the audit of the stored run accepts it whenever the database can
  be read, and counts its events up to the 100000 rows one read returns.
\<close>

theorem run_audits:
  assumes X: "crypto_ok X" and w0: "worker_ok X w0" "w_stopped w0 \<longrightarrow> w_closing w0"
    and run: "worker_run strict X w0 acc han w" and up: "db_up (w_db w)"
    and id: "w_runID w0 \<noteq> ''''" and log: "run_log X (w_db w0) (w_runID w0) \<noteq> []"
  shows "VerifyChain strict X (GetAllEvents strict X (w_db w)) (w_runID w0) (w_signer w) =
    Ok \<lparr>Valid = True, TotalEvents = int (min 100000 (length (run_log X (w_db w) (w_runID w0)))),
        ErrorMessage = '''', FailedAtSeq = 0\<rparr>"
proof -
  have inv: "run_inv strict X w0 acc han w" by (rule run_invariant [OF X w0 run])
  then obtain p where p: "w_processor w = Some p" "p_signer p = w_signer w" "p_runID p = w_runID w0"
    "ledger_ok X p (w_db w)"
    by (auto simp: run_inv_def worker_ok_def)
  have "run_log X (w_db w) (w_runID w0) \<noteq> []"
    using inv log by (auto simp: run_inv_def grows_def)
  then show ?thesis
    using ledger_audit [OF p(4) up, of strict] p id by simp
qed

theorem run_audits_witness:
  "VerifyChain True demo_env (GetAllEvents True demo_env (w_db demo_queued)) ''run-1'' (w_signer demo_queued) =
    Ok \<lparr>Valid = True, TotalEvents = int (min 100000 (length (run_log demo_env (w_db demo_queued) ''run-1''))),
        ErrorMessage = '''', FailedAtSeq = 0\<rparr>"
proof -
  have "run_log demo_env (w_db demo_started) (w_runID demo_started) \<noteq> []"
    using demo_started_ok(2,10) by auto
  then show ?thesis
    using run_audits [OF demo_ok demo_started_ok(1) _ demo_queued_run, unfolded demo_started_ok(2)]
      demo_started_ok(2,4,6) demo_queued_ok(2) by simp
qed

text \<open>
  C3. In any run no accepted event is lost, duplicated or reordered between submission and
  processing: what was queued at the start followed by what was accepted since is what was processed,
  in order, followed by what is still queued.
\<close>

theorem run_fifo:
  assumes "crypto_ok X" and "worker_ok X w0" and "w_stopped w0 \<longrightarrow> w_closing w0"
    and "worker_run strict X w0 acc han w"
  shows "ring_list (w_ring w0) @ map Some acc = map Some han @ ring_list (w_ring w)"
  using run_invariant [OF assms] by (simp add: run_inv_def)

theorem run_fifo_witness:
  "ring_list (w_ring demo_started) @ [Some demo_event] = ring_list (w_ring demo_queued)"
  using run_fifo [OF demo_ok demo_started_ok(1) _ demo_queued_run] demo_started_ok(4) by simp

text \<open>
  C4. As long as the worker reports itself healthy, every event it has processed is in the ledger of
  its run: the run grew by one group of entries per processed event, in order, each starting with that
  event's content. Whether the event closed a task is judged with the tasks that were open at the start
  and that the events processed before it opened and closed; an event that closes no open task brings no
  further entry, and one that closes a task brings the completion entry of that task and state (in strict
  mode always; with assertions that return errors a completion entry that cannot be written is missing).
\<close>

theorem run_records:
  assumes "crypto_ok X" and "worker_ok X w0" and "w_stopped w0 \<longrightarrow> w_closing w0"
    and "worker_run strict X w0 acc han w" and "IsHealthy w"
  shows "\<exists>es. run_log X (w_db w) (w_runID w0) = run_log X (w_db w0) (w_runID w0) @ es
    \<and> recorded strict X (open_tasks w0) han es"
  using run_invariant [OF assms(1-4)] assms(5) by (auto simp: run_inv_def grows_def IsHealthy_def)

theorem run_records_witness:
  "\<exists>a b c. run_log demo_env (w_db demo_done) ''run-1'' = run_log demo_env (w_db demo_started) ''run-1''
        @ [norm_event demo_env a, norm_event demo_env b, c]
    \<and> same_content demo_event a \<and> same_content demo_finish b
    \<and> EventType c = ''task_terminal'' \<and> TaskID c = ''t1'' \<and> TaskState c = ''completed''"
proof -
  have t: "open_tasks demo_started = []"
    using demo_started_ok(11) by (simp add: open_tasks_def NewEventProcessor_def)
  have n: "task_next demo_event [] = [(''t1'', ''working'')]" "\<not> closes [] demo_event"
    "TaskID demo_finish = ''t1''" "TaskState demo_finish = ''completed''"
    by (simp_all add: task_next_def tracked_def closes_def isTerminalState_def demo_finish_def demo_event_def)
  obtain es where "run_log demo_env (w_db demo_done) ''run-1'' = run_log demo_env (w_db demo_started) ''run-1'' @ es"
    "recorded True demo_env [] [demo_event, demo_finish] es"
    using run_records [OF demo_ok demo_started_ok(1) _ demo_done_run, unfolded demo_started_ok(2) t]
      demo_started_ok(4) demo_done_step(2) by (auto simp: IsHealthy_def)
  then show ?thesis
    using n demo_finish_closes by (fastforce simp: gains_def)
qed

text \<open>
  C5. Crash consistency: processing one event leaves the run a valid chain of the old entries and at
  most two new ones whether it succeeds, returns an error or panics at any point, and other runs are
  not touched; a success has appended the event, and its completion event when strict assertions are on
  and it closed an open task.
\<close>

theorem process_crash_consistent:
  assumes "crypto_ok X" and "signer_ok X (p_signer p)" and "ledger_ok X p d" and "clean_pools ps"
    and "valid_time (f_now fr)" and "tasks_ok (p_taskStates p)" and "event_ok e"
  shows "case ProcessEvent strict X (sqlite_repo strict X now) fr p d ps (Some e) of
    (p', d', ps', ptr, x) \<Rightarrow> ledger_ok X p d'
      \<and> (\<exists>es. grows X (p_runID p) es d d' \<and> length es \<le> 2
           \<and> (x = Ok () \<longrightarrow> gains strict X (p_taskStates p) e es \<and> p_taskStates p' = task_next e (p_taskStates p)))"
proof -
  obtain p' d' ps' ptr x
    where res: "ProcessEvent strict X (sqlite_repo strict X now) fr p d ps (Some e) = (p', d', ps', ptr, x)"
    by (metis prod_cases5)
  show ?thesis
    using sq.process_cases [unfolded sq_ledger sq_extends, OF assms res] by (simp add: res)
qed

theorem process_crash_consistent_witness:
  "case ProcessEvent True demo_env (sqlite_repo True demo_env 0) demo_fresh
      (NewEventProcessor demo_signer ''run-9'') empty_db empty_pools (Some demo_event) of
    (p', d', ps', ptr, x) \<Rightarrow> ledger_ok demo_env (NewEventProcessor demo_signer ''run-9'') d'
      \<and> (\<exists>es. grows demo_env ''run-9'' es empty_db d' \<and> length es \<le> 2
           \<and> (x = Ok () \<longrightarrow> gains True demo_env [] demo_event es \<and> p_taskStates p' = task_next demo_event []))"
proof -
  let ?p = "NewEventProcessor demo_signer ''run-9''"
  have "signer_ok demo_env (p_signer ?p)" "ledger_ok demo_env ?p empty_db" "tasks_ok (p_taskStates ?p)"
    by (simp_all add: NewEventProcessor_def demo_signer_ok ledger_ok_def empty_db_up tasks_ok_def)
  from process_crash_consistent [OF demo_ok this(1,2) empty_pools_clean demo_fresh_facts(1) this(3) demo_event_ok,
      of True 0]
  show ?thesis by (simp add: NewEventProcessor_def)
qed

text \<open>
  C6. Progress: with no database fault pending, a fresh identifier and room in the run, one round of
  the drain loop writes the oldest queued event (of at most 256 fields, not closing a task) to the
  ledger, counts it and leaves the worker healthy.
\<close>

theorem queued_event_recorded:
  assumes X: "crypto_ok X" and w: "worker_ok X w" "db_up (w_db w)" "IsHealthy w"
    and q: "ring_list (w_ring w) = Some e # rest"
    and now: "valid_time (f_now fr)" and dur: "0 \<le> dur"
    and id: "ID e \<noteq> ''''" "ID e \<notin> db_ids (w_db w)" and r: "w_runID w \<noteq> ''''"
    and room: "length (run_log X (w_db w) (w_runID w)) < 2 ^ 63"
    and small: "go_len (Params e) \<le> 256" "go_len (Response e) \<le> 256"
    and task: "w_processor w = Some p" "\<not> closes (p_taskStates p) e"
  shows "\<exists>w' e'. process_one strict X (sqlite_repo strict X t) fr dur w = (w', Ok True)
    \<and> IsHealthy w' \<and> w_processed w' = w_processed w + 1 \<and> ring_list (w_ring w') = rest
    \<and> (\<exists>cs. run_log X (w_db w') (w_runID w) = run_log X (w_db w) (w_runID w) @ norm_event X e' # cs)
    \<and> same_content e e'"
proof -
  obtain w' where w': "process_one strict X (sqlite_repo strict X t) fr dur w = (w', Ok True)"
    "w_unhealthy w' = w_unhealthy w"
    using sq.process_one_total [unfolded sq_winv, OF X w(1,2) q now dur id r room small task(1)] task(2) by blast
  note c = sq_process_one [OF X w(1) q now w'(1)]
  have h: "\<not> w_unhealthy w'" using w'(2) w(3) by (simp add: IsHealthy_def)
  obtain es where es: "grows X (w_runID w) es (w_db w) (w_db w')" "gains strict X (open_tasks w) e es"
    using c h by blast
  obtain e' cs where e': "es = norm_event X e' # cs" "same_content e e'"
    using es(2) by (auto simp: gains_def)
  have "run_log X (w_db w') (w_runID w) = run_log X (w_db w) (w_runID w) @ norm_event X e' # cs"
    using es(1) e'(1) by (simp add: grows_def)
  then show ?thesis
    using w'(1) h c e'(2) by (auto simp: IsHealthy_def)
qed

theorem queued_event_recorded_witness:
  "\<exists>w' e'. process_one True demo_env (sqlite_repo True demo_env 0) demo_fresh 5 demo_queued = (w', Ok True)
    \<and> IsHealthy w' \<and> w_processed w' = w_processed demo_queued + 1 \<and> ring_list (w_ring w') = []
    \<and> (\<exists>cs. run_log demo_env (w_db w') ''run-1'' = run_log demo_env (w_db demo_queued) ''run-1'' @ norm_event demo_env e' # cs)
    \<and> same_content demo_event e'"
proof -
  have "\<not> closes (p_taskStates (NewEventProcessor demo_signer ''run-1'')) demo_event"
    by (simp add: closes_def NewEventProcessor_def)
  moreover have "ID demo_event \<noteq> ''''" "ID demo_event \<notin> db_ids (w_db demo_queued)"
    "go_len (Params demo_event) \<le> 256" "go_len (Response demo_event) \<le> 256"
    using demo_started_ok(9) demo_queued_ok(2) by (simp_all add: demo_event_def zero_event_def go_len_def)
  moreover have "length (run_log demo_env (w_db demo_queued) ''run-1'') < 2 ^ 63" "db_up (w_db demo_queued)"
    using demo_started_ok(6,10) demo_queued_ok(2) by auto
  ultimately show ?thesis
    using queued_event_recorded [OF demo_ok demo_queued_ok(1) _ _ demo_queued_ok(3) demo_fresh_facts(1) _ _ _ _ _ _ _
        demo_queued_ok(6),
        of 5 True 0] demo_queued_ok(4,5)
    by (simp add: IsHealthy_def)
qed

end
