(* ===== verification/Runs_Table.thy ===== *)
theory Runs_Table
  imports Ledger_Run
begin

text \<open>
  The table of runs during a run of the worker: starting on an empty database adds one row, the row of
  the new run, and nothing after that changes the table. So a command that opens the database later
  finds that run.
\<close>

lemma StoreEvent_runs: "db_runs (fst (StoreEvent strict F d e)) = db_runs d"
  by (auto simp: StoreEvent_def InsertEvent_def split: outcome.splits)

lemma persist_runs:
  assumes "persistEvent strict X (sqlite_repo strict X t) p d e = (d', e', r)"
  shows "db_runs d' = db_runs d"
  using assms StoreEvent_runs [of strict X d]
  by (auto simp: persistEvent_def sqlite_repo_def split: prod.splits outcome.splits) (metis fst_conv)+

lemma completion_runs:
  assumes "createTaskCompletionEvent strict X (sqlite_repo strict X t) p fr d ps tid st = (d', ps', r)"
  shows "db_runs d' = db_runs d"
  using assms persist_runs [of strict X t p d]
  by (auto simp: createTaskCompletionEvent_def Let_def split: prod.splits outcome.splits)

lemma ProcessEvent_runs:
  assumes "ProcessEvent strict X (sqlite_repo strict X t) fr p d ps ptr = (p', d', ps', ptr', r)"
  shows "db_runs d' = db_runs d"
  using assms persist_runs [of strict X t p d] completion_runs [of strict X t p fr]
  by (auto simp: ProcessEvent_def trackTaskState_def Let_def split: option.splits prod.splits outcome.splits if_splits)

lemma latency_keeps_db: "recordLatency strict v dur = (u, r) \<Longrightarrow> w_db u = w_db v"
  using recordLatency_frame [of strict v dur] by auto

lemma process_one_runs:
  assumes "process_one strict X (sqlite_repo strict X t) fr dur w = (w', x)"
  shows "db_runs (w_db w') = db_runs (w_db w)"
proof -
  let ?R = "sqlite_repo strict X t"
  obtain rb r where pop: "Pop strict (w_ring w) = (rb, r)" by fastforce
  show ?thesis
  proof (cases r)
    case (Ok ptr)
    obtain w1 ptr1 y where pe: "process_event strict X ?R fr (w\<lparr>w_ring := rb\<rparr>) ptr = (w1, ptr1, y)"
      by (metis prod_cases3)
    have "db_runs (w_db w1) = db_runs (w_db w)"
      using pe by (auto simp: process_event_def split: option.splits prod.splits dest!: ProcessEvent_runs)
    then show ?thesis
      using assms by (auto simp: process_one_def pop Ok pe Let_def deref_def split: outcome.splits prod.splits option.splits
          dest!: latency_keeps_db)
  qed (use assms in \<open>auto simp: process_one_def pop\<close>)
qed

lemma Submit_keeps_db: "w_db (fst (Submit strict alone id w (Some e))) = w_db w"
  by (auto simp: Submit_def NotNil_def block_wait_alone drop_event_def push_signal_def
      split: outcome.splits prod.splits)

lemma run_keeps_runs: "worker_run strict X w0 acc han w \<Longrightarrow> db_runs (w_db w) = db_runs (w_db w0)"
proof (induction rule: worker_run.induct)
  case (run_submit acc han w e w')
  then show ?case using Submit_keeps_db [of strict w e] by simp
next
  case (run_anchor acc han w fr a w')
  obtain ps e where "GetEvent (f_pick fr) (w_pools w) = (ps, e)" by fastforce
  then show ?case
    using run_anchor Submit_keeps_db [of strict "w\<lparr>w_pools := ps\<rparr>" "anchor_event fr a e"] by (simp add: anchor_tick_def)
next
  case (run_mode acc han w m w')
  then show ?case by (auto simp: SetBackpressureMode_def split: outcome.splits)
qed (auto simp: process_one_runs db_fault_def)

text \<open>The row of the run that \<^verbatim>\<open>Start\<close> makes.\<close>

lemma StoreEvent_keeps: "StoreEvent strict F d e = (d', r) \<Longrightarrow> db_runs d' = db_runs d"
  using StoreEvent_runs [of strict F d e] by simp

lemma genesis_runs:
  assumes "CreateGenesisBlock strict X (sqlite_repo strict X t) s fr runID anchor d ps agent = (d', ps', Ok r)"
  shows "map r_id (db_runs d') = map r_id (db_runs d) @ [runID] \<and> r = runID"
  using assms
  by (auto simp: CreateGenesisBlock_def sqlite_repo_def InsertRun_def Let_def dest!: StoreEvent_keeps
      split: prod.splits outcome.splits)

lemma start_runs:
  assumes "db_runs (w_db w) = []" and "Start strict X (sqlite_repo strict X t) fr uuid anchor w = (w', Ok ())"
  shows "map r_id (db_runs (w_db w')) = [uuid]"
proof -
  have "repo_HasRuns (sqlite_repo strict X t) (w_db w) = Ok False"
    using assms by (auto simp: Start_def sqlite_repo_def HasRuns_def query_ready_def
        split: outcome.splits if_splits option.splits)
  then show ?thesis
    using assms by (auto simp: Start_def split: outcome.splits prod.splits dest!: genesis_runs)
qed

text \<open>With one run in the table, that is the run a reader finds.\<close>

lemma GetRunID_single:
  assumes "db_up d" and "map r_id (db_runs d) = [r]"
  shows "GetRunID d = Ok r"
  using assms by (auto simp: GetRunID_def order_desc_def)

end
