(* ===== verification/Logging.thy ===== *)
theory Logging
  imports Mcp_Message
begin

text \<open>
  Structured logging, \<^verbatim>\<open>src/internal/logging/logger.go\<close>. The state is the level read once from the
  environment and the lines written so far; \<open>env\<close> is \<^verbatim>\<open>LOGRYPH_LOG_LEVEL\<close>, an ASCII text, and \<open>now\<close> the
  current time in UTC.
\<close>

section \<open>Entries\<close>

record Fields =
  lf_RequestID :: string
  lf_TaskID :: string
  lf_Method :: string
  lf_PolicyID :: string
  lf_RiskLevel :: string
  lf_EventID :: string
  lf_RunID :: string
  lf_Component :: string
  lf_Error :: string

text \<open>A field marked \<^verbatim>\<open>omitempty\<close>.\<close>

definition unless_empty :: "string \<Rightarrow> string \<Rightarrow> (string \<times> goval) list" where
  "unless_empty k s = (if s = '''' then [] else [(k, GStr s)])"

definition entry_members :: "gotime \<Rightarrow> string \<Rightarrow> string \<Rightarrow> Fields \<Rightarrow> (string \<times> goval) list" where
  "entry_members now level msg f =
     [(''ts'', GStr (format_time now)), (''level'', GStr level), (''msg'', GStr msg)]
     @ unless_empty ''request_id'' (lf_RequestID f) @ unless_empty ''task_id'' (lf_TaskID f)
     @ unless_empty ''method'' (lf_Method f) @ unless_empty ''policy_id'' (lf_PolicyID f)
     @ unless_empty ''risk_level'' (lf_RiskLevel f) @ unless_empty ''event_id'' (lf_EventID f)
     @ unless_empty ''run_id'' (lf_RunID f) @ unless_empty ''component'' (lf_Component f)
     @ unless_empty ''error'' (lf_Error f)"

record logger =
  levelOnce :: bool
  minLevel :: int
  lg_out :: "string list"

definition levelDebug :: int where
  "levelDebug = 0"

definition levelInfo :: int where
  "levelInfo = 1"

definition levelWarn :: int where
  "levelWarn = 2"

definition levelError :: int where
  "levelError = 3"

definition levelCritical :: int where
  "levelCritical = 4"

definition fresh_logger :: logger where
  "fresh_logger = \<lparr>levelOnce = False, minLevel = levelInfo, lg_out = []\<rparr>"

section \<open>Levels\<close>

definition level_checks :: "bool \<Rightarrow> string \<Rightarrow> unit outcome" where
  "level_checks strict level =
     bind_outcome (Check strict (level \<noteq> '''') ''log level must not be empty'') (\<lambda>_.
     Check strict (length level \<le> 16) (''log level too long: '' @ show_nat (length level)))"

definition levelValue :: "bool \<Rightarrow> string \<Rightarrow> int outcome" where
  "levelValue strict level =
     (case level_checks strict level of
        Panic x \<Rightarrow> Panic x
      | Err _ \<Rightarrow> Ok levelInfo
      | Ok _ \<Rightarrow>
          Ok (if level = ''debug'' then levelDebug else if level = ''info'' then levelInfo
              else if level = ''warn'' then levelWarn else if level = ''error'' then levelError
              else if level = ''critical'' then levelCritical else levelInfo))"

text \<open>\<^verbatim>\<open>levelOnce.Do\<close>: a function that panics counts as done, and leaves the default.\<close>

definition init_level :: "bool \<Rightarrow> string \<Rightarrow> logger \<Rightarrow> logger \<times> unit outcome" where
  "init_level strict env lg =
     (if levelOnce lg then (lg, Ok ())
      else let envLevel = (if env = '''' then ''info'' else map lower_char env) in
        case levelValue strict envLevel of
          Ok v \<Rightarrow> (lg\<lparr>levelOnce := True, minLevel := v\<rparr>, Ok ())
        | Err x \<Rightarrow> (lg\<lparr>levelOnce := True\<rparr>, Err x)
        | Panic x \<Rightarrow> (lg\<lparr>levelOnce := True\<rparr>, Panic x))"

definition shouldLog :: "bool \<Rightarrow> string \<Rightarrow> logger \<Rightarrow> string \<Rightarrow> logger \<times> bool outcome" where
  "shouldLog strict env lg level =
     (case level_checks strict level of
        Panic x \<Rightarrow> (lg, Panic x)
      | Err _ \<Rightarrow> (lg, Ok False)
      | Ok _ \<Rightarrow>
          (let (lg', r) = init_level strict env lg in
           (lg', bind_outcome r (\<lambda>_. bind_outcome (levelValue strict level) (\<lambda>v. Ok (minLevel lg' \<le> v))))))"

section \<open>Writing\<close>

text \<open>
  \<^verbatim>\<open>json.Marshal\<close> cannot fail on an entry, which has only strings; the fallback line is there for the
  shape of the code.
\<close>

definition logWithLevel ::
    "bool \<Rightarrow> ('a) float_conv_scheme \<Rightarrow> string \<Rightarrow> gotime \<Rightarrow> logger \<Rightarrow> string \<Rightarrow> string \<Rightarrow> Fields
       \<Rightarrow> logger \<times> unit outcome" where
  "logWithLevel strict F env now lg level msg fds =
     (case bind_outcome (Check strict (level \<noteq> '''') ''log level must not be empty'') (\<lambda>_.
           Check strict (msg \<noteq> '''') ''log message must not be empty'') of
        Panic x \<Rightarrow> (lg, Panic x)
      | Err _ \<Rightarrow> (lg, Ok ())
      | Ok _ \<Rightarrow>
          (case shouldLog strict env lg level of
             (lg', Panic x) \<Rightarrow> (lg', Panic x)
           | (lg', Err x) \<Rightarrow> (lg', Err x)
           | (lg', Ok False) \<Rightarrow> (lg', Ok ())
           | (lg', Ok True) \<Rightarrow>
               (case Marshal F (GMap (entry_members now level msg fds)) of
                  Ok payload \<Rightarrow> (lg'\<lparr>lg_out := lg_out lg' @ [payload]\<rparr>, Ok ())
                | Err x \<Rightarrow> (lg'\<lparr>lg_out := lg_out lg' @
                     [enc F (GMap [(''level'', GStr ''error''), (''msg'', GStr ''log_marshal_failed''),
                                   (''error'', GStr (error_msg x))])]\<rparr>, Ok ())
                | Panic x \<Rightarrow> (lg', Panic x))))"

definition log_at ::
    "string \<Rightarrow> bool \<Rightarrow> ('a) float_conv_scheme \<Rightarrow> string \<Rightarrow> gotime \<Rightarrow> logger \<Rightarrow> string \<Rightarrow> Fields
       \<Rightarrow> logger \<times> unit outcome" where
  "log_at level strict F env now lg msg fds =
     (case bind_outcome (Check strict (msg \<noteq> '''') ''log message must not be empty'') (\<lambda>_.
           Check strict (length msg \<le> 2048) (''log message too large: '' @ show_nat (length msg))) of
        Panic x \<Rightarrow> (lg, Panic x)
      | Err _ \<Rightarrow> (lg, Ok ())
      | Ok _ \<Rightarrow> logWithLevel strict F env now lg level msg fds)"

definition LogDebug ::
    "bool \<Rightarrow> ('a) float_conv_scheme \<Rightarrow> string \<Rightarrow> gotime \<Rightarrow> logger \<Rightarrow> string \<Rightarrow> Fields \<Rightarrow> logger \<times> unit outcome" where
  "LogDebug = log_at ''debug''"

definition LogInfo ::
    "bool \<Rightarrow> ('a) float_conv_scheme \<Rightarrow> string \<Rightarrow> gotime \<Rightarrow> logger \<Rightarrow> string \<Rightarrow> Fields \<Rightarrow> logger \<times> unit outcome" where
  "LogInfo = log_at ''info''"

definition LogWarn ::
    "bool \<Rightarrow> ('a) float_conv_scheme \<Rightarrow> string \<Rightarrow> gotime \<Rightarrow> logger \<Rightarrow> string \<Rightarrow> Fields \<Rightarrow> logger \<times> unit outcome" where
  "LogWarn = log_at ''warn''"

definition LogError ::
    "bool \<Rightarrow> ('a) float_conv_scheme \<Rightarrow> string \<Rightarrow> gotime \<Rightarrow> logger \<Rightarrow> string \<Rightarrow> Fields \<Rightarrow> logger \<times> unit outcome" where
  "LogError = log_at ''error''"

definition LogCritical ::
    "bool \<Rightarrow> ('a) float_conv_scheme \<Rightarrow> string \<Rightarrow> gotime \<Rightarrow> logger \<Rightarrow> string \<Rightarrow> Fields \<Rightarrow> logger \<times> unit outcome" where
  "LogCritical = log_at ''critical''"

section \<open>Lemmas\<close>

lemma utf8_tail_high:
  "128 \<le> cv c \<Longrightarrow> list_all (\<lambda>x. 32 \<le> cv x) (take (utf8_len (c # s)) (c # s))"
  by (cases "c # s" rule: utf8_len.cases) (auto simp: is_cont_def)

lemma hex_lower_visible: "n < 16 \<Longrightarrow> 32 \<le> cv (hex_lower n)"
  by (auto simp: hex_lower_def)

lemma esc_ascii_visible: "list_all (\<lambda>x. 32 \<le> cv x) (esc_ascii c)"
proof -
  have "cv c < 256" by (simp add: cv_def)
  then have "cv c div 16 < 16" by simp
  then show ?thesis
    using hex_lower_visible [of "cv c div 16"] hex_lower_visible [of "cv c mod 16"]
    by (auto simp: esc_ascii_def html_safe_def) (simp_all add: cv_def)
qed

lemma enc_chars_visible: "list_all (\<lambda>x. 32 \<le> cv x) (enc_chars s)"
proof (induction s rule: enc_chars.induct)
  case (2 c s)
  then show ?case
    using esc_ascii_visible [of c] utf8_tail_high [of c s]
    by (cases "cv c < 128") ((auto simp: enc_chars.simps(2) Let_def not_less simp del: take_Suc_Cons),
      simp_all add: cv_def)
qed (simp add: enc_chars.simps)

lemma enc_string_visible: "list_all (\<lambda>x. 32 \<le> cv x) (enc_string s)"
  using enc_chars_visible [of s] by (simp add: enc_string_def cv_def)

lemma enc_strings_visible:
  "\<forall>(k, v) \<in> set kvs. \<exists>s. v = GStr s \<Longrightarrow> list_all (\<lambda>x. 32 \<le> cv x) (enc F (GMap kvs))"
proof -
  have "\<forall>(k, v) \<in> set kvs. \<exists>s. v = GStr s \<Longrightarrow> list_all (\<lambda>x. 32 \<le> cv x) (enc_members F kvs)"
  proof (induction kvs)
    case (Cons kv kvs)
    then show ?case
      using enc_string_visible by (cases kv) (auto simp: enc_members_Cons cv_def)
  qed simp
  then show "\<forall>(k, v) \<in> set kvs. \<exists>s. v = GStr s \<Longrightarrow> list_all (\<lambda>x. 32 \<le> cv x) (enc F (GMap kvs))"
    by (simp add: cv_def)
qed

lemma entry_strings: "\<forall>(k, v) \<in> set (entry_members now level msg f). \<exists>s. v = GStr s"
  by (auto simp: entry_members_def unless_empty_def)

lemma Marshal_entry:
  "Marshal F (GMap (entry_members now level msg f)) = Ok (enc F (GMap (entry_members now level msg f)))"
proof -
  have "marshalable_members (entry_members now level msg f)"
    by (auto simp: entry_members_def unless_empty_def marshalable_members_iff)
  then show ?thesis by (simp add: Marshal_def del: enc.simps)
qed

end
