(* ===== verification/Proxy_Properties.thy ===== *)
theory Proxy_Properties
  imports Interceptor Ledger_Run
begin

text \<open>
  What the proxy hooks guarantee and what they do not: the policy that applies, the body that is
  forwarded, the event that reaches the ledger, and the sharing of a pooled buffer with a body that is
  still to be sent.
\<close>

section \<open>Concrete inputs\<close>

definition demo_fmt :: fmt_conv where
  "demo_fmt = \<lparr>fmt_float = demo_show, fmt_time = format_time\<rparr>"

definition demo_rule :: Rule where
  "demo_rule = \<lparr>r_ID = ''pay'', MatchMethods = [''pay:*''], r_RiskLevel = ''high'', r_LogLevel = '''',
     MatchConditions = [], Redact = [''card'']\<rparr>"

definition cond_rule :: Rule where
  "cond_rule = \<lparr>r_ID = ''limit'', MatchMethods = [''pay:transfer''], r_RiskLevel = ''critical'', r_LogLevel = '''',
     MatchConditions = [[(''key'', ''to''), (''operator'', ''eq''), (''value'', ''bob'')]], Redact = []\<rparr>"

definition demo_observer :: ObserverEngine where
  "demo_observer = \<lparr>o_config = \<lparr>Version = ''1'', RetentionDays = 90, SigningEnabled = True, LogLevel = ''info'',
     Policies = [cond_rule, demo_rule]\<rparr>, o_configPath = ''policy.yaml'', o_stopped = False\<rparr>"

definition late_observer :: ObserverEngine where
  "late_observer = demo_observer\<lparr>o_config := (o_config demo_observer)\<lparr>Policies :=
     [demo_rule\<lparr>MatchMethods := [''db:*'']\<rparr>, cond_rule\<lparr>MatchMethods := [''x'', ''pay:*'']\<rparr>]\<rparr>\<rparr>"

definition demo_params :: "goval gomap" where
  "demo_params = [(''card'', GStr ''4111''), (''task_id'', GStr ''t1'')]"

definition demo_request :: MCPRequest where
  "demo_request = \<lparr>rq_JSONRPC = ''2.0'', rq_ID = GNil, rq_Method = ''pay:card'', rq_Params = Some demo_params\<rparr>"

definition demo_body :: string where
  "demo_body = enc demo_env (GMap (request_members demo_request))"

definition demo_engine :: "db engine" where
  "demo_engine = NewEngine (demo_started\<lparr>w_pools := empty_pools\<rparr>) (Some demo_observer)"

definition demo_post :: http_request where
  "demo_post = \<lparr>req_Method = ''POST'', req_Body = Stream [demo_body] None, req_ContentLength = int (length demo_body)\<rparr>"

section \<open>Policy evaluation\<close>

text \<open>A rule applies when one of its patterns matches the method and all its conditions hold.\<close>

definition pattern_matches :: "string \<Rightarrow> string \<Rightarrow> bool" where
  "pattern_matches p m \<longleftrightarrow> p = m \<or> (\<exists>q t. p = q @ ''*'' \<and> m = q @ t)"

definition rule_applies :: "('a) float_conv_scheme \<Rightarrow> fmt_conv \<Rightarrow> string \<Rightarrow> goval gomap \<Rightarrow> Rule \<Rightarrow> bool" where
  "rule_applies F M m params r \<longleftrightarrow>
     (\<exists>p \<in> set (MatchMethods r). pattern_matches p m) \<and> (\<forall>c \<in> set (MatchConditions r). cond_holds F M params c)"

definition rule_wf :: "Rule \<Rightarrow> bool" where
  "rule_wf r \<longleftrightarrow> length (MatchMethods r) \<le> 128 \<and> length (MatchConditions r) \<le> 64 \<and> '''' \<notin> set (MatchMethods r)"

lemma match_patterns_Ok:
  assumes "m \<noteq> ''''" and "length (MatchConditions r) \<le> 64" and "'''' \<notin> set ps"
  shows "match_patterns strict F M r m (Some params) ps =
    Ok ((\<exists>p \<in> set ps. pattern_matches p m) \<and> (\<forall>c \<in> set (MatchConditions r). cond_holds F M params c))"
  using assms(3)
proof (induction ps)
  case (Cons p ps)
  have "CheckConditions strict F M (MatchConditions r) (Some params) =
      Ok (\<forall>c \<in> set (MatchConditions r). cond_holds F M params c)"
    using assms(2) by (simp add: CheckConditions_def maxConditions_def check_loop_iff list_all_iff)
  moreover have "MatchPattern strict p m = Ok (pattern_matches p m)"
    using Cons.prems assms(1) by (auto simp: MatchPattern_Ok pattern_matches_def)
  ultimately show ?case using Cons by auto
qed simp

lemma policy_loop_Ok:
  assumes "m \<noteq> ''''" and "list_all rule_wf rs"
  shows "policy_loop strict F M m (Some params) rs =
    Ok (case find (rule_applies F M m params) rs of
          None \<Rightarrow> (ActionAllow, None)
        | Some r \<Rightarrow> (if Redact r \<noteq> [] then ActionRedact else ActionTag, Some r))"
  using assms(2)
proof (induction rs)
  case (Cons r rs)
  have "match_patterns strict F M r m (Some params) (MatchMethods r) = Ok (rule_applies F M m params r)"
    using match_patterns_Ok [OF assms(1), of r "MatchMethods r" strict F M params] Cons.prems
    by (simp add: rule_wf_def rule_applies_def)
  then show ?case
    using Cons by (simp add: rule_wf_def maxPatterns_def maxConditions_def)
qed simp

text \<open>
  C24. The policy that applies to a call is the first rule, in file order, with a pattern that matches
  the method and with every condition true; it asks for redaction exactly when it lists keys to redact,
  and with no such rule the call is only allowed.
\<close>

theorem evaluatePolicy_first_match:
  assumes "m \<noteq> ''''" and "length (GetPolicies e) \<le> 256" and "list_all rule_wf (GetPolicies e)"
  shows "evaluatePolicy strict F M (Some e) m (Some params) =
    Ok (case find (rule_applies F M m params) (GetPolicies e) of
          None \<Rightarrow> (ActionAllow, None)
        | Some r \<Rightarrow> (if Redact r \<noteq> [] then ActionRedact else ActionTag, Some r))"
  using assms policy_loop_Ok [OF assms(1,3)] by (simp add: evaluatePolicy_def maxPolicies_def)

lemma demo_policies: "GetPolicies demo_observer = [cond_rule, demo_rule]"
  by (simp add: GetPolicies_def demo_observer_def)

lemma demo_policies_wf: "list_all rule_wf (GetPolicies demo_observer)" "length (GetPolicies demo_observer) \<le> 256"
  by (simp_all add: demo_policies rule_wf_def cond_rule_def demo_rule_def)

lemma demo_find: "find (rule_applies demo_env demo_fmt ''pay:card'' demo_params) (GetPolicies demo_observer) = Some demo_rule"
  by (simp add: demo_policies rule_applies_def pattern_matches_def cond_rule_def demo_rule_def Cons_eq_append_conv)

theorem evaluatePolicy_first_match_witness:
  "evaluatePolicy True demo_env demo_fmt (Some demo_observer) ''pay:card'' (Some demo_params) = Ok (ActionRedact, Some demo_rule)"
  using evaluatePolicy_first_match [of "''pay:card''" demo_observer True demo_env demo_fmt demo_params]
  by (simp add: demo_policies_wf demo_find) (simp add: demo_rule_def)

lemma match_patterns_nil:
  assumes "m \<noteq> ''''" and "length (MatchConditions r) \<le> 64" and "'''' \<notin> set ps"
  shows "match_patterns True F M r m None ps =
    (if \<exists>p \<in> set ps. pattern_matches p m
     then if MatchConditions r = [] then Ok True else Panic (AssertionFailed ''params must not be nil'')
     else Ok False)"
  using assms(3)
proof (induction ps)
  case (Cons p ps)
  have "MatchPattern True p m = Ok (pattern_matches p m)"
    using Cons.prems assms(1) by (auto simp: MatchPattern_Ok pattern_matches_def)
  then show ?case
    using Cons assms(2) by (auto simp: CheckConditions_def maxConditions_def)
qed simp

lemma policy_loop_nil:
  assumes "m \<noteq> ''''" and "list_all rule_wf rs"
  shows "policy_loop True F M m None rs =
    (case find (\<lambda>r. \<exists>p \<in> set (MatchMethods r). pattern_matches p m) rs of
       None \<Rightarrow> Ok (ActionAllow, None)
     | Some r \<Rightarrow> if MatchConditions r \<noteq> [] then Panic (AssertionFailed ''params must not be nil'')
                 else Ok (if Redact r \<noteq> [] then ActionRedact else ActionTag, Some r))"
  using assms(2)
proof (induction rs)
  case (Cons r rs)
  then show ?case
    using match_patterns_nil [OF assms(1), of r "MatchMethods r" F M]
    by (auto simp: rule_wf_def maxPatterns_def maxConditions_def)
qed simp

text \<open>
  C37. A call without parameters (in strict mode, under a policy within the bounds): the first rule, in
  file order, with a pattern that matches the method decides. If it has conditions the evaluation panics,
  and so does not let the call pass by unobserved as the fail-open design intends; if it has none the rule
  applies; with no such rule the call is allowed.
\<close>

theorem nil_params_panic:
  assumes "m \<noteq> ''''" and "length (GetPolicies e) \<le> 256" and "list_all rule_wf (GetPolicies e)"
  shows "evaluatePolicy True F M (Some e) m None =
    (case find (\<lambda>r. \<exists>p \<in> set (MatchMethods r). pattern_matches p m) (GetPolicies e) of
       None \<Rightarrow> Ok (ActionAllow, None)
     | Some r \<Rightarrow> if MatchConditions r \<noteq> [] then Panic (AssertionFailed ''params must not be nil'')
                 else Ok (if Redact r \<noteq> [] then ActionRedact else ActionTag, Some r))"
  using assms policy_loop_nil [OF assms(1,3)] by (simp add: evaluatePolicy_def maxPolicies_def)

theorem nil_params_panic_witness:
  "evaluatePolicy True demo_env demo_fmt (Some late_observer) ''pay:transfer'' None
     = Panic (AssertionFailed ''params must not be nil'')
   \<and> evaluatePolicy True demo_env demo_fmt (Some demo_observer) ''pay:card'' None = Ok (ActionRedact, Some demo_rule)
   \<and> evaluatePolicy True demo_env demo_fmt (Some demo_observer) ''db:query'' None = Ok (ActionAllow, None)"
proof -
  have p: "GetPolicies late_observer = [demo_rule\<lparr>MatchMethods := [''db:*'']\<rparr>, cond_rule\<lparr>MatchMethods := [''x'', ''pay:*'']\<rparr>]"
    by (simp add: GetPolicies_def late_observer_def demo_observer_def)
  have w: "list_all rule_wf (GetPolicies late_observer)" "length (GetPolicies late_observer) \<le> 256"
    by (simp_all add: p rule_wf_def cond_rule_def demo_rule_def)
  show ?thesis
    using nil_params_panic [of "''pay:transfer''" late_observer demo_env demo_fmt]
      nil_params_panic [of "''pay:card''" demo_observer demo_env demo_fmt]
      nil_params_panic [of "''db:query''" demo_observer demo_env demo_fmt] w demo_policies_wf
    by (simp add: p demo_policies pattern_matches_def Cons_eq_append_conv cond_rule_def demo_rule_def)
qed

section \<open>The forwarded body\<close>

lemma demo_request_ok: "request_ok demo_request"
proof -
  have "\<forall>s \<in> {''2.0'', ''pay:card'', ''card'', ''task_id'', ''4111'', ''t1''}. to_valid s = s"
    by (simp add: to_valid.simps utf8_len_ascii cv_def)
  then show ?thesis
    by (simp add: request_ok_def demo_request_def demo_params_def map_value_def max_nesting_def gm_wf_def less_char_def)
qed

lemma demo_decodes: "UnmarshalRequest demo_env demo_body = Ok demo_request"
  unfolding demo_body_def by (rule request_round_trip [OF float_conv_of_crypto [OF demo_ok] demo_request_ok])

lemma demo_body_length: "0 < length demo_body" "length demo_body < 1000"
  by code_simp+

lemma demo_body_nonempty: "demo_body \<noteq> []"
  using demo_body_length(1) by auto

lemma demo_redacts: "\<exists>s. redactSensitiveData strict demo_env demo_body [''card''] = Ok s"
proof -
  let ?q = "demo_request\<lparr>rq_Params := redact_loop [''card''] (rq_Params demo_request)\<rparr>"
  have "map_decoded (rq_Params demo_request)"
    using UnmarshalRequest_ok [OF float_conv_of_crypto [OF demo_ok] demo_decodes] by simp
  then have "request_ok ?q"
    using demo_request_ok map_decoded_ok [OF redact_loop_decoded [of "rq_Params demo_request" "[''card'']"]]
    by (simp add: request_ok_def del: redact_loop.simps)
  then have "\<exists>s. MarshalRequest demo_env ?q = Ok s" by (auto simp: MarshalRequest_ok)
  moreover have "go_len (rq_Params demo_request) = 2"
    by (simp add: demo_request_def demo_params_def go_len_def)
  ultimately show ?thesis
    by (simp add: redactSensitiveData_def demo_body_nonempty demo_decodes maxRedactKeys_def maxParams_def del: redact_loop.simps)
qed

lemma demo_buffers: "buffers_ok (c_pools demo_engine)"
  by (simp add: demo_engine_def NewEngine_def buffers_ok_def empty_pools_def)

lemma demo_extract: "extractTaskMetadata True demo_env (concat [demo_body]) = Ok (demo_request, ''t1'', ''pay:card'')"
  using demo_body_length
  by (simp add: extractTaskMetadata_def demo_body_nonempty demo_decodes)
    (simp add: demo_request_def demo_params_def string_at_def)

lemma demo_policy:
  "evaluatePolicy True demo_env demo_fmt (c_Observer demo_engine) ''pay:card'' (rq_Params demo_request) = Ok (ActionRedact, Some demo_rule)"
  using policy_loop_Ok [of "''pay:card''" "GetPolicies demo_observer" True demo_env demo_fmt demo_params] demo_policies_wf
  by (simp add: evaluatePolicy_def demo_engine_def NewEngine_def demo_request_def maxPolicies_def demo_find)
    (simp add: demo_rule_def)

lemma demo_post_facts: "req_Method demo_post = ''POST''" "req_Body demo_post = Stream [demo_body] None"
  by (simp_all add: demo_post_def)

lemma policy_redacts_keys:
  assumes "evaluatePolicy strict F M obs m params = Ok (ActionRedact, Some r)"
  shows "Redact r \<noteq> []"
proof -
  have "Redact r \<noteq> []" if "policy_loop strict F M m params rs = Ok (ActionRedact, Some r)" for rs
    using that by (induction rs) (auto simp: outcome_simps ActionRedact_def ActionTag_def ActionAllow_def split: if_splits)
  then show ?thesis using assms by (auto simp: evaluatePolicy_def outcome_simps Let_def)
qed

text \<open>
  C23. Redaction as it is forwarded: when the policy asks for redaction of a call under a rule and the
  redaction succeeds with \<open>s\<close>, the request leaves the hook, whatever it returned, with the body \<open>s\<close>, which
  decodes to the call as it came with every parameter the rule lists that was there replaced by the marker,
  and with everything else (method, identifier, other parameters) unchanged. The declared length is left
  as it was, also where \<open>s\<close> has another length.
\<close>

theorem redaction_forwarded:
  assumes "float_conv_ok F" and "buffers_ok (c_pools c)" and "req_Body req = Stream cs None" and "req_Method req = ''POST''"
    and "extractTaskMetadata strict F (concat cs) = Ok (q, t, m)" and "rq_Params q = Some kvs"
    and "evaluatePolicy strict F M (c_Observer c) m (rq_Params q) = Ok (ActionRedact, Some r)"
    and "redactSensitiveData strict F (concat cs) (Redact r) = Ok s"
    and "InterceptRequest strict F M alone id bpick sz fr c req = (c', req', x)"
  shows "req_Body req' = Bytes s \<and> req_ContentLength req' = req_ContentLength req
    \<and> (\<exists>kvs'. UnmarshalRequest F s = Ok (q\<lparr>rq_Params := Some kvs'\<rparr>)
         \<and> (\<forall>k. gm_lookup kvs' k =
              (if k \<in> set (Redact r) \<and> gm_lookup kvs k \<noteq> None then Some (GStr ''[REDACTED]'') else gm_lookup kvs k)))"
proof -
  have "redacts_to strict F M (c_Observer c) (concat cs) s" using assms(5,7,8) by (auto simp: redacts_to_def)
  moreover have "UnmarshalRequest F (concat cs) = Ok q"
    using assms(5) by (auto simp: extractTaskMetadata_def outcome_simps)
  from redact_round_trip [OF assms(1) this assms(8) policy_redacts_keys [OF assms(7)]]
  have "UnmarshalRequest F s = Ok (q\<lparr>rq_Params := redact_loop (Redact r) (rq_Params q)\<rparr>)" .
  ultimately show ?thesis
    using InterceptRequest_body [OF assms(2) _ assms(9,4), of cs s] assms(3) redact_loop_lookup [of "Redact r" kvs] assms(6)
    by auto
qed

theorem redaction_forwarded_witness:
  "\<exists>c' req' x s kvs'. InterceptRequest True demo_env demo_fmt alone id None id demo_fresh demo_engine demo_post = (c', req', x)
     \<and> req_Body req' = Bytes s \<and> UnmarshalRequest demo_env s = Ok (demo_request\<lparr>rq_Params := Some kvs'\<rparr>)
     \<and> gm_lookup kvs' ''card'' = Some (GStr ''[REDACTED]'') \<and> gm_lookup kvs' ''task_id'' = Some (GStr ''t1'')"
proof -
  obtain c' req' x where i: "InterceptRequest True demo_env demo_fmt alone id None id demo_fresh demo_engine demo_post = (c', req', x)"
    by (metis prod_cases3)
  obtain s where "redactSensitiveData True demo_env demo_body [''card''] = Ok s" using demo_redacts by blast
  then have s: "redactSensitiveData True demo_env (concat [demo_body]) (Redact demo_rule) = Ok s" by (simp add: demo_rule_def)
  have p: "rq_Params demo_request = Some demo_params" by (simp add: demo_request_def)
  obtain kvs' where k: "req_Body req' = Bytes s" "UnmarshalRequest demo_env s = Ok (demo_request\<lparr>rq_Params := Some kvs'\<rparr>)"
    "\<forall>k. gm_lookup kvs' k = (if k \<in> set (Redact demo_rule) \<and> gm_lookup demo_params k \<noteq> None
       then Some (GStr ''[REDACTED]'') else gm_lookup demo_params k)"
    using redaction_forwarded [OF float_conv_of_crypto [OF demo_ok] demo_buffers demo_post_facts(2,1) demo_extract p demo_policy s i]
    by blast
  then have "gm_lookup kvs' ''card'' = Some (GStr ''[REDACTED]'')" "gm_lookup kvs' ''task_id'' = Some (GStr ''t1'')"
    by (simp_all add: demo_params_def demo_rule_def)
  then show ?thesis using i k(1,2) by blast
qed

text \<open>
  C22. Passive observation: a request whose body came in without error and for which the policy asks for
  no redaction (it is no call, the evaluation fails, no rule applies or the first that does lists no keys),
  or for which the redaction fails, leaves the hook, whatever the hook returned, with a body that reads
  exactly as it came at that moment, and with its method and declared length.
\<close>

theorem request_transparent:
  assumes "buffers_ok (c_pools c)" and "req_Body req = Stream cs None" and "req_Method req = ''POST''"
    and "\<And>q t m r s. extractTaskMetadata strict F (concat cs) = Ok (q, t, m) \<Longrightarrow>
      evaluatePolicy strict F M (c_Observer c) m (rq_Params q) = Ok (ActionRedact, Some r) \<Longrightarrow>
      redactSensitiveData strict F (concat cs) (Redact r) \<noteq> Ok s"
    and "InterceptRequest strict F M alone id bpick sz fr c req = (c', req', x)"
  shows "body_text (c_pools c') (req_Body req') = concat cs
    \<and> req_Method req' = ''POST'' \<and> req_ContentLength req' = req_ContentLength req"
proof -
  have "\<nexists>s. redacts_to strict F M (c_Observer c) (concat cs) s" using assms(4) by (auto simp: redacts_to_def)
  then show ?thesis
    using InterceptRequest_body [OF assms(1) _ assms(5,3), of cs] assms(2) by simp
qed

text \<open>The same call where the only rule is about another method.\<close>

definition quiet_engine :: "db engine" where
  "quiet_engine = demo_engine\<lparr>c_Observer := Some (demo_observer\<lparr>o_config := (o_config demo_observer)\<lparr>Policies := [cond_rule]\<rparr>\<rparr>)\<rparr>"

lemma quiet_policy:
  "evaluatePolicy True demo_env demo_fmt (c_Observer quiet_engine) ''pay:card'' (rq_Params demo_request) = Ok (ActionAllow, None)"
proof -
  have p: "GetPolicies (the (c_Observer quiet_engine)) = [cond_rule]"
    by (simp add: quiet_engine_def GetPolicies_def demo_observer_def)
  have w: "rule_wf cond_rule" by (simp add: rule_wf_def cond_rule_def)
  have "\<not> rule_applies demo_env demo_fmt ''pay:card'' demo_params cond_rule"
    by (simp add: rule_applies_def pattern_matches_def cond_rule_def Cons_eq_append_conv)
  then show ?thesis
    using policy_loop_Ok [of "''pay:card''" "[cond_rule]" True demo_env demo_fmt demo_params] p w
    by (simp add: evaluatePolicy_def maxPolicies_def demo_request_def quiet_engine_def)
qed

theorem request_transparent_witness:
  "case InterceptRequest True demo_env demo_fmt alone id None id demo_fresh quiet_engine demo_post of
     (c', req', x) \<Rightarrow> body_text (c_pools c') (req_Body req') = demo_body \<and> req_Method req' = ''POST''"
proof -
  obtain c' req' x where r: "InterceptRequest True demo_env demo_fmt alone id None id demo_fresh quiet_engine demo_post = (c', req', x)"
    by (metis prod_cases3)
  have b: "buffers_ok (c_pools quiet_engine)" using demo_buffers by (simp add: quiet_engine_def)
  have "redactSensitiveData True demo_env (concat [demo_body]) (Redact r) \<noteq> Ok s"
    if "extractTaskMetadata True demo_env (concat [demo_body]) = Ok (q, t, m)"
      "evaluatePolicy True demo_env demo_fmt (c_Observer quiet_engine) m (rq_Params q) = Ok (ActionRedact, Some r)" for q t m r s
    using that demo_extract quiet_policy by (auto simp: ActionRedact_def ActionAllow_def)
  from request_transparent [OF b demo_post_facts(2,1) this r] show ?thesis by (simp add: r)
qed

section \<open>The event\<close>

text \<open>The worker's run goes on through the pools and the submission of a call.\<close>

lemma run_submitToolCall:
  assumes run: "worker_run strict X w0 acc han (c_Worker c)" and w: "worker_ok X (c_Worker c)"
    and stop: "w_stopped (c_Worker c) \<longrightarrow> w_closing (c_Worker c)"
    and tasks: "strings_only (c_LastEventByTask c)" and now: "valid_time (f_now fr)"
    and q: "map_decoded (rq_Params q)"
    and res: "submitToolCallEvent strict alone id fr c t q rule = (c', x)"
  shows "x = Ok () \<and> (\<exists>e0 e. clean_event e0
      \<and> e = (tool_call_event fr e0 t q rule)\<lparr>ParentID := if t = '''' then '''' else string_at (Some (c_LastEventByTask c)) t\<rparr>
      \<and> worker_run strict X w0 (if accepts (c_Worker c) then acc @ [e] else acc) han (c_Worker c')
      \<and> c_LastEventByTask c' = (if t = '''' then c_LastEventByTask c else gm_update t (GStr (ID e)) (c_LastEventByTask c))
      \<and> ring_list (w_ring (c_Worker c')) = ring_list (w_ring (c_Worker c)) @ (if accepts (c_Worker c) then [Some e] else [])
      \<and> clean_pools (c_pools c'))"
proof -
  obtain ps e0 where g: "GetEvent (f_pick fr) (c_pools c) = (ps, e0)" by force
  have clean: "clean_event e0" "clean_pools ps"
    using GetEvent_clean [of "c_pools c" "f_pick fr"] w g by (simp_all add: worker_ok_def)
  let ?w = "(c_Worker c)\<lparr>w_pools := ps\<rparr>"
  define e where "e = (tool_call_event fr e0 t q rule)\<lparr>ParentID := if t = '''' then '''' else string_at (Some (c_LastEventByTask c)) t\<rparr>"
  note ev = tool_call_event_fields [OF clean(1) q now, of t rule]
  have wf: "event_wf e" using ev(2) by (simp add: e_def event_wf_def event_ok_def)
  have link: "link_parent strict (c_LastEventByTask c) t (tool_call_event fr e0 t q rule) = Ok e"
    using link_parent_clean [OF tasks ev(1)] by (simp add: e_def)
  obtain w' y where s: "Submit strict alone id ?w (Some e) = (w', y)" by force
  have ok: "worker_ok X ?w" "w_stopped ?w \<longrightarrow> w_closing ?w" using w stop clean(2) by (auto simp: worker_ok_def)
  note step = submit_step [OF ok wf s]
  have acc: "accepts ?w = accepts (c_Worker c)" by (simp add: accepts_def)
  have run': "worker_run strict X w0 (if accepts ?w then acc @ [e] else acc) han w'"
    using run_submit [OF run_pools [OF run clean(2)] wf] s step by simp
  have c': "c' = (if t = '''' then with_pools c ps
      else (with_pools c ps)\<lparr>c_LastEventByTask := gm_update t (GStr (ID e)) (c_LastEventByTask c)\<rparr>)\<lparr>c_Worker := w'\<rparr>"
    and x: "x = y"
    using res by (auto simp: submitToolCallEvent_def Let_def g link s split: if_splits)
  have "worker_ok X w'" using step by simp
  then have "clean_pools (c_pools c')" by (auto simp: c' worker_ok_def)
  then show ?thesis
    using step run' acc clean(1) unfolding x c' by (intro conjI exI [of _ e0] exI [of _ e]) (auto simp: e_def)
qed

lemma tool_call_fields:
  assumes "clean_event e0"
  shows "EventType (tool_call_event fr e0 t q rule) = ''tool_call''"
    "ID (tool_call_event fr e0 t q rule) = take 8 (f_uuid fr)"
    "Method (tool_call_event fr e0 t q rule) = rq_Method q" "Params (tool_call_event fr e0 t q rule) = rq_Params q"
    "TaskID (tool_call_event fr e0 t q rule) = t"
    "PolicyID (tool_call_event fr e0 t q rule) = (case rule of None \<Rightarrow> '''' | Some r \<Rightarrow> r_ID r)"
    "RiskLevel (tool_call_event fr e0 t q rule) = (case rule of None \<Rightarrow> '''' | Some r \<Rightarrow> r_RiskLevel r)"
proof -
  have "PolicyID e0 = ''''" "RiskLevel e0 = ''''"
    using assms by (simp_all add: clean_event_def zero_event_def)
      (metis event.select_convs(13), metis event.select_convs(14))
  then show "PolicyID (tool_call_event fr e0 t q rule) = (case rule of None \<Rightarrow> '''' | Some r \<Rightarrow> r_ID r)"
    "RiskLevel (tool_call_event fr e0 t q rule) = (case rule of None \<Rightarrow> '''' | Some r \<Rightarrow> r_RiskLevel r)"
    by (simp_all add: tool_call_event_def Let_def split: option.split)
qed (simp_all add: tool_call_event_def Let_def split: option.split)

text \<open>One call that passes every check, from the network to the queue.\<close>

lemma request_step:
  assumes X: "crypto_ok X" and w0: "worker_ok X w0" "w_stopped w0 \<longrightarrow> w_closing w0"
    and run: "worker_run strict X w0 acc han (c_Worker c)" and bufs: "buffers_ok (c_pools c)"
    and tasks: "strings_only (c_LastEventByTask c)" and now: "valid_time (f_now fr)"
    and req: "req_Method req = ''POST''" "req_Body req = Stream cs None"
    and ext: "extractTaskMetadata strict X (concat cs) = Ok (q, t, m)"
    and pol: "evaluatePolicy strict X M (c_Observer c) m (rq_Params q) = Ok (action, rule)"
    and ids: "policyIDOrEmpty strict rule = Ok i" "riskLevelOrEmpty strict rule = Ok l"
    and red: "action = ActionRedact \<and> rule \<noteq> None \<longrightarrow> redactSensitiveData strict X (concat cs) (Redact (the rule)) = Ok s"
    and res: "InterceptRequest strict X M alone id bpick sz fr c req = (c', req', x)"
  shows "x = Ok () \<and> (action = ActionRedact \<and> rule \<noteq> None \<longrightarrow> req_Body req' = Bytes s)
    \<and> (\<exists>e0 e. clean_event e0
      \<and> e = (tool_call_event fr e0 t q rule)\<lparr>ParentID := if t = '''' then '''' else string_at (Some (c_LastEventByTask c)) t\<rparr>
      \<and> worker_run strict X w0 (if accepts (c_Worker c) then acc @ [e] else acc) han (c_Worker c')
      \<and> c_LastEventByTask c' = (if t = '''' then c_LastEventByTask c else gm_update t (GStr (ID e)) (c_LastEventByTask c)))"
proof -
  have inv: "worker_ok X (c_Worker c)" "w_stopped (c_Worker c) \<longrightarrow> w_closing (c_Worker c)"
    using run_invariant [OF X w0 run] by (simp_all add: run_inv_def)
  obtain p buf y where b: "read_body bpick sz (c_pools c) (req_Body req) = (p, buf, y)"
    by (cases "read_body bpick sz (c_pools c) (req_Body req)")
  have t: "buf_bytes p buf = concat cs" "y = Ok ()"
    using read_body_ok [OF bufs _ b, of cs None] req(2) by simp_all
  have clean: "clean_pools p" using read_body_clean [OF _ bufs b] inv(1) by (simp add: worker_ok_def)
  let ?c = "with_pools c p"
  obtain c1 y1 where s1: "submitToolCallEvent strict alone id fr ?c t q rule = (c1, y1)" by force
  have q: "map_decoded (rq_Params q)" and mt: "m \<noteq> ''''"
    using ext UnmarshalRequest_ok [OF float_conv_of_crypto [OF X], of "concat cs"]
    by (auto simp: extractTaskMetadata_def outcome_simps)
  have ok: "worker_ok X (c_Worker ?c)" "w_stopped (c_Worker ?c) \<longrightarrow> w_closing (c_Worker ?c)"
    "worker_run strict X w0 acc han (c_Worker ?c)" "accepts (c_Worker ?c) = accepts (c_Worker c)"
    using inv clean run_pools [OF run clean] by (auto simp: worker_ok_def accepts_def)
  note step = run_submitToolCall [OF ok(3,1,2) _ now q s1]
  let ?req = "req\<lparr>req_Body := View (gb_array buf) (gb_len buf)\<rparr>"
  let ?req' = "if action = ActionRedact \<and> rule \<noteq> None then ?req\<lparr>req_Body := Bytes s\<rparr> else ?req"
  have a: "applyRedactionAndSubmit strict X alone id fr ?c ?req action rule (concat cs) t m q = (c1, ?req', y1)"
    using red ids mt s1 by (auto simp: applyRedactionAndSubmit_def)
  have i: "intercept_body strict X M alone id fr ?c ?req (concat cs) = (c1, ?req', Ok ())"
    using a ext pol step tasks by (simp add: intercept_body_def)
  have r: "c' = put_back strict c1 buf" "req' = ?req'" "x = Ok ()"
    using res req b t i by (auto simp: InterceptRequest_def)
  have "c_Worker c' = (c_Worker c1)\<lparr>w_pools := fst (PutBuffer strict (c_pools c1) (Some buf))\<rparr>"
    "c_LastEventByTask c' = c_LastEventByTask c1"
    by (simp_all add: r put_back_def)
  moreover have "clean_pools (fst (PutBuffer strict (c_pools c1) (Some buf)))"
    using step tasks by (auto intro!: Buffer_clean(1))
  ultimately show ?thesis
    using step tasks r ok(4) by (auto intro!: run_pools)
qed

lemma demo_rule_ids: "policyIDOrEmpty True (Some demo_rule) = Ok ''pay''" "riskLevelOrEmpty True (Some demo_rule) = Ok ''high''"
  by (simp_all add: policyIDOrEmpty_def riskLevelOrEmpty_def demo_rule_def)

lemma demo_engine_run: "worker_run True demo_env demo_started [] [] (c_Worker demo_engine)"
  using run_pools [OF run_init empty_pools_clean, of True demo_env demo_started] by (simp add: demo_engine_def NewEngine_def)

lemma demo_engine_facts:
  "strings_only (c_LastEventByTask demo_engine)" "accepts (c_Worker demo_engine)" "c_LastEventByTask demo_engine = []"
  using demo_accepts by (simp_all add: strings_only_def demo_engine_def NewEngine_def accepts_def)

text \<open>
  C21. From the network to the queue: a call that passes the checks while there is room becomes the next
  accepted event of the worker's run, carrying its method, parameters and task, the policy that applied
  and, as parent, the last call of the same task.
\<close>

theorem tool_call_observed:
  assumes "crypto_ok X" and "worker_ok X w0" and "w_stopped w0 \<longrightarrow> w_closing w0"
    and "worker_run strict X w0 acc han (c_Worker c)" and "accepts (c_Worker c)" and "buffers_ok (c_pools c)"
    and "strings_only (c_LastEventByTask c)" and "valid_time (f_now fr)"
    and "req_Method req = ''POST''" and "req_Body req = Stream cs None"
    and "extractTaskMetadata strict X (concat cs) = Ok (q, t, m)"
    and "evaluatePolicy strict X M (c_Observer c) m (rq_Params q) = Ok (action, rule)"
    and "policyIDOrEmpty strict rule = Ok i" and "riskLevelOrEmpty strict rule = Ok l"
    and "action = ActionRedact \<and> rule \<noteq> None \<longrightarrow> redactSensitiveData strict X (concat cs) (Redact (the rule)) = Ok s"
    and "InterceptRequest strict X M alone id bpick sz fr c req = (c', req', x)"
  shows "x = Ok () \<and> (\<exists>e. worker_run strict X w0 (acc @ [e]) han (c_Worker c')
    \<and> EventType e = ''tool_call'' \<and> Method e = rq_Method q \<and> Params e = rq_Params q \<and> TaskID e = t
    \<and> ParentID e = (if t = '''' then '''' else string_at (Some (c_LastEventByTask c)) t)
    \<and> PolicyID e = (case rule of None \<Rightarrow> '''' | Some r \<Rightarrow> r_ID r)
    \<and> RiskLevel e = (case rule of None \<Rightarrow> '''' | Some r \<Rightarrow> r_RiskLevel r)
    \<and> (t \<noteq> '''' \<longrightarrow> string_at (Some (c_LastEventByTask c')) t = ID e))"
  using request_step [OF assms(1-4,6-16)] assms(5)
  by (auto simp: tool_call_fields string_at_def)

theorem tool_call_observed_witness:
  "case InterceptRequest True demo_env demo_fmt alone id None id demo_fresh demo_engine demo_post of
     (c', req', x) \<Rightarrow> x = Ok () \<and> (\<exists>e. worker_run True demo_env demo_started [e] [] (c_Worker c')
       \<and> EventType e = ''tool_call'' \<and> Method e = ''pay:card'' \<and> PolicyID e = ''pay'' \<and> TaskID e = ''t1'')"
proof -
  obtain c' req' x where r: "InterceptRequest True demo_env demo_fmt alone id None id demo_fresh demo_engine demo_post = (c', req', x)"
    by (cases "InterceptRequest True demo_env demo_fmt alone id None id demo_fresh demo_engine demo_post")
  obtain s where s: "redactSensitiveData True demo_env demo_body [''card''] = Ok s" using demo_redacts by blast
  have s': "ActionRedact = ActionRedact \<and> Some demo_rule \<noteq> None \<longrightarrow>
      redactSensitiveData True demo_env (concat [demo_body]) (Redact (the (Some demo_rule))) = Ok s"
    using s by (simp add: demo_rule_def)
  have stop: "w_stopped demo_started \<longrightarrow> w_closing demo_started" using demo_started_ok(4) by simp
  from tool_call_observed [OF demo_ok demo_started_ok(1) stop demo_engine_run demo_engine_facts(2) demo_buffers
      demo_engine_facts(1) demo_fresh_facts(1) demo_post_facts demo_extract demo_policy demo_rule_ids s' r]
  show ?thesis by (auto simp: r demo_rule_def demo_request_def)
qed

text \<open>
  C31. Redaction covers the forwarded body only: the event of a redacted call reaches the ledger's queue
  with the secret in clear.
\<close>

theorem redacted_secret_recorded:
  assumes "crypto_ok X" and "worker_ok X w0" and "w_stopped w0 \<longrightarrow> w_closing w0"
    and "worker_run strict X w0 acc han (c_Worker c)" and "accepts (c_Worker c)" and "buffers_ok (c_pools c)"
    and "strings_only (c_LastEventByTask c)" and "valid_time (f_now fr)"
    and "req_Method req = ''POST''" and "req_Body req = Stream cs None"
    and "extractTaskMetadata strict X (concat cs) = Ok (q, t, m)"
    and "evaluatePolicy strict X M (c_Observer c) m (rq_Params q) = Ok (ActionRedact, Some r)"
    and "policyIDOrEmpty strict (Some r) = Ok i" and "riskLevelOrEmpty strict (Some r) = Ok l"
    and "redactSensitiveData strict X (concat cs) (Redact r) = Ok s"
    and "InterceptRequest strict X M alone id bpick sz fr c req = (c', req', x)"
    and "k \<in> set (Redact r)" and "rq_Params q = Some kvs" and "gm_lookup kvs k = Some secret"
  shows "req_Body req' = Bytes s \<and> (\<exists>e. worker_run strict X w0 (acc @ [e]) han (c_Worker c')
    \<and> Params e = Some kvs \<and> gm_lookup kvs k = Some secret)"
  using request_step [OF assms(1-4,6-14) _ assms(16), of s] assms(5,15,18,19)
  by (auto simp: tool_call_fields)

theorem redacted_secret_recorded_witness:
  "case InterceptRequest True demo_env demo_fmt alone id None id demo_fresh demo_engine demo_post of
     (c', req', x) \<Rightarrow> (\<exists>s. redactSensitiveData True demo_env demo_body [''card''] = Ok s \<and> req_Body req' = Bytes s)
       \<and> (\<exists>e kvs. worker_run True demo_env demo_started [e] [] (c_Worker c') \<and> Params e = Some kvs
            \<and> gm_lookup kvs ''card'' = Some (GStr ''4111''))"
proof -
  obtain c' req' x where r: "InterceptRequest True demo_env demo_fmt alone id None id demo_fresh demo_engine demo_post = (c', req', x)"
    by (cases "InterceptRequest True demo_env demo_fmt alone id None id demo_fresh demo_engine demo_post")
  obtain s where s: "redactSensitiveData True demo_env demo_body [''card''] = Ok s" using demo_redacts by blast
  have s': "redactSensitiveData True demo_env (concat [demo_body]) (Redact demo_rule) = Ok s"
    using s by (simp add: demo_rule_def)
  have stop: "w_stopped demo_started \<longrightarrow> w_closing demo_started" using demo_started_ok(4) by simp
  have k: "''card'' \<in> set (Redact demo_rule)" "rq_Params demo_request = Some demo_params"
    "gm_lookup demo_params ''card'' = Some (GStr ''4111'')"
    by (simp_all add: demo_rule_def demo_request_def demo_params_def)
  from redacted_secret_recorded [OF demo_ok demo_started_ok(1) stop demo_engine_run demo_engine_facts(2) demo_buffers
      demo_engine_facts(1) demo_fresh_facts(1) demo_post_facts demo_extract demo_policy demo_rule_ids s' r k]
  show ?thesis using s by (auto simp: r)
qed

text \<open>
  C36. A dropped call still becomes the parent of the next one: when the queue takes no event, the run
  is unchanged, yet the task's next call will name the identifier of the event that was never recorded.
\<close>

theorem dropped_call_becomes_parent:
  assumes "crypto_ok X" and "worker_ok X w0" and "w_stopped w0 \<longrightarrow> w_closing w0"
    and "worker_run strict X w0 acc han (c_Worker c)" and "\<not> accepts (c_Worker c)" and "buffers_ok (c_pools c)"
    and "strings_only (c_LastEventByTask c)" and "valid_time (f_now fr)"
    and "req_Method req = ''POST''" and "req_Body req = Stream cs None"
    and "extractTaskMetadata strict X (concat cs) = Ok (q, t, m)" and "t \<noteq> ''''"
    and "evaluatePolicy strict X M (c_Observer c) m (rq_Params q) = Ok (action, rule)"
    and "policyIDOrEmpty strict rule = Ok i" and "riskLevelOrEmpty strict rule = Ok l"
    and "action = ActionRedact \<and> rule \<noteq> None \<longrightarrow> redactSensitiveData strict X (concat cs) (Redact (the rule)) = Ok s"
    and "InterceptRequest strict X M alone id bpick sz fr c req = (c', req', x)"
  shows "worker_run strict X w0 acc han (c_Worker c')
    \<and> string_at (Some (c_LastEventByTask c')) t = take 8 (f_uuid fr)"
  using request_step [OF assms(1-4,6-11,13-17)] assms(5,12)
  by (auto simp: tool_call_fields string_at_def)

definition closed_engine :: "db engine" where
  "closed_engine = NewEngine (demo_started\<lparr>w_pools := empty_pools, w_closing := True, w_stopped := True\<rparr>) (Some demo_observer)"

theorem dropped_call_becomes_parent_witness:
  "case InterceptRequest True demo_env demo_fmt alone id None id demo_fresh closed_engine demo_post of
     (c', req', x) \<Rightarrow> worker_run True demo_env demo_started [] [] (c_Worker c')
       \<and> string_at (Some (c_LastEventByTask c')) ''t1'' = take 8 (f_uuid demo_fresh)"
proof -
  obtain c' req' x where r: "InterceptRequest True demo_env demo_fmt alone id None id demo_fresh closed_engine demo_post = (c', req', x)"
    by (cases "InterceptRequest True demo_env demo_fmt alone id None id demo_fresh closed_engine demo_post")
  obtain s where s: "redactSensitiveData True demo_env demo_body [''card''] = Ok s" using demo_redacts by blast
  have s': "ActionRedact = ActionRedact \<and> Some demo_rule \<noteq> None \<longrightarrow>
      redactSensitiveData True demo_env (concat [demo_body]) (Redact (the (Some demo_rule))) = Ok s"
    using s by (simp add: demo_rule_def)
  have stop: "w_stopped demo_started \<longrightarrow> w_closing demo_started" using demo_started_ok(4) by simp
  have run: "worker_run True demo_env demo_started [] [] (c_Worker closed_engine)"
    using run_stop [OF demo_engine_run] by (simp add: demo_engine_def closed_engine_def NewEngine_def)
  have c: "\<not> accepts (c_Worker closed_engine)" "buffers_ok (c_pools closed_engine)"
    "strings_only (c_LastEventByTask closed_engine)" "c_Observer closed_engine = c_Observer demo_engine"
    using demo_buffers
    by (simp_all add: closed_engine_def demo_engine_def NewEngine_def accepts_def strings_only_def)
  from dropped_call_becomes_parent [OF demo_ok demo_started_ok(1) stop run c(1-3)
      demo_fresh_facts(1) demo_post_facts demo_extract _ demo_policy [folded c(4)] demo_rule_ids s' r]
  show ?thesis by (auto simp: r)
qed

section \<open>Sharing of pooled buffers\<close>

text \<open>
  C32. The body of a request aliases a buffer that has gone back to the pool: when the next request is
  read into the same buffer before the first one has been sent, the first body reads as the second.
\<close>

theorem pooled_body_overwritten:
  assumes "req_Method r1 = ''POST''" and "req_Body r1 = Stream [d1] None" and "length d1 \<le> 4096"
    and "req_Method r2 = ''POST''" and "req_Body r2 = Stream [d2] None" and "length d2 = length d1"
    and "InterceptRequest strict F M alone id None sz fr c r1 = (c1, r1', x1)" and "req_Body r1' = View a n"
    and "InterceptRequest strict' F' M' alone id (Some 0) sz' fr' c1 r2 = (c2, r2', x2)"
  shows "body_text (c_pools c1) (req_Body r1') = d1 \<and> body_text (c_pools c2) (req_Body r1') = d2"
proof -
  obtain p b where g: "GetBuffer None (c_pools c) = (p, b)" by force
  have b: "gb_len b = 0" "gb_cap b = 4096" "512 \<le> gb_cap b" "gb_cap b \<le> maxBufferSize" "int (length d1) \<le> gb_cap b"
    "int (length d2) \<le> gb_cap b"
    using g assms(3,6) by (auto simp: GetBuffer_def pick_ok_def new_gobuffer_def alloc_array_def maxBufferSize_def)
  from InterceptRequest_array [OF g b(1,3,4,5) assms(1,2,7)] assms(8)
  have 1: "arrays (c_pools c1) = (arrays p)(gb_array b := d1 @ drop (length d1) (arrays p (gb_array b)))"
    "bufferPool (c_pools c1) = b # bufferPool p" "a = gb_array b" "n = length d1"
    by auto
  obtain p' b' where g': "GetBuffer (Some 0) (c_pools c1) = (p', b')" by force
  have 2: "b' = b" "arrays p' = arrays (c_pools c1)"
    using g' 1(2) by (auto simp: GetBuffer_def pick_ok_def Let_def)
  from InterceptRequest_array [OF g' [unfolded 2(1)] b(1,3,4,6) assms(4,5,9)]
  have "arrays (c_pools c2) = (arrays p')(gb_array b := d2 @ drop (length d2) (arrays p' (gb_array b)))" by simp
  then show ?thesis using 1 assms(6,8) by simp
qed

definition text_post :: "string \<Rightarrow> http_request" where
  "text_post d = \<lparr>req_Method = ''POST'', req_Body = Stream [d] None, req_ContentLength = int (length d)\<rparr>"

theorem pooled_body_overwritten_witness:
  "case InterceptRequest True demo_env demo_fmt alone id None id demo_fresh demo_engine (text_post ''aa'') of
     (c1, r1, x1) \<Rightarrow> (case InterceptRequest True demo_env demo_fmt alone id (Some 0) id demo_fresh c1 (text_post ''bb'') of
       (c2, r2, x2) \<Rightarrow> body_text (c_pools c1) (req_Body r1) = ''aa'' \<and> body_text (c_pools c2) (req_Body r1) = ''bb'')"
proof -
  obtain c1 r1 x1 where 1: "InterceptRequest True demo_env demo_fmt alone id None id demo_fresh demo_engine (text_post ''aa'') = (c1, r1, x1)"
    by (cases "InterceptRequest True demo_env demo_fmt alone id None id demo_fresh demo_engine (text_post ''aa'')")
  obtain c2 r2 x2 where 2: "InterceptRequest True demo_env demo_fmt alone id (Some 0) id demo_fresh c1 (text_post ''bb'') = (c2, r2, x2)"
    by (cases "InterceptRequest True demo_env demo_fmt alone id (Some 0) id demo_fresh c1 (text_post ''bb'')")
  have u: "UnmarshalRequest demo_env ''aa'' = Err (ErrorString ''invalid JSON'')"
    by (simp add: UnmarshalRequest_def struct_members_def Unmarshal_def skip_ws_def is_ws_def cv_def scan_number_def
        scan_sign_def scan_int_def digits1_def is_digit_def)
  obtain p buf y where rb: "read_body None id (c_pools demo_engine) (req_Body (text_post ''aa'')) = (p, buf, y)"
    by (cases "read_body None id (c_pools demo_engine) (req_Body (text_post ''aa''))")
  have t: "buf_bytes p buf = ''aa''" "y = Ok ()"
    using read_body_ok [OF demo_buffers _ rb, of "[''aa'']" None] by (simp_all add: text_post_def)
  have v: "req_Body r1 = View (gb_array buf) (gb_len buf)"
    using 1 rb t u by (simp add: InterceptRequest_def intercept_body_def extractTaskMetadata_def text_post_def) auto
  show ?thesis
    using pooled_body_overwritten [OF _ _ _ _ _ _ 1 v 2, of "''aa''" "''bb''"] 1 2 by (simp add: text_post_def)
qed

section \<open>Responses\<close>

lemma response_event_wf:
  assumes "clean_event e" and "map_decoded m" and "valid_time (f_now fr)"
  shows "event_wf (response_event fr e m t s)"
proof -
  have "Params e \<in> {None, Some []}" using assms(1) by (simp add: clean_event_def)
  then show ?thesis
    using assms(3) map_decoded_ok [OF assms(2)]
    by (auto simp: event_wf_def event_ok_def response_event_def map_ok_def map_value_def max_nesting_def)
qed

text \<open>
  C25. A response that decodes, seen by a healthy worker with room in its queue, becomes the next
  accepted event with the result as its content and the result's task and state as its own; the task is
  noted as active in that state.
\<close>

theorem response_observed:
  assumes X: "crypto_ok X" and w0: "worker_ok X w0" and stop0: "w_stopped w0 \<longrightarrow> w_closing w0"
    and run: "worker_run strict X w0 acc han (c_Worker c)" and acc: "accepts (c_Worker c)" and h: "IsHealthy (c_Worker c)"
    and bufs: "buffers_ok (c_pools c)" and now: "valid_time (f_now fr)" and dec: "UnmarshalResponse X (concat cs) = Ok q"
    and res: "InterceptResponse strict X alone id bpick sz fr c (Stream cs None) = (c', body, x)"
  shows "x = Ok () \<and> (\<exists>e. worker_run strict X w0 (acc @ [e]) han (c_Worker c')
      \<and> EventType e = ''tool_response'' \<and> Response e = rs_Result q
      \<and> TaskID e = string_at (rs_Result q) ''task_id'' \<and> TaskState e = string_at (rs_Result q) ''state'')
    \<and> body_text (c_pools c') body = concat cs
    \<and> (has_string (rs_Result q) ''state'' \<and> string_at (rs_Result q) ''task_id'' \<noteq> '''' \<longrightarrow>
         gm_lookup (c_ActiveTasks c') (string_at (rs_Result q) ''task_id'') = Some (GStr (string_at (rs_Result q) ''state'')))"
proof -
  have inv: "worker_ok X (c_Worker c)" "w_stopped (c_Worker c) \<longrightarrow> w_closing (c_Worker c)"
    using run_invariant [OF X w0 stop0 run] by (simp_all add: run_inv_def)
  obtain p buf y where b: "read_body bpick sz (c_pools c) (Stream cs None) = (p, buf, y)"
    by (cases "read_body bpick sz (c_pools c) (Stream cs None)")
  have t: "buf_bytes p buf = concat cs" "y = Ok ()" using read_body_ok [OF bufs _ b, of cs None] by simp_all
  have clean: "clean_pools p" using read_body_clean [OF _ bufs b] inv(1) by (simp add: worker_ok_def)
  obtain ps e0 where g: "GetEvent (f_pick fr) p = (ps, e0)" by force
  have c0: "clean_event e0" "clean_pools ps" using GetEvent_clean [OF clean, of "f_pick fr"] g by simp_all
  have heap: "byte_heap ps = byte_heap p" using GetEvent_heap [of "f_pick fr" p] g by simp
  define e where "e = response_event fr e0 (rs_Result q) (string_at (rs_Result q) ''task_id'') (string_at (rs_Result q) ''state'')"
  let ?w = "(c_Worker c)\<lparr>w_pools := ps\<rparr>"
  have wf: "event_wf e"
    unfolding e_def by (rule response_event_wf [OF c0(1) UnmarshalResponse_ok [OF float_conv_of_crypto [OF X] dec] now])
  obtain w' r where s: "Submit strict alone id ?w (Some e) = (w', r)" by force
  have ok: "worker_ok X ?w" "w_stopped ?w \<longrightarrow> w_closing ?w" using inv c0(2) by (auto simp: worker_ok_def)
  note step = submit_step [OF ok wf s]
  have run': "worker_run strict X w0 (acc @ [e]) han w'"
    using run_submit [OF run_pools [OF run c0(2)] wf] s step acc by (simp add: accepts_def)
  have pools': "w_pools w' = ps" using Submit_pools [of strict ?w e] s by simp
  let ?c1 = "if has_string (rs_Result q) ''state'' \<and> string_at (rs_Result q) ''task_id'' \<noteq> ''''
    then c\<lparr>c_ActiveTasks := gm_update (string_at (rs_Result q) ''task_id'') (GStr (string_at (rs_Result q) ''state'')) (c_ActiveTasks c)\<rparr>
    else c"
  have o: "observe_response strict X alone id fr (with_pools c p) (concat cs) = (?c1\<lparr>c_Worker := w'\<rparr>, r)"
    using dec h g s by (simp add: observe_response_def IsHealthy_def Let_def e_def with_pools_def)
  have "c' = put_back strict (?c1\<lparr>c_Worker := w'\<rparr>) buf" "body = View (gb_array buf) (gb_len buf)" "x = Ok ()"
    using res b t o step by (auto simp: InterceptResponse_def)
  moreover have "clean_pools (fst (PutBuffer strict ps (Some buf)))" by (rule Buffer_clean(1) [OF c0(2)])
  moreover have "arrays (fst (PutBuffer strict ps (Some buf))) = arrays p"
    using heap by (auto simp: PutBuffer_def byte_heap_def split: outcome.splits)
  ultimately show ?thesis
    using run_pools [OF run', of "fst (PutBuffer strict ps (Some buf))"] t(1)
    by (auto simp: put_back_def pools' buf_bytes_def e_def response_event_def intro!: exI [of _ e])
qed

definition demo_result :: "goval gomap" where
  "demo_result = [(''state'', GStr ''completed''), (''task_id'', GStr ''t1'')]"

definition demo_response_body :: string where
  "demo_response_body = enc demo_env (GMap [(''result'', GMap demo_result)])"

lemma demo_response_decodes:
  "UnmarshalResponse demo_env demo_response_body = Ok (zero_response\<lparr>rs_Result := Some demo_result\<rparr>)"
proof -
  have v: "to_valid ''result'' = ''result''" "normal (GMap demo_result)"
    by (simp_all add: demo_result_def to_valid.simps utf8_len_ascii cv_def gm_wf_def less_char_def)
  have "struct_members demo_env demo_response_body = Ok [(''result'', Some (GMap demo_result))]"
    unfolding demo_response_body_def
    using struct_members_enc [OF float_conv_of_crypto [OF demo_ok], of "[(''result'', GMap demo_result)]"]
      v norm_normal [OF v(2), of demo_env] marshalable_normal [OF v(2)]
    by (simp add: demo_result_def max_nesting_def del: enc.simps norm.simps(6))
  moreover have "gm_of_list demo_result [] = demo_result"
    by (simp add: demo_result_def less_char_def)
  ultimately show ?thesis
    by (simp add: UnmarshalResponse_def fold_name.simps lower_char_def cv_def set_map_def decode_struct_def zero_response_def)
qed

theorem response_observed_witness:
  "case InterceptResponse True demo_env alone id None id demo_fresh demo_engine (Stream [demo_response_body] None) of
     (c', body, x) \<Rightarrow> x = Ok () \<and> (\<exists>e. worker_run True demo_env demo_started [e] [] (c_Worker c')
       \<and> EventType e = ''tool_response'' \<and> TaskID e = ''t1'' \<and> TaskState e = ''completed'')
     \<and> gm_lookup (c_ActiveTasks c') ''t1'' = Some (GStr ''completed'')"
proof -
  obtain c' body x where r: "InterceptResponse True demo_env alone id None id demo_fresh demo_engine (Stream [demo_response_body] None) = (c', body, x)"
    by (cases "InterceptResponse True demo_env alone id None id demo_fresh demo_engine (Stream [demo_response_body] None)")
  have stop: "w_stopped demo_started \<longrightarrow> w_closing demo_started" using demo_started_ok(4) by simp
  have h: "IsHealthy (c_Worker demo_engine)"
    using demo_started_ok(7) by (simp add: IsHealthy_def demo_engine_def NewEngine_def)
  have d: "UnmarshalResponse demo_env (concat [demo_response_body]) = Ok (zero_response\<lparr>rs_Result := Some demo_result\<rparr>)"
    using demo_response_decodes by simp
  from response_observed [OF demo_ok demo_started_ok(1) stop demo_engine_run demo_engine_facts(2) h demo_buffers
      demo_fresh_facts(1) d r]
  show ?thesis by (auto simp: r string_at_def has_string_def demo_result_def)
qed

section \<open>The policy file\<close>

text \<open>
  C26. Whatever the watcher sees, the policy in force is the one it started with or one that some
  version of the file on disk decoded to; a file that cannot be read or decoded never takes effect.
\<close>

theorem watch_config_from_disk:
  "case Watch strict yaml stat ticks e of (e', r) \<Rightarrow> o_configPath e' = o_configPath e
     \<and> (o_config e' = o_config e \<or> (\<exists>(fs, st) \<in> set ticks. loadConfig yaml fs (o_configPath e) = Ok (o_config e')))"
proof -
  let ?m = "case stat of None \<Rightarrow> 0 | Some m \<Rightarrow> m"
  obtain e' m' where f: "fold (watch_tick yaml) (take maxWatchTicks ticks) (e, ?m) = (e', m')" by force
  then show ?thesis
    using watch_fold [OF f] set_take_subset [of maxWatchTicks ticks] by (auto simp: Watch_def)
qed

text \<open>
  C27. A new version is picked up: when the last tick shows a modification time later than every one
  before it and the file decodes, the policy in force is the one in the file.
\<close>

theorem watch_loads_newer:
  assumes "length ticks < 2 ^ 30" and "m0 < m" and "\<forall>(fs, st) \<in> set ticks. \<forall>t. st = Some t \<longrightarrow> t < m"
    and "loadConfig yaml fs (o_configPath e) = Ok cfg"
  shows "o_config (fst (Watch strict yaml (Some m0) (ticks @ [(fs, Some m)]) e)) = cfg"
proof -
  obtain e' m' where f: "fold (watch_tick yaml) ticks (e, m0) = (e', m')" by force
  have "m' < m" "o_configPath e' = o_configPath e"
    using watch_fold_bound [OF f assms(2,3)] watch_fold [OF f] by simp_all
  then have "fst (watch_tick yaml (fs, Some m) (e', m')) = e'\<lparr>o_config := cfg\<rparr>"
    using assms(4) by (simp add: watch_tick_def Reload_def)
  moreover have "take maxWatchTicks (ticks @ [(fs, Some m)]) = ticks @ [(fs, Some m)]"
    using assms(1) by (simp add: maxWatchTicks_def)
  ultimately show ?thesis using f by (simp add: Watch_def case_prod_beta Let_def)
qed

definition demo_fs :: "string \<Rightarrow> filesys" where
  "demo_fs d = \<lparr>fs_files = [''policy.yaml'' \<mapsto> d], fs_read_err = (\<lambda>_. None), fs_write_err = (\<lambda>_. None)\<rparr>"

definition demo_yaml :: yaml_decoder where
  "demo_yaml d = (if d = ''bad'' then Err (ErrorString ''yaml'') else Ok ((o_config demo_observer)\<lparr>Version := d\<rparr>))"

lemma demo_load:
  "d \<noteq> ''bad'' \<Longrightarrow> loadConfig demo_yaml (demo_fs d) (o_configPath demo_observer) = Ok ((o_config demo_observer)\<lparr>Version := d\<rparr>)"
  by (simp add: loadConfig_def ReadFile_def demo_fs_def demo_yaml_def) (simp add: demo_observer_def)

theorem watch_loads_newer_witness:
  "Version (o_config (fst (Watch True demo_yaml (Some 5) ([(demo_fs ''bad'', Some 6)] @ [(demo_fs ''2'', Some 7)]) demo_observer))) = ''2''"
  using watch_loads_newer [of "[(demo_fs ''bad'', Some 6)]" 5 7 demo_yaml "demo_fs ''2''" demo_observer _ True, OF _ _ _ demo_load]
  by simp

text \<open>
  C38. Only a later modification time counts: putting an older version of the file back, with its older
  time, leaves the newer policy in force.
\<close>

theorem watch_ignores_older:
  assumes "length ticks < 2 ^ 30" and "\<forall>(fs, st) \<in> set ticks. \<forall>t. st = Some t \<longrightarrow> t \<le> m0"
  shows "Watch strict yaml (Some m0) ticks e = (e, Ok ())"
  using assms watch_fold_idle [OF assms(2), of yaml e] by (simp add: Watch_def maxWatchTicks_def)

theorem watch_ignores_older_witness:
  "Watch True demo_yaml (Some 5) [(demo_fs ''2'', Some 4)] demo_observer = (demo_observer, Ok ())
   \<and> loadConfig demo_yaml (demo_fs ''2'') (o_configPath demo_observer) \<noteq> Ok (o_config demo_observer)"
  using watch_ignores_older [of "[(demo_fs ''2'', Some 4)]" 5 True demo_yaml demo_observer] demo_load [of "''2''"]
  by (simp add: demo_observer_def)

end
