(* ===== verification/Audit_Properties.thy ===== *)
theory Audit_Properties
  imports Ledger_Run
begin

text \<open>
  What the audit proves about a stored ledger and what it leaves open: tamper evidence as a reduction
  to an explicit SHA-256 collision, the exact condition of acceptance, and the two blind spots (a
  missing prefix, rows past the read limit).
\<close>

lemma VerifyChain_valid_iff:
  assumes v: "VerifyChain strict X get r s = Ok v" and es: "get r = Ok es"
  shows "Valid v \<longleftrightarrow> es \<noteq> [] \<and> audited X s None es"
proof (cases "es = []")
  case True
  then show ?thesis using v es by (auto simp: VerifyChain_def Let_def outcome_simps)
next
  case False
  let ?r = "\<lparr>Valid = True, TotalEvents = int (length es), ErrorMessage = '''', FailedAtSeq = 0\<rparr>"
  have "length es \<le> maxVerifyEvents"
    and "verify_loop strict X s ?r 0 None (take maxVerifyEvents es) = Ok v"
    using v es False by (auto simp: VerifyChain_def Let_def outcome_simps)
  then show ?thesis
    using verify_loop_valid [of strict X s ?r 0 None es v] False by simp
qed

lemma audited_nth:
  "audited X s prev es \<longleftrightarrow> (\<forall>i < length es. VerifyEvent False X s (es ! i) = Ok ()
     \<and> (i = 0 \<longrightarrow> (\<forall>p. prev = Some p \<longrightarrow> PrevHash (es ! 0) = CurrentHash p))
     \<and> (0 < i \<longrightarrow> PrevHash (es ! i) = CurrentHash (es ! (i - 1))))"
proof (induction es arbitrary: prev)
  case (Cons e es)
  have "(\<forall>i < length es. VerifyEvent False X s (es ! i) = Ok ()
      \<and> (i = 0 \<longrightarrow> (\<forall>p. Some e = Some p \<longrightarrow> PrevHash (es ! 0) = CurrentHash p))
      \<and> (0 < i \<longrightarrow> PrevHash (es ! i) = CurrentHash (es ! (i - 1))))
    \<longleftrightarrow> (\<forall>i < length es. VerifyEvent False X s (es ! i) = Ok () \<and> PrevHash (es ! i) = CurrentHash ((e # es) ! i))"
    by (intro all_cong) (auto simp: nth_Cons')
  then show ?case
    unfolding audited.simps Cons.IH list.size(4) add_Suc_right add_0_right All_less_Suc2
    by (auto split: option.splits)
qed simp

text \<open>
  C10. The audit accepts a run exactly when it has events, each one's stored hash is the hash of its
  content after its previous hash with a signature that verifies under the key, and each one's previous
  hash is the hash of the event before it.
\<close>

theorem VerifyChain_sound_complete:
  assumes "VerifyChain strict X get r s = Ok v" and "get r = Ok es"
  shows "Valid v \<longleftrightarrow> es \<noteq> []
    \<and> (\<forall>i < length es. Signature (es ! i) \<noteq> ''''
         \<and> CalculateEventHash False X (PrevHash (es ! i)) (event_payload (es ! i)) = Ok (CurrentHash (es ! i))
         \<and> VerifySignature X s (CurrentHash (es ! i)) (Signature (es ! i)) = Ok True
         \<and> (0 < i \<longrightarrow> PrevHash (es ! i) = CurrentHash (es ! (i - 1))))"
  unfolding VerifyChain_valid_iff [OF assms] audited_nth VerifyEvent_Ok_iff by auto

theorem VerifyChain_sound_complete_witness:
  "\<exists>v es. VerifyChain True demo_env (GetAllEvents True demo_env (w_db demo_queued)) ''run-1'' (w_signer demo_queued) = Ok v
    \<and> GetAllEvents True demo_env (w_db demo_queued) ''run-1'' = Ok es \<and> es \<noteq> []
    \<and> (\<forall>i < length es. VerifySignature demo_env (w_signer demo_queued) (CurrentHash (es ! i)) (Signature (es ! i)) = Ok True)"
proof -
  let ?get = "GetAllEvents True demo_env (w_db demo_queued)"
  obtain es where es: "?get ''run-1'' = Ok es"
    using demo_started_ok(6) demo_queued_ok(2) by (simp add: GetAllEvents_def)
  obtain v where v: "VerifyChain True demo_env ?get ''run-1'' (w_signer demo_queued) = Ok v" "Valid v"
    using demo_audit by auto
  show ?thesis
    using VerifyChain_sound_complete [OF v(1) es] v es by blast
qed

lemma to_valid_ascii: "list_all (\<lambda>c. cv c < 128) s \<Longrightarrow> to_valid s = s"
  by (induction s) (simp_all add: to_valid.simps utf8_len_ascii)

lemma norm_members_map:
  "gm_wf (m @ kvs) \<Longrightarrow> \<forall>(k, v) \<in> set kvs. to_valid k = k \<Longrightarrow>
     norm_members F kvs m = m @ map (\<lambda>(k, v). (k, norm F v)) kvs"
proof (induction kvs arbitrary: m)
  case (Cons kv kvs)
  obtain k v where kv: "kv = (k, v)" by force
  have "gm_wf (m @ [(k, norm F v)])" "gm_wf ((m @ [(k, norm F v)]) @ kvs)"
    using Cons.prems(1) by (simp_all add: kv gm_wf_def sorted_wrt_append)
  then show ?case
    using Cons.IH [of "m @ [(k, norm F v)]"] Cons.prems(2) by (simp add: kv gm_update_end)
qed simp

lemma norm_payload:
  "norm F (event_payload e) = GMap (map (\<lambda>(k, v). (k, norm F v))
     [(''actor'', GStr (Actor e)), (''event_type'', GStr (EventType e)), (''id'', GStr (ID e)),
      (''method'', GStr (Method e)), (''params'', map_value (Params e)), (''parent_id'', GStr (ParentID e)),
      (''policy_id'', GStr (PolicyID e)), (''response'', map_value (Response e)),
      (''risk_level'', GStr (RiskLevel e)), (''run_id'', GStr (RunID e)), (''seq_index'', GUint (SeqIndex e)),
      (''task_id'', GStr (TaskID e)), (''task_state'', GStr (TaskState e)),
      (''timestamp'', GStr (format_time (Timestamp e)))])"
  unfolding event_payload_members norm.simps
  by (subst norm_members_map) (simp_all add: gm_wf_def less_char_def to_valid_ascii cv_def)

text \<open>Two events that differ in the sign of a zero only, signed.\<close>

definition zero_param :: "u64 \<Rightarrow> event" where
  "zero_param x = demo_event\<lparr>Params := Some [(''x'', GFloat x)], RunID := ''run-1'', PrevHash := zero_hash\<rparr>"

definition signed_zero :: "u64 \<Rightarrow> event" where
  "signed_zero x = fst (hashAndSignEvent True demo_env demo_signer (zero_param x))"

lemma zero_param_ok: "f64_finite x \<Longrightarrow> event_ok (zero_param x)"
  using demo_event_ok
  by (simp add: zero_param_def event_ok_def map_ok_def map_value_def max_nesting_def)

lemma signed_zero_facts:
  assumes "x \<in> {0, 0x8000000000000000}"
  shows "VerifyEvent False demo_env demo_signer (signed_zero x) = Ok ()"
    and "CurrentHash (signed_zero x) = hex_encode (sha256 (bytes_of (zero_hash
           @ enc demo_env (pos_zero (norm demo_env (event_payload (zero_param x)))))))"
    and "PrevHash (signed_zero x) = zero_hash" and "event_payload (signed_zero x) = event_payload (zero_param x)"
    and "event_ok (signed_zero x)"
proof -
  have ok: "event_ok (zero_param x)" using assms by (intro zero_param_ok) (auto simp: f64_finite_def)
  have prev: "PrevHash (zero_param x) = zero_hash" "length zero_hash = 64" by (simp_all add: zero_param_def zero_hash_def)
  obtain e where e: "hashAndSignEvent True demo_env demo_signer (zero_param x) = (e, Ok ())"
    using hashAndSign_total [OF demo_ok demo_signer_ok ok, of True] prev by auto
  have s: "signed_zero x = e" by (simp add: signed_zero_def e)
  note h = hashAndSign_Ok [OF demo_ok demo_signer_ok e]
  obtain c sg where eq: "e = (zero_param x)\<lparr>CurrentHash := c, Signature := sg\<rparr>" using h by blast
  have p: "event_payload e = event_payload (zero_param x)" "PrevHash e = zero_hash" "event_ok e"
    using ok prev(1) by (simp_all add: eq event_payload_def event_ok_def)
  then show "PrevHash (signed_zero x) = zero_hash" "event_payload (signed_zero x) = event_payload (zero_param x)"
    "event_ok (signed_zero x)" "VerifyEvent False demo_env demo_signer (signed_zero x) = Ok ()"
    using h prev(1) by (simp_all add: s VerifyEvent_Ok_iff)
  show "CurrentHash (signed_zero x) = hex_encode (sha256 (bytes_of (zero_hash
      @ enc demo_env (pos_zero (norm demo_env (event_payload (zero_param x)))))))"
    using h CalculateEventHash_Ok [OF demo_ok payload_marshalable [OF ok] payload_depth [OF ok] payload_not_nil valid_prev_64 [OF prev(2)]]
    by (simp add: s prev(1) canonical_def demo_jcs)
qed

text \<open>
  C2. Tamper evidence: let two runs be accepted by the audit, under whatever keys, and end in the same
  hash, the second no longer than the first, the previous hash of the first event of each 64 characters
  long. Then the second holds exactly the links and the hashed documents of the end of the first, of the
  same length, or two of the hashed texts are an explicit collision of SHA-256. The hashed document is the
  event's document up to the sign of zero, which canonical JSON does not keep.
\<close>

theorem tamper_evidence:
  assumes X: "crypto_ok X"
    and a: "VerifyChain strict X get r s = Ok v" "Valid v" "get r = Ok es"
    and b: "VerifyChain strict' X get' r' s' = Ok v'" "Valid v'" "get' r' = Ok fs"
    and len: "length fs \<le> length es" and last: "CurrentHash (last es) = CurrentHash (last fs)"
    and prev: "length (PrevHash (hd es)) = 64" "length (PrevHash (hd fs)) = 64"
  shows "let tl = drop (length es - length fs) es in
    map PrevHash tl = map PrevHash fs \<and> map (hashed_document X) tl = map (hashed_document X) fs
    \<or> (\<exists>i < length fs. sha_collide (bytes_of (hash_text X (tl ! i))) (bytes_of (hash_text X (fs ! i))))"
proof -
  let ?k = "length es - length fs"
  let ?tl = "drop ?k es"
  have es: "es \<noteq> []" "audited X s None es" and fs: "fs \<noteq> []" "audited X s' None fs"
    using VerifyChain_valid_iff [OF a(1,3)] VerifyChain_valid_iff [OF b(1,3)] a(2) b(2) by auto
  have pos: "0 < length fs" using fs(1) by simp
  have k: "?k < length es" using pos len by linarith
  then have "?tl \<noteq> []" by simp
  moreover have "length (PrevHash (hd ?tl)) = 64"
  proof (cases "?k = 0")
    case False
    let ?p = "es ! (?k - 1)"
    have "take ?k es @ ?tl = es" by simp
    then have "audited X s (Some (last (take ?k es))) ?tl"
      using es(2) audited_append [of X s None "take ?k es" ?tl] False k by (auto split: if_splits)
    then have "PrevHash (hd ?tl) = CurrentHash (last (take ?k es))"
      using \<open>?tl \<noteq> []\<close> by (cases ?tl) auto
    moreover have ne: "take ?k es \<noteq> []" using False es(1) by simp
    have "last (take ?k es) \<in> set es" by (rule in_set_takeD [OF last_in_set [OF ne]])
    then have "VerifyEvent False X s (last (take ?k es)) = Ok ()"
      by (rule audited_verified [OF es(2)])
    ultimately show ?thesis
      using CalculateEventHash_Ok_D [of False X] by (auto simp: VerifyEvent_Ok_iff)
  qed (use prev in simp)
  ultimately show ?thesis
    using chain_binding [OF X _ audited_drop [OF es(2)] fs(2), of ?k] last prev(2) len
    by (simp add: Let_def)
qed

theorem tamper_evidence_witness:
  "\<exists>e f. VerifyChain True demo_env (\<lambda>_. Ok [e]) ''run-1'' demo_signer = Ok \<lparr>Valid = True, TotalEvents = 1, ErrorMessage = '''', FailedAtSeq = 0\<rparr>
    \<and> VerifyChain True demo_env (\<lambda>_. Ok [f]) ''run-1'' demo_signer = Ok \<lparr>Valid = True, TotalEvents = 1, ErrorMessage = '''', FailedAtSeq = 0\<rparr>
    \<and> document demo_env e \<noteq> document demo_env f
    \<and> hashed_document demo_env e = hashed_document demo_env f"
proof -
  let ?e = "signed_zero 0x8000000000000000" and ?f = "signed_zero 0"
  note e = signed_zero_facts [of "0x8000000000000000"] and f = signed_zero_facts [of 0]
  have a: "VerifyChain True demo_env (\<lambda>_. Ok [g]) ''run-1'' demo_signer = Ok \<lparr>Valid = True, TotalEvents = 1, ErrorMessage = '''', FailedAtSeq = 0\<rparr>"
    if "VerifyEvent False demo_env demo_signer g = Ok ()" for g
    using that verify_loop_audited [of demo_env demo_signer None "[g]"]
    by (simp add: VerifyChain_def maxVerifyEvents_def del: verify_loop.simps)
  have same: "CurrentHash ?e = CurrentHash ?f"
    using e(2) f(2) by (simp add: norm_payload) (simp add: zero_param_def map_value_def)
  have "document demo_env ?e \<noteq> document demo_env ?f"
    using e(4,5) f(4,5) by (simp add: document_ok [OF demo_ok] norm_payload) (simp add: zero_param_def map_value_def)
  moreover have "hash_text demo_env ?e = hash_text demo_env ?f"
    using e(3-5) f(3-5) by (simp add: hash_text_def document_ok [OF demo_ok] demo_jcs norm_payload)
      (simp add: zero_param_def map_value_def)
  then have "\<not> sha_collide (bytes_of (hash_text demo_env ?e)) (bytes_of (hash_text demo_env ?f))"
    by (simp add: sha_collide_def)
  ultimately show ?thesis
    using tamper_evidence [OF demo_ok a [OF e(1)] _ _ a [OF f(1)], of "[?e]" "[?f]"] a [OF e(1)] a [OF f(1)] same e(3) f(3)
    by (intro exI [of _ ?e] exI [of _ ?f]) (simp add: Let_def zero_hash_def)
qed

text \<open>
  C18. What equal documents mean: two events the ledger can carry that have the same hashed document
  agree, up to the repair of invalid UTF-8, in every text field, in the printed time and in the decoded
  parameters and response.
\<close>

theorem document_determines:
  assumes X: "crypto_ok X" and e: "event_ok e" and f: "event_ok f" and eq: "document X e = document X f"
  shows "to_valid (ID e) = to_valid (ID f) \<and> to_valid (RunID e) = to_valid (RunID f)
    \<and> to_valid (Actor e) = to_valid (Actor f) \<and> to_valid (EventType e) = to_valid (EventType f)
    \<and> to_valid (Method e) = to_valid (Method f) \<and> to_valid (TaskID e) = to_valid (TaskID f)
    \<and> to_valid (TaskState e) = to_valid (TaskState f) \<and> to_valid (ParentID e) = to_valid (ParentID f)
    \<and> to_valid (PolicyID e) = to_valid (PolicyID f) \<and> to_valid (RiskLevel e) = to_valid (RiskLevel f)
    \<and> to_valid (format_time (Timestamp e)) = to_valid (format_time (Timestamp f))
    \<and> norm X (map_value (Params e)) = norm X (map_value (Params f))
    \<and> norm X (map_value (Response e)) = norm X (map_value (Response f))
    \<and> norm X (GUint (SeqIndex e)) = norm X (GUint (SeqIndex f))"
proof -
  have "norm X (event_payload e) = norm X (event_payload f)"
    using eq document_ok [OF X e] document_ok [OF X f] by simp
  then show ?thesis
    unfolding norm_payload by simp
qed

theorem document_determines_witness:
  "document demo_env demo_event = document demo_env (demo_event\<lparr>Signature := ''00'', WasBlocked := True\<rparr>)
   \<and> to_valid (Method demo_event) = to_valid (Method (demo_event\<lparr>Signature := ''00'', WasBlocked := True\<rparr>))"
proof -
  let ?f = "demo_event\<lparr>Signature := ''00'', WasBlocked := True\<rparr>"
  have eq: "document demo_env demo_event = document demo_env ?f"
    by (simp add: document_def event_payload_def)
  have "event_ok ?f" using demo_event_ok by (simp add: event_ok_def)
  then show ?thesis
    using document_determines [OF demo_ok demo_event_ok _ eq] eq by blast
qed

section \<open>Blind spots\<close>

text \<open>
  C19. The audit does not anchor the first event: removing any number of events from the front of an
  accepted run, the genesis block included, leaves a run the audit accepts.
\<close>

theorem prefix_deletion_undetected:
  assumes "VerifyChain strict X get r s = Ok v" and "Valid v" and "get r = Ok es"
    and "k < length es" and "get' r = Ok (drop k es)"
  shows "VerifyChain strict X get' r s =
    Ok \<lparr>Valid = True, TotalEvents = int (length es - k), ErrorMessage = '''', FailedAtSeq = 0\<rparr>"
proof -
  have "es \<noteq> []" and a: "audited X s None es"
    using VerifyChain_valid_iff [OF assms(1,3)] assms(2) by auto
  then have r: "r \<noteq> ''''" and l: "length es \<le> maxVerifyEvents"
    using assms(1,3) by (auto simp: VerifyChain_def Let_def outcome_simps)
  have "length es - k \<le> maxVerifyEvents" using l by linarith
  then show ?thesis
    using r assms(4,5) verify_loop_audited [OF audited_drop [OF a, of k]]
    by (simp add: VerifyChain_def)
qed

lemma demo_first_audit:
  "\<exists>g e. GetAllEvents True demo_env (w_db demo_first) ''run-1'' = Ok [g, e] \<and>
     VerifyChain True demo_env (GetAllEvents True demo_env (w_db demo_first)) ''run-1'' (w_signer demo_first) =
       Ok \<lparr>Valid = True, TotalEvents = 2, ErrorMessage = '''', FailedAtSeq = 0\<rparr>"
proof -
  obtain p where p: "p_signer p = w_signer demo_first" "p_runID p = ''run-1''" "ledger_ok demo_env p (w_db demo_first)"
    using demo_first_ok(1,5) by (auto simp: worker_ok_def)
  obtain g e where log: "run_log demo_env (w_db demo_first) ''run-1'' = [g, e]" using demo_first_ok(7) by blast
  obtain es where es: "GetAllEvents True demo_env (w_db demo_first) ''run-1'' = Ok es"
    using demo_first_step(3) by (simp add: GetAllEvents_def)
  have "store_inv (w_db demo_first)" using p(3) by (simp add: ledger_ok_def)
  then have "es = [g, e]"
    using sq.all_ok [of "w_db demo_first" True demo_env 0 "''run-1''" es] es log
    by (simp add: sqlite_repo_def maxEventRows_def)
  then show ?thesis
    using ledger_audit [OF p(3) demo_first_step(3), of True] p log es by auto
qed

theorem prefix_deletion_undetected_witness:
  "\<exists>g e. GetAllEvents True demo_env (w_db demo_first) ''run-1'' = Ok [g, e]
    \<and> VerifyChain True demo_env (\<lambda>_. Ok [e]) ''run-1'' (w_signer demo_first) =
        Ok \<lparr>Valid = True, TotalEvents = 1, ErrorMessage = '''', FailedAtSeq = 0\<rparr>"
proof -
  obtain g e where a: "GetAllEvents True demo_env (w_db demo_first) ''run-1'' = Ok [g, e]"
    "VerifyChain True demo_env (GetAllEvents True demo_env (w_db demo_first)) ''run-1'' (w_signer demo_first) =
       Ok \<lparr>Valid = True, TotalEvents = 2, ErrorMessage = '''', FailedAtSeq = 0\<rparr>"
    using demo_first_audit by blast
  then show ?thesis
    using prefix_deletion_undetected [OF a(2) _ a(1), of 1 "\<lambda>_. Ok [e]"] by simp
qed

lemma sort_key_snoc_max: "\<forall>y \<in> set xs. f y < f x \<Longrightarrow> sort_key f (xs @ [x]) = sort_key f xs @ [x]"
proof (induction xs)
  case (Cons y xs)
  have "\<forall>z \<in> set ys. f z < f x \<Longrightarrow> f y < f x \<Longrightarrow> insort_key f y (ys @ [x]) = insort_key f y ys @ [x]" for ys
    by (induction ys) auto
  then show ?case using Cons by simp
qed simp

text \<open>
  C20. One read returns at most 100000 rows, so a row numbered past that many is never audited: the
  verdict on a full run does not depend on what such a row holds.
\<close>

theorem rows_past_limit_unaudited:
  assumes "100000 \<le> length (run_rows d r)" and "e_run_id row = r"
    and "\<forall>x \<in> set (run_rows d r). e_seq_index x < e_seq_index row"
  shows "VerifyChain strict X (GetAllEvents strict X (d\<lparr>db_events := db_events d @ [row]\<rparr>)) r s
    = VerifyChain strict X (GetAllEvents strict X d) r s"
proof -
  let ?d = "d\<lparr>db_events := db_events d @ [row]\<rparr>"
  have "run_rows ?d r = run_rows d r @ [row]"
    using assms(2) by (simp add: run_rows_append)
  then have "take maxEventRows (order_asc e_seq_index (run_rows ?d r)) = take maxEventRows (order_asc e_seq_index (run_rows d r))"
    using assms(1,3) sort_key_snoc_max [of "run_rows d r" e_seq_index row]
    by (simp add: order_asc_def maxEventRows_def)
  then have "GetAllEvents strict X ?d r = GetAllEvents strict X d r"
    by (simp add: GetAllEvents_def query_ready_def finish_rows_def)
  then show ?thesis by (simp add: VerifyChain_def)
qed

definition demo_row :: "u64 \<Rightarrow> event_row" where
  "demo_row i = row_of (demo_event\<lparr>RunID := ''run-1'', SeqIndex := i\<rparr>) ''null'' ''null''"

theorem rows_past_limit_unaudited_witness:
  "VerifyChain True demo_env (GetAllEvents True demo_env
       (empty_db\<lparr>db_events := replicate 100000 (demo_row 0) @ [demo_row 1]\<rparr>)) ''run-1'' demo_signer
    = VerifyChain True demo_env (GetAllEvents True demo_env
       (empty_db\<lparr>db_events := replicate 100000 (demo_row 0)\<rparr>)) ''run-1'' demo_signer"
proof -
  let ?d = "empty_db\<lparr>db_events := replicate 100000 (demo_row 0)\<rparr>"
  have "filter P (replicate n x) = replicate n x" if "P x" for P n and x :: event_row
    using that by (induction n) simp_all
  then have rows: "run_rows ?d ''run-1'' = replicate 100000 (demo_row 0)"
    by (simp add: run_rows_def demo_row_def row_of_def)
  have "100000 \<le> length (run_rows ?d ''run-1'')" "e_run_id (demo_row 1) = ''run-1''"
    "\<forall>x \<in> set (run_rows ?d ''run-1''). e_seq_index x < e_seq_index (demo_row 1)"
    unfolding rows by (simp_all only: length_replicate set_replicate_conv_if)
      (simp_all add: demo_row_def row_of_def)
  from rows_past_limit_unaudited [OF this, of True demo_env demo_signer] show ?thesis by simp
qed

end
