(* ===== verification/Service_Properties.thy ===== *)
theory Service_Properties
  imports Admin_Api Logging Proxy_Properties Audit_Properties
begin

text \<open>
  Properties of the service around the ledger: structured logs, the readiness probe and key rotation.
\<close>

section \<open>Logs\<close>

text \<open>
  C40. One line per call: whatever a caller puts into a message or its fields, a log call keeps what was
  written and adds at most one line, which has no byte below 0x20 (so no line feed and no carriage return):
  no field can start a line of its own.
\<close>

theorem log_single_line:
  "\<exists>ls. lg_out (fst (log_at level strict F env now lg msg f)) = lg_out lg @ ls \<and> length ls \<le> 1
    \<and> list_all (list_all (\<lambda>c. 32 \<le> (of_char c :: nat))) ls"
proof -
  have out: "lg_out (fst (shouldLog strict env lg level)) = lg_out lg"
    by (auto simp: shouldLog_def init_level_def Let_def split: outcome.splits)
  have "list_all (\<lambda>c. 32 \<le> cv c) (enc F (GMap (entry_members now level msg f)))"
    by (rule enc_strings_visible [OF entry_strings])
  moreover obtain lg' r where s: "shouldLog strict env lg level = (lg', r)" by force
  moreover have "lg_out lg' = lg_out lg" using out s by simp
  ultimately show ?thesis
    by (auto simp: log_at_def logWithLevel_def Marshal_entry cv_def simp del: enc.simps
        split: outcome.splits bool.splits)
qed

text \<open>The five levels in their order, the call for each, and a sequence of calls.\<close>

definition log_levels :: "string list" where
  "log_levels = [''debug'', ''info'', ''warn'', ''error'', ''critical'']"

definition log_call ::
    "nat \<Rightarrow> bool \<Rightarrow> ('a) float_conv_scheme \<Rightarrow> string \<Rightarrow> gotime \<Rightarrow> logger \<Rightarrow> string \<Rightarrow> Fields \<Rightarrow> logger \<times> unit outcome" where
  "log_call i = [LogDebug, LogInfo, LogWarn, LogError, LogCritical] ! i"

primrec log_calls ::
    "bool \<Rightarrow> ('a) float_conv_scheme \<Rightarrow> gotime \<Rightarrow> (nat \<times> string \<times> string \<times> Fields) list \<Rightarrow> logger \<Rightarrow> logger" where
  "log_calls strict F now [] lg = lg"
| "log_calls strict F now (x # xs) lg =
     (case x of (i, env, msg, f) \<Rightarrow> log_calls strict F now xs (fst (log_call i strict F env now lg msg f)))"

lemma less_5: "i < 5 \<Longrightarrow> i = 0 \<or> i = 1 \<or> i = 2 \<or> i = 3 \<or> i = (4 :: nat)"
  by linarith

lemma log_call_at: "i < 5 \<Longrightarrow> log_call i = log_at (log_levels ! i)"
  by (drule less_5) (auto simp: log_call_def log_levels_def LogDebug_def LogInfo_def LogWarn_def LogError_def
      LogCritical_def numeral_eq_Suc)

lemma levelValue_rank: "i < 5 \<Longrightarrow> levelValue strict (log_levels ! i) = Ok (int i)"
  by (drule less_5) (auto simp: levelValue_def level_checks_def log_levels_def levelDebug_def levelInfo_def
      levelWarn_def levelError_def levelCritical_def numeral_eq_Suc)

lemma level_text: "i < 5 \<Longrightarrow> log_levels ! i \<noteq> '''' \<and> length (log_levels ! i) \<le> 16"
  by (drule less_5) (auto simp: log_levels_def numeral_eq_Suc)

lemma log_once:
  assumes "levelOnce lg" and "minLevel lg = int j" and "i < 5" and "msg \<noteq> ''''" and "length msg \<le> 2048"
  shows "log_call i strict F env now lg msg f =
    (lg\<lparr>lg_out := lg_out lg @ (if j \<le> i then [enc F (GMap (entry_members now (log_levels ! i) msg f))] else [])\<rparr>, Ok ())"
  using assms level_text [OF assms(3)] levelValue_rank [OF assms(3), of strict]
  by (simp add: log_call_at log_at_def logWithLevel_def shouldLog_def init_level_def level_checks_def Marshal_entry
      del: enc.simps)

text \<open>The level a value of \<^verbatim>\<open>LOGRYPH_LOG_LEVEL\<close> configures, as a position: by name in any case, else info.\<close>

definition configured :: "string \<Rightarrow> nat" where
  "configured env =
     (if map lower_char env \<in> set log_levels then the (List.find (\<lambda>j. log_levels ! j = map lower_char env) [0..<5]) else 1)"

lemma levelValue_configured:
  assumes "length env \<le> 16"
  shows "levelValue strict (if env = '''' then ''info'' else map lower_char env) = Ok (int (configured env))"
proof -
  have u: "[0..<5] = [0, 1, 2, 3, 4 :: nat]" by (simp add: upt_rec)
  show ?thesis
    using assms
    by (auto simp: levelValue_def level_checks_def configured_def log_levels_def u levelDebug_def levelInfo_def
        levelWarn_def levelError_def levelCritical_def numeral_eq_Suc)
qed

lemma log_first:
  assumes "length env \<le> 16" and "i < 5" and "msg \<noteq> ''''" and "length msg \<le> 2048"
  shows "log_call i strict F env now fresh_logger msg f =
    (\<lparr>levelOnce = True, minLevel = int (configured env),
      lg_out = (if configured env \<le> i then [enc F (GMap (entry_members now (log_levels ! i) msg f))] else [])\<rparr>, Ok ())"
  using assms level_text [OF assms(2)] levelValue_rank [OF assms(2), of strict] levelValue_configured [OF assms(1), of strict]
  by (simp add: log_call_at log_at_def logWithLevel_def shouldLog_def init_level_def level_checks_def Marshal_entry
      fresh_logger_def Let_def del: enc.simps)

lemma log_calls_once:
  assumes "\<forall>(i, env, msg, f) \<in> set xs. i < 5 \<and> msg \<noteq> '''' \<and> length msg \<le> 2048"
    and "levelOnce lg" and "minLevel lg = int j"
  shows "lg_out (log_calls strict F now xs lg) =
    lg_out lg @ map (\<lambda>(i, env, msg, f). enc F (GMap (entry_members now (log_levels ! i) msg f))) (filter (\<lambda>x. j \<le> fst x) xs)"
  using assms
proof (induction xs arbitrary: lg)
  case (Cons x xs)
  obtain i env msg f where x: "x = (i, env, msg, f)" by (metis prod_cases4)
  have v: "i < 5" "msg \<noteq> ''''" "length msg \<le> 2048" using Cons.prems(1) x by simp_all
  show ?case
    using Cons.IH [of "fst (log_call i strict F env now lg msg f)"] Cons.prems log_once [OF Cons.prems(2,3) v, of strict F env now f]
    by (simp add: x del: enc.simps)
qed simp

text \<open>
  C39. The log threshold: the first call of the process fixes the level from \<^verbatim>\<open>LOGRYPH_LOG_LEVEL\<close> as it is
  then (debug, info, warn, error or critical in any case; info when it is unset or anything else of at most
  16 bytes), and from then on, whatever the variable becomes, the log is exactly the entries of the calls
  whose level is not below it, in order, each naming its own level.
\<close>

theorem log_threshold:
  assumes "length env \<le> 16"
    and "\<forall>(i, env, msg, f) \<in> set ((i0, env, msg0, f0) # xs). i < 5 \<and> msg \<noteq> '''' \<and> length msg \<le> 2048"
  shows "lg_out (log_calls strict F now ((i0, env, msg0, f0) # xs) fresh_logger) =
    map (\<lambda>(i, e, msg, f). enc F (GMap (entry_members now (log_levels ! i) msg f)))
      (filter (\<lambda>x. configured env \<le> fst x) ((i0, env, msg0, f0) # xs))"
proof -
  have v: "i0 < 5" "msg0 \<noteq> ''''" "length msg0 \<le> 2048"
    and xs: "\<forall>(i, env, msg, f) \<in> set xs. i < 5 \<and> msg \<noteq> '''' \<and> length msg \<le> 2048"
    using assms(2) by simp_all
  show ?thesis
    using log_calls_once [OF xs, of "fst (log_call i0 strict F env now fresh_logger msg0 f0)" "configured env" strict F now]
    by (simp add: log_first [OF assms(1) v] del: enc.simps)
qed

definition demo_fields :: Fields where
  "demo_fields = \<lparr>lf_RequestID = '''', lf_TaskID = ''t1'', lf_Method = '''', lf_PolicyID = '''', lf_RiskLevel = '''',
     lf_EventID = '''', lf_RunID = '''', lf_Component = ''worker'', lf_Error = ''''\<rparr>"

theorem log_threshold_witness:
  "lg_out (log_calls True demo_env demo_time [(1, ''WARN'', ''a'', demo_fields), (4, '''', ''b'', demo_fields),
       (2, '''', ''c'', demo_fields), (0, ''debug'', ''d'', demo_fields)] fresh_logger) =
     [enc demo_env (GMap (entry_members demo_time ''critical'' ''b'' demo_fields)),
      enc demo_env (GMap (entry_members demo_time ''warn'' ''c'' demo_fields))]"
proof -
  have c: "configured ''WARN'' = 2" by code_simp
  show ?thesis
    using log_threshold [of "''WARN''" 1 "''a''" demo_fields
        "[(4, '''', ''b'', demo_fields), (2, '''', ''c'', demo_fields), (0, ''debug'', ''d'', demo_fields)]" True demo_env demo_time]
    by (simp add: c del: enc.simps log_calls.simps) (simp add: log_levels_def numeral_eq_Suc del: enc.simps log_calls.simps)
qed

section \<open>A round that fails\<close>

lemma ProcessEvent_Err:
  fixes X :: crypto_env
  assumes "ProcessEvent strict X (sqlite_repo strict X t) fr p d ps (Some e) = (p', d', ps', ptr, Err z)"
  shows "d' = d"
proof -
  obtain d1 e1 y where per: "persistEvent strict X (sqlite_repo strict X t) p d e = (d1, e1, y)"
    by (metis prod_cases3)
  have "trackTaskState strict X (sqlite_repo strict X t) fr p d1 ps e1 \<noteq> (p', d', ps', Err z)"
    by (auto simp: trackTaskState_def Let_def split: outcome.splits prod.splits if_splits)
  then show ?thesis
    using assms per sq.persist_fail [OF per]
    by (auto simp: ProcessEvent_def Let_def split: outcome.splits prod.splits if_splits)
qed

lemma process_one_failed:
  fixes X :: crypto_env
  assumes "process_one strict X (sqlite_repo strict X t) fr dur w = (w', Ok True)" and "ring_inv (w_ring w)"
    and "ring_list (w_ring w) = Some e # rest" and "\<not> w_unhealthy w" and "w_unhealthy w'"
  shows "w_db w' = w_db w"
proof -
  obtain rb where pop: "Pop strict (w_ring w) = (rb, Ok (Some e))"
    using Pop_item [OF assms(2,3), of strict] by blast
  obtain p where p: "w_processor w = Some p"
    using assms(1) pop by (auto simp: process_one_def process_event_def split: option.splits)
  obtain p1 d1 ps1 ptr y where pe: "ProcessEvent strict X (sqlite_repo strict X t) fr p (w_db w) (w_pools w) (Some e)
      = (p1, d1, ps1, ptr, y)"
    by (metis prod_cases5)
  have lat: "w_unhealthy u = w_unhealthy v \<and> w_db u = w_db v" if "recordLatency strict v dur = (u, r)" for u v :: "db worker" and r
    using recordLatency_frame [of strict v dur] that by auto
  show ?thesis
    using assms(1,4,5) pop p pe ProcessEvent_Err [of strict X t fr p "w_db w" "w_pools w" e p1 d1 ps1 ptr]
    by (cases y) (auto simp: process_one_def process_event_def Let_def deref_def split: outcome.splits prod.splits if_splits
        dest!: lat)
qed

section \<open>Readiness\<close>

text \<open>
  C28. What the readiness probe reports: a round of the drain loop that returns leaves the probe at 200
  exactly when it was at 200 before and the round has written the event (its content, and where one is due
  the completion entry) to the ledger of the run; otherwise the probe answers 503, so an event that was taken
  from the queue and is not in the ledger shows, and no later round clears it.
\<close>

theorem ready_iff_recorded:
  assumes X: "crypto_ok X" and w: "worker_ok X (c_Worker c)" and q: "ring_list (w_ring (c_Worker c)) = Some e # rest"
    and now: "valid_time (f_now fr)"
    and res: "process_one strict X (sqlite_repo strict X t) fr dur (c_Worker c) = (w', Ok True)"
  shows "(resp_Status (HandleReady wok (c\<lparr>c_Worker := w'\<rparr>)) = 200 \<longleftrightarrow>
      resp_Status (HandleReady wok c) = 200
      \<and> (\<exists>es. run_log X (w_db w') (w_runID (c_Worker c)) = run_log X (w_db (c_Worker c)) (w_runID (c_Worker c)) @ es
           \<and> gains strict X (open_tasks (c_Worker c)) e es))
    \<and> (resp_Status (HandleReady wok (c\<lparr>c_Worker := w'\<rparr>)) \<noteq> 200 \<longrightarrow> resp_Status (HandleReady wok (c\<lparr>c_Worker := w'\<rparr>)) = 503)"
proof -
  note cs = sq_process_one [OF X w q now res]
  have written: "\<exists>es. run_log X (w_db w') (w_runID (c_Worker c)) = run_log X (w_db (c_Worker c)) (w_runID (c_Worker c)) @ es
      \<and> gains strict X (open_tasks (c_Worker c)) e es" if "\<not> w_unhealthy w'"
    using cs that by (auto simp: grows_def)
  have failed: "w_db w' = w_db (c_Worker c)" if "w_unhealthy w'" "\<not> w_unhealthy (c_Worker c)"
    using process_one_failed [OF res _ q] w that by (simp add: worker_ok_def)
  have "es \<noteq> []" if "gains strict X ts e es" for ts es using that by (auto simp: gains_def)
  then show ?thesis
    using written failed cs by (auto simp: HandleReady_def IsHealthy_def http_error_def)
qed

theorem ready_iff_recorded_witness:
  "resp_Status (HandleReady (\<lambda>_. True) (demo_engine\<lparr>c_Worker := demo_first\<rparr>)) = 200
   \<and> (\<exists>es. run_log demo_env (w_db demo_first) ''run-1'' = run_log demo_env (w_db demo_queued) ''run-1'' @ es
        \<and> gains True demo_env [] demo_event es)"
proof -
  let ?c = "demo_engine\<lparr>c_Worker := demo_queued\<rparr>"
  have t: "open_tasks demo_queued = []" using demo_queued_ok(6) by (simp add: open_tasks_def NewEventProcessor_def)
  have c: "worker_ok demo_env (c_Worker ?c)" "ring_list (w_ring (c_Worker ?c)) = [Some demo_event]"
    "process_one True demo_env (sqlite_repo True demo_env 0) demo_fresh 5 (c_Worker ?c) = (demo_first, Ok True)"
    using demo_queued_ok(1,3) demo_first_step(1) by simp_all
  have "resp_Status (HandleReady (\<lambda>_. True) (demo_engine\<lparr>c_Worker := demo_first\<rparr>)) = 200"
    using demo_first_step(2) by (simp add: HandleReady_def IsHealthy_def)
  then show ?thesis
    using ready_iff_recorded [OF demo_ok c(1,2) demo_fresh_facts(1) c(3), of "\<lambda>_. True"] t demo_queued_ok(4) by simp
qed

section \<open>Key rotation\<close>

lemma set_signer_same:
  "(\<And>p. w_processor w = Some p \<Longrightarrow> p_signer p = w_signer w) \<Longrightarrow> set_signer (w_signer w) w = w"
  by (cases "w_processor w"; cases w) (auto simp: set_signer_def)

lemma key_file_round_trip:
  assumes "length k = 64" and "fs_read_err fs path = None" and "fs_files fs path = Some (hex_encode k)"
  shows "NewSigner X fs rnd path = (fs, Ok \<lparr>privateKey = k, publicKey = drop 32 k\<rparr>)"
  using assms by (simp add: NewSigner_def loadPrivateKey_def ReadFile_def hex_decode_encode)

lemma show_zero: "show_nat 0 = ''0''"
  by code_simp

lemma HandleRekey_granted:
  assumes "mthd = ''POST''" and "token = '''' \<or> header = token" and "fs_write_err fs ''.logryph_key'' = None"
  shows "HandleRekey X (Ok seed) wok token mthd header fs c =
    (fs\<lparr>fs_files := (fs_files fs)(''.logryph_key'' \<mapsto> hex_encode (ed_keygen X seed))\<rparr>,
     c\<lparr>c_Worker := set_signer \<lparr>privateKey = ed_keygen X seed, publicKey = drop 32 (ed_keygen X seed)\<rparr> (c_Worker c)\<rparr>,
     Ok \<lparr>resp_Status = 200, resp_Type = ''text/plain; charset=utf-8'',
         resp_Body = (if wok 0 then ''Key rotated'' @ nl @ ''Old: '' @ GetPublicKey (w_signer (c_Worker c))
           @ nl @ ''New: '' @ hex_encode (drop 32 (ed_keygen X seed)) else '''')\<rparr>)"
proof -
  have new: "(w_signer (c_Worker c))\<lparr>privateKey := ed_keygen X seed, publicKey := drop 32 (ed_keygen X seed)\<rparr>
      = \<lparr>privateKey = ed_keygen X seed, publicKey = drop 32 (ed_keygen X seed)\<rparr>"
    by (cases "w_signer (c_Worker c)") simp
  show ?thesis
    using assms
    by (auto simp: HandleRekey_def RotateKey_def GenerateKey_def savePrivateKey_def WriteFile_def GetPublicKey_def Let_def new)
qed

lemma engine_same: "c_Worker c = w \<Longrightarrow> c\<lparr>c_Worker := w\<rparr> = c"
  by (cases c) simp

text \<open>
  C29. Key rotation, on every branch: only a POST that carries the admin token, when one is set, does
  anything. Granted, and with random bytes and a key file that can be written, it answers 200, names the old
  and the new public key, the worker and its event processor sign with the key made from those bytes, and
  the key file holds it: a process that starts on these files loads the very signer that is in use. Otherwise
  it answers 405, 401 or 500 and the engine is as it was; refused, the files are too. (The file system is not
  described after a write that fails.)
\<close>

theorem rekey_authorised:
  assumes X: "crypto_ok X" and w: "worker_ok X (c_Worker c)" and key: "fs_read_err fs ''.logryph_key'' = None"
    and seed: "rnd = Ok seed \<and> length seed = 32 \<or> rnd = Err z" and wok: "wok 0"
  shows "\<exists>fs' c' resp. HandleRekey X rnd wok token mthd header fs c = (fs', c', Ok resp) \<and>
    (if mthd = ''POST'' \<and> (token = '''' \<or> header = token) then
       if is_ok rnd \<and> fs_write_err fs ''.logryph_key'' = None then
         resp_Status resp = 200
         \<and> resp_Body resp = ''Key rotated'' @ nl @ ''Old: '' @ GetPublicKey (w_signer (c_Worker c))
             @ nl @ ''New: '' @ GetPublicKey (w_signer (c_Worker c'))
         \<and> w_signer (c_Worker c') = \<lparr>privateKey = ed_keygen X seed, publicKey = drop 32 (ed_keygen X seed)\<rparr>
         \<and> (\<exists>p. w_processor (c_Worker c') = Some p \<and> p_signer p = w_signer (c_Worker c'))
         \<and> NewSigner X fs' rnd' ''.logryph_key'' = (fs', Ok (w_signer (c_Worker c')))
         \<and> w_db (c_Worker c') = w_db (c_Worker c) \<and> w_ring (c_Worker c') = w_ring (c_Worker c)
       else resp_Status resp = 500 \<and> c' = c
     else resp_Status resp = (if mthd = ''POST'' then 401 else 405) \<and> fs' = fs \<and> c' = c)"
proof -
  obtain p where p: "w_processor (c_Worker c) = Some p" "p_signer p = w_signer (c_Worker c)"
    using w by (auto simp: worker_ok_def)
  have same: "c\<lparr>c_Worker := set_signer (w_signer (c_Worker c)) (c_Worker c)\<rparr> = c"
    using p set_signer_same [of "c_Worker c"] by (simp add: engine_same)
  show ?thesis
  proof (cases "mthd = ''POST'' \<and> (token = '''' \<or> header = token)")
    case False
    then show ?thesis by (auto simp: HandleRekey_def http_error_def)
  next
    case True
    show ?thesis
    proof (cases "is_ok rnd \<and> fs_write_err fs ''.logryph_key'' = None")
      case False
      then show ?thesis
        using seed True same
        by (auto simp: HandleRekey_def RotateKey_def GenerateKey_def savePrivateKey_def WriteFile_def http_error_def Let_def split: option.splits)
    next
      case ok: True
      then have r: "rnd = Ok seed" "length seed = 32" using seed by auto
      then have k: "length (ed_keygen X seed) = 64" using X by (simp add: crypto_ok_def ed_ok_def)
      let ?fs = "fs\<lparr>fs_files := (fs_files fs)(''.logryph_key'' \<mapsto> hex_encode (ed_keygen X seed))\<rparr>"
      have "NewSigner X ?fs rnd' ''.logryph_key'' = (?fs, Ok \<lparr>privateKey = ed_keygen X seed, publicKey = drop 32 (ed_keygen X seed)\<rparr>)"
        using key by (intro key_file_round_trip [OF k]) simp_all
      then show ?thesis
        using HandleRekey_granted [of mthd token header fs X seed wok c] ok True r(1) p(1) wok
        by (simp add: set_signer_def GetPublicKey_def)
    qed
  qed
qed

definition demo_rekey :: "string \<Rightarrow> filesys \<times> db engine \<times> http_response outcome" where
  "demo_rekey header = HandleRekey demo_env (Ok (replicate 32 9)) (\<lambda>_. True) ''s3'' ''POST'' header (demo_fs ''x'') demo_engine"

lemma demo_engine_ok: "worker_ok demo_env (c_Worker demo_engine)"
  using demo_started_ok(1) empty_pools_clean by (auto simp: demo_engine_def NewEngine_def worker_ok_def)

lemma demo_fs_ok: "fs_read_err (demo_fs d) p = None" "fs_write_err (demo_fs d) p = None"
  by (simp_all add: demo_fs_def)

theorem rekey_authorised_witness:
  "(\<exists>fs' c' resp. demo_rekey ''s3'' = (fs', c', Ok resp) \<and> resp_Status resp = 200
      \<and> privateKey (w_signer (c_Worker c')) = replicate 32 9 @ replicate 32 9
      \<and> NewSigner demo_env fs' (Ok []) ''.logryph_key'' = (fs', Ok (w_signer (c_Worker c'))))
   \<and> (\<exists>resp. demo_rekey ''guess'' = (demo_fs ''x'', demo_engine, Ok resp) \<and> resp_Status resp = 401)"
proof -
  have seed: "Ok (replicate 32 9) = Ok (replicate 32 9) \<and> length (replicate 32 (9 :: byte)) = 32 \<or> Ok (replicate 32 9) = Err z" for z
    by simp
  have k: "ed_keygen demo_env s = s @ s" for s by (simp add: demo_env_def)
  note r = rekey_authorised [OF demo_ok demo_engine_ok demo_fs_ok(1) seed, of "\<lambda>_. True" "''s3''" "''POST''"]
  obtain fs' c' resp where y: "demo_rekey ''s3'' = (fs', c', Ok resp)" "resp_Status resp = 200"
      "privateKey (w_signer (c_Worker c')) = replicate 32 9 @ replicate 32 9"
      "NewSigner demo_env fs' (Ok []) ''.logryph_key'' = (fs', Ok (w_signer (c_Worker c')))"
    using r [of "''s3''" "''x''" "Ok []"] by (auto simp: demo_rekey_def demo_fs_ok(2) k)
  moreover have "\<exists>resp. demo_rekey ''guess'' = (demo_fs ''x'', demo_engine, Ok resp) \<and> resp_Status resp = 401"
    using r [of "''guess''" "''x''" "Ok []"] by (auto simp: demo_rekey_def)
  ultimately show ?thesis by blast
qed

text \<open>
  C30. Rotating the key of a run in progress makes the audit reject its history. Let the run of the worker be
  a good ledger whose first event carries the signature its key makes, and let the key made from the new
  random bytes not accept signatures made with the old one (\<open>keys_separate\<close>, what Ed25519 is for). The
  authorised rotation answers 200; before it the audit accepts the run, and after it the audit of the same
  database with the key now in use returns a verdict: invalid, at the first event, for its signature.
\<close>

theorem rekey_breaks_audit:
  assumes X: "crypto_ok X" and w: "worker_ok X (c_Worker c)" and up: "db_up (w_db (c_Worker c))"
    and r: "w_runID (c_Worker c) \<noteq> ''''" and log: "run_log X (w_db (c_Worker c)) (w_runID (c_Worker c)) = g # es"
    and old: "privateKey (w_signer (c_Worker c)) = ed_keygen X a"
    and sig: "hex_decode (Signature g) = Ok (ed_sign X (ed_keygen X a) (bytes_of (CurrentHash g)))"
    and new: "length b = 32" and sep: "keys_separate X a b"
    and auth: "token = '''' \<or> header = token" and key: "fs_write_err fs ''.logryph_key'' = None"
  shows "\<exists>fs' c' resp. HandleRekey X (Ok b) wok token ''POST'' header fs c = (fs', c', Ok resp) \<and> resp_Status resp = 200
    \<and> (\<exists>v. VerifyChain strict X (GetAllEvents strict X (w_db (c_Worker c))) (w_runID (c_Worker c)) (w_signer (c_Worker c)) = Ok v \<and> Valid v)
    \<and> VerifyChain strict X (GetAllEvents strict X (w_db (c_Worker c'))) (w_runID (c_Worker c')) (w_signer (c_Worker c')) =
        Ok \<lparr>Valid = False, TotalEvents = int (min 100000 (Suc (length es))),
            ErrorMessage = ''Event 0 (seq 0) failed verification: forensic integrity error: invalid ed25519 signature'',
            FailedAtSeq = 0\<rparr>"
proof -
  let ?w = "c_Worker c" and ?s = "\<lparr>privateKey = ed_keygen X b, publicKey = drop 32 (ed_keygen X b)\<rparr>"
  obtain p where p: "p_signer p = w_signer ?w" "p_runID p = w_runID ?w" "ledger_ok X p (w_db ?w)"
    using w by (auto simp: worker_ok_def)
  have link: "link_ok X (w_signer ?w) (w_runID ?w) zero_hash 0 g" and inv: "store_inv (w_db ?w)"
    using p log by (simp_all add: ledger_ok_def)
  obtain rows where rows: "GetAllEvents strict X (w_db ?w) (w_runID ?w) = Ok rows"
    using sq.all_up [of "w_db ?w" "w_runID ?w" strict X 0] up r by (auto simp: outcome_simps sqlite_repo_def)
  then have eq: "rows = take 100000 (g # es)"
    using sq.all_ok [OF inv, of strict X 0 "w_runID ?w" rows] log by (simp add: sqlite_repo_def maxEventRows_def)
  have k: "length (ed_keygen X b) = 64" using X new by (simp add: crypto_ok_def ed_ok_def)
  have h: "CalculateEventHash False X (PrevHash g) (event_payload g) = Ok (CurrentHash g)" "Signature g \<noteq> ''''" "SeqIndex g = 0"
    using link by (simp_all add: link_ok_def)
  have h': "CalculateEventHash strict X (PrevHash g) (event_payload g) = Ok (CurrentHash g)" "CurrentHash g \<noteq> ''''"
    using CalculateEventHash_mode [OF h(1)] CalculateEventHash_Ok_D [OF h(1)] by auto
  have "VerifySignature X ?s (CurrentHash g) (Signature g) = Ok False"
    using sep k sig by (simp add: VerifySignature_def keys_separate_def)
  then have "VerifyEvent strict X ?s g = Err ErrInvalidSignature"
    using h' h(2) by (simp add: VerifyEvent_def)
  then have audit: "VerifyChain strict X (GetAllEvents strict X (w_db ?w)) (w_runID ?w) ?s =
      Ok \<lparr>Valid = False, TotalEvents = int (min 100000 (Suc (length es))),
          ErrorMessage = ''Event 0 (seq 0) failed verification: forensic integrity error: invalid ed25519 signature'',
          FailedAtSeq = 0\<rparr>"
    using rows eq r h(3) show_zero by (simp add: VerifyChain_def maxVerifyEvents_def ErrInvalidSignature_def min.commute)
  let ?c = "c\<lparr>c_Worker := set_signer ?s ?w\<rparr>"
  have "\<exists>fs' resp. HandleRekey X (Ok b) wok token ''POST'' header fs c = (fs', ?c, Ok resp) \<and> resp_Status resp = 200"
    by (simp add: HandleRekey_granted [OF refl auth key])
  moreover have "w_db (c_Worker ?c) = w_db ?w" "w_runID (c_Worker ?c) = w_runID ?w" "w_signer (c_Worker ?c) = ?s"
    by (simp_all add: set_signer_def)
  ultimately show ?thesis
    using ledger_audit [OF p(3) up, of strict] p r log audit by auto
qed

theorem rekey_breaks_audit_witness:
  "\<exists>fs' c' resp. demo_rekey ''s3'' = (fs', c', Ok resp) \<and> resp_Status resp = 200
     \<and> (\<exists>v. VerifyChain True demo_env (GetAllEvents True demo_env (w_db (c_Worker demo_engine))) ''run-1'' demo_signer = Ok v \<and> Valid v)
     \<and> (\<exists>v. VerifyChain True demo_env (GetAllEvents True demo_env (w_db (c_Worker c'))) (w_runID (c_Worker c')) (w_signer (c_Worker c')) = Ok v
          \<and> \<not> Valid v \<and> TotalEvents v = 1)"
proof -
  have e: "w_db (c_Worker demo_engine) = w_db demo_started" "w_runID (c_Worker demo_engine) = ''run-1''"
    "w_signer (c_Worker demo_engine) = demo_signer"
    using demo_started_ok(2,8) by (auto simp: demo_engine_def NewEngine_def)
  obtain g where g: "run_log demo_env (w_db (c_Worker demo_engine)) (w_runID (c_Worker demo_engine)) = [g]"
    using demo_started_ok(10) e by auto
  obtain p where p: "p_signer p = demo_signer" "p_runID p = ''run-1''" "ledger_ok demo_env p (w_db demo_started)"
    using demo_started_ok(1,2,8) by (auto simp: worker_ok_def)
  have k: "ed_keygen demo_env s = s @ s" for s by (simp add: demo_env_def)
  have old: "privateKey (w_signer (c_Worker demo_engine)) = ed_keygen demo_env (replicate 32 7)"
    using e(3) by (simp add: k demo_signer_def replicate_add [symmetric])
  have "VerifySignature demo_env demo_signer (CurrentHash g) (Signature g) = Ok True"
    using p g e by (simp add: ledger_ok_def link_ok_def)
  then have sig: "hex_decode (Signature g) = Ok (ed_sign demo_env (ed_keygen demo_env (replicate 32 7)) (bytes_of (CurrentHash g)))"
    by (auto simp: VerifySignature_def demo_env_def demo_signer_def demo_tag_def split: outcome.splits if_splits)
  have sep: "keys_separate demo_env (replicate 32 7) (replicate 32 9)"
    by (simp add: keys_separate_def demo_env_def demo_tag_def)
  have st: "db_up (w_db (c_Worker demo_engine))" "w_runID (c_Worker demo_engine) \<noteq> ''''" "length (replicate 32 (9 :: byte)) = 32"
    "''s3'' = '''' \<or> ''s3'' = ''s3''"
    using demo_started_ok(6) e by simp_all
  from rekey_breaks_audit [OF demo_ok demo_engine_ok st(1,2) g old sig st(3) sep st(4) demo_fs_ok(2), of "\<lambda>_. True" "''x''" True]
  show ?thesis using e by (auto simp: demo_rekey_def)
qed

end
