(* ===== verification/Cli_Properties.thy ===== *)
theory Cli_Properties
  imports Cli_Main Server_Main Runs_Table Service_Properties
begin

text \<open>
  What the command line tool promises: the trace of a task, the verdict and exit status of the audit,
  the handling of key backups, the evidence bag, replays and remote key rotation.
\<close>

section \<open>Trace\<close>

definition trace_head :: "string \<Rightarrow> event \<Rightarrow> string" where
  "trace_head taskID e =
     ''Forensic Timeline Trace: '' @ taskID @ nl @ ''Run ID: '' @ take 8 (RunID e) @ nl
     @ ''Start:  '' @ format_rfc3339 (Timestamp e) @ nl @ replicate 60 CHR ''='' @ nl"

definition trace_foot :: "event list \<Rightarrow> string" where
  "trace_foot es =
     replicate 60 CHR ''-'' @ nl @ ''Summary: '' @ show_nat (length es) @ '' events | Total Duration: ''
     @ show_duration (Truncate (Sub (Timestamp (last es)) (Timestamp (hd es))) 1000000) @ nl"

lemma print_forest:
  assumes "parents_first es" and "\<forall>e \<in> set es. 6 \<le> length (ID e)" and "length es \<le> 10000"
  shows "\<exists>xss. list_all2 (shown es) (child_frames '''' (tree_roots es)) xss \<and> nodes (concat xss) = mset es
    \<and> printTraceTree strict (tree_roots es) (snd (tree_loop es ([], []))) start
        = (concat (map (trace_text start) (concat xss)), Return)"
proof -
  let ?roots = "child_frames '''' (tree_roots es)"
  have "\<exists>xs. shown es f xs" if "f \<in> set ?roots" for f
  proof -
    have "tf_node f \<in> tf_node ` set ?roots" using that by blast
    then obtain i where "i < length es" "tf_node f = es ! i" by (auto simp: in_set_conv_nth)
    then show ?thesis using shown_exists [OF assms(1)] by blast
  qed
  then obtain xss where x: "list_all2 (shown es) ?roots xss"
    using list_all2_choice [of ?roots "shown es"] by blast
  have all: "nodes (concat xss) = mset es" by (rule forest_all [OF assms(1) x])
  then have len: "length (concat xss) = length es" by (metis length_map size_mset)
  have roots: "length (tree_roots es) \<le> maxTraceNodes"
    using le_trans [OF length_filter_le [of "\<lambda>e. ParentID e = ''''"] assms(3)] by (simp add: maxTraceNodes_def)
  have nz: "ID e \<noteq> ''''" if "e \<in> set es" for e using assms(2) that by force
  have "trace_loop strict (snd (tree_loop es ([], []))) start maxTraceNodes ?roots
      = (concat (map (trace_text start) (concat xss)), Return)"
    using assms(2,3) len nz
    by (intro trace_loop_shown [OF _ _ _ x]) (auto simp: maxChildren_def maxTraceNodes_def children_of_tree)
  moreover have "push_frames '''' True (take maxTraceNodes (rev (tree_roots es))) [] = ?roots"
    using push_frames_siblings [of "tree_roots es" "[]" "''''"] roots by simp
  ultimately have "printTraceTree strict (tree_roots es) (snd (tree_loop es ([], []))) start
      = (concat (map (trace_text start) (concat xss)), Return)"
    using roots by (simp add: printTraceTree_def)
  then show ?thesis using x all by blast
qed

text \<open>
  C12. The trace of a task shows every event of the task exactly once. When identifiers are unique and
  each event names no parent or an earlier event of the task, the explicit stack prints the lines in the
  order of the recursive reading of the forest, parents before their children and siblings in order, with
  the prefixes of that reading, between the header and the summary, and the command returns.
\<close>

theorem trace_shows_every_event:
  assumes d: "OpenDB dk = Ok d" "GetEventsByTaskID strict d taskID = Ok es" and ne: "es \<noteq> []"
    and pf: "parents_first es" and ids: "\<forall>e \<in> set es. 6 \<le> length (ID e)" and len: "length es \<le> 10000"
    and run: "8 \<le> length (RunID (hd es))"
  shows "\<exists>xss. list_all2 (shown es) (child_frames '''' (tree_roots es)) xss
    \<and> mset (map tf_node (concat xss)) = mset es
    \<and> TraceCommand strict werr M gen dk [prog, cmd, taskID] fs =
        (fs, trace_head taskID (hd es) @ concat (map (trace_text (Timestamp (hd es))) (concat xss)) @ trace_foot es, Return)"
proof -
  obtain xss where x: "list_all2 (shown es) (child_frames '''' (tree_roots es)) xss" "nodes (concat xss) = mset es"
    "printTraceTree strict (tree_roots es) (snd (tree_loop es ([], []))) (Timestamp (hd es))
        = (concat (map (trace_text (Timestamp (hd es))) (concat xss)), Return)"
    using print_forest [OF pf ids len] by blast
  have "buildTree strict es = Ok (tree_roots es, snd (tree_loop es ([], [])))"
    using len tree_loop_roots [of es "[]" "[]"] by (auto simp: buildTree_def maxTreeEvents_def prod_eq_iff)
  moreover have "length (tree_roots es) \<le> 10000" using len order_trans [OF length_filter_le] by blast
  moreover have "go_prefix 8 (RunID (hd es)) = Ok (take 8 (RunID (hd es)))" using run by (simp add: go_prefix_def)
  ultimately have "show_trace strict taskID es =
      (trace_head taskID (hd es) @ concat (map (trace_text (Timestamp (hd es))) (concat xss)) @ trace_foot es, Return)"
    using x(3) by (simp add: show_trace_def and_then_def trace_head_def trace_foot_def maxRoots_def prod_eq_iff)
  then show ?thesis
    using d ne x(1,2) by (intro exI [of _ xss]) (simp add: TraceCommand_def numeral_2_eq_2)
qed

text \<open>Files with the signing key of the examples.\<close>

definition key_fs :: filesys where
  "key_fs = \<lparr>fs_files = [''.logryph_key'' \<mapsto> hex_encode (privateKey demo_signer)], fs_read_err = (\<lambda>_. None),
     fs_write_err = (\<lambda>_. None)\<rparr>"

text \<open>A task with two events under the first.\<close>

definition trace_row :: "string \<Rightarrow> u64 \<Rightarrow> string \<Rightarrow> event_row" where
  "trace_row i n parent = (row_of (demo_event\<lparr>ID := i, RunID := ''run-00000001'', SeqIndex := n, ParentID := parent\<rparr>)
     ''{}'' ''null'')"

definition trace_disk :: disk where
  "trace_disk = good_disk [] [trace_row ''call-01'' 1 '''', trace_row ''call-02'' 2 ''call-01'', trace_row ''call-03'' 3 ''call-01'']"

definition trace_events :: "event list" where
  "trace_events = map scan_row [trace_row ''call-01'' 1 '''', trace_row ''call-02'' 2 ''call-01'', trace_row ''call-03'' 3 ''call-01'']"

lemma trace_events_rows: "OpenDB trace_disk = Ok \<lparr>db_runs = [], db_events = [trace_row ''call-01'' 1 '''',
    trace_row ''call-02'' 2 ''call-01'', trace_row ''call-03'' 3 ''call-01''], db_open = True, db_read_err = None,
    db_write_err = None, db_rows_err = None, db_close_err = None, db_conn_err = None\<rparr>"
  by (simp add: trace_disk_def)

lemma trace_row_fields [simp]:
  "e_id (trace_row i n p) = i" "e_seq_index (trace_row i n p) = n" "e_parent_id (trace_row i n p) = p"
  "e_task_id (trace_row i n p) = ''t1''" "e_run_id (trace_row i n p) = ''run-00000001''"
  by (simp_all add: trace_row_def row_of_def demo_event_def)

theorem trace_shows_every_event_witness:
  "\<exists>xss. mset (map tf_node (concat xss)) = mset trace_events
    \<and> TraceCommand True (\<lambda>_. None) demo_fmt '''' trace_disk [''logyctl'', ''trace'', ''t1''] key_fs =
        (key_fs, trace_head ''t1'' (hd trace_events)
           @ concat (map (trace_text (Timestamp (hd trace_events))) (concat xss)) @ trace_foot trace_events, Return)"
proof -
  let ?d = "\<lparr>db_runs = [], db_events = [trace_row ''call-01'' 1 '''', trace_row ''call-02'' 2 ''call-01'',
    trace_row ''call-03'' 3 ''call-01''], db_open = True, db_read_err = None,
    db_write_err = None, db_rows_err = None, db_close_err = None, db_conn_err = None\<rparr>"
  have g: "GetEventsByTaskID True ?d ''t1'' = Ok trace_events"
    by (simp add: GetEventsByTaskID_def trace_events_def query_ready_def finish_rows_def order_asc_def maxEventRows_def)
  have "trace_events = (([] @ [scan_row (trace_row ''call-01'' 1 '''')]) @ [scan_row (trace_row ''call-02'' 2 ''call-01'')])
      @ [scan_row (trace_row ''call-03'' 3 ''call-01'')]" by (simp add: trace_events_def)
  also have "parents_first \<dots>"
    by (intro parents_first_snoc parents_first_Nil) (simp_all add: scan_row_def)
  finally have pf: "parents_first trace_events" .
  have f: "trace_events \<noteq> []" "\<forall>e \<in> set trace_events. 6 \<le> length (ID e)" "length trace_events \<le> 10000"
    "8 \<le> length (RunID (hd trace_events))"
    by (simp_all add: trace_events_def scan_row_def)
  from trace_shows_every_event [OF trace_events_rows g f(1) pf f(2-4), of "\<lambda>_. None" demo_fmt "''''" "''logyctl''" "''trace''" key_fs]
  show ?thesis by (elim ex_forward) (elim conjE, intro conjI)
qed

section \<open>Verify\<close>

lemma NewSigner_loads:
  assumes "crypto_ok X" and "signer_ok X s" and "fs_files fs p = Some (hex_encode (privateKey s))"
    and "fs_read_err fs p = None"
  shows "NewSigner X fs rnd p = (fs, Ok s)"
proof -
  have "length (privateKey s) = 64" "publicKey s = drop 32 (privateKey s)"
    using assms(1,2) by (auto simp: signer_ok_def crypto_ok_def ed_ok_def)
  moreover from this have "\<lparr>privateKey = privateKey s, publicKey = drop 32 (privateKey s)\<rparr> = s" by simp
  ultimately show ?thesis
    using assms(3,4) by (simp add: NewSigner_def loadPrivateKey_def ReadFile_def hex_decode_encode)
qed

lemma skip_live_parsed:
  "parse_flags [(''skip-live'', FBool False)] [''--skip-live''] = Parsed [(''skip-live'', FBool True)]"
  by code_simp

text \<open>What the command prints on a run with a valid chain of \<open>n\<close> events.\<close>

definition chain_report :: "string \<Rightarrow> nat \<Rightarrow> string" where
  "chain_report r n =
     ''Verifying chain for run: '' @ take 8 r @ nl @ ''[OK] Chain is valid ('' @ show_nat n @ '' events verified)'' @ nl"

text \<open>
  C9. From the worker to the command line: start on an empty database, let the worker go through any
  steps (submissions, processing, anchors, faults), and open the database file afterwards with the key
  file of its signer: \<^verbatim>\<open>logyctl verify --skip-live\<close> finds the run, accepts it, reports the number of its
  events (up to the 100000 one read returns) and exits with status 0, leaving the files alone.
\<close>

theorem verify_accepts_run:
  assumes X: "crypto_ok X" and w0: "worker_ok X w0" "w_stopped w0 \<longrightarrow> w_closing w0"
    and one: "map r_id (db_runs (w_db w0)) = [w_runID w0]" and id: "8 \<le> length (w_runID w0)"
    and log: "run_log X (w_db w0) (w_runID w0) \<noteq> []" and run: "worker_run strict X w0 acc han w"
    and dk: "OpenDB dk = Ok d" "db_fault (w_db w) d" "db_up d"
    and key: "fs_files fs ''.logryph_key'' = Some (hex_encode (privateKey (w_signer w)))"
      "fs_read_err fs ''.logryph_key'' = None"
  shows "VerifyCommand strict X rnd to_uint get now dk [prog, ''verify'', ''--skip-live''] fs =
    (fs, chain_report (w_runID w0) (min 100000 (length (run_log X (w_db w) (w_runID w0)))), Return)"
proof -
  have inv: "run_inv strict X w0 acc han w" by (rule run_invariant [OF X w0 run])
  then obtain p where p: "p_signer p = w_signer w" "p_runID p = w_runID w0" "ledger_ok X p (w_db w)"
    and s: "signer_ok X (w_signer w)"
    by (auto simp: run_inv_def worker_ok_def)
  have d: "ledger_ok X p d" "run_log X d = run_log X (w_db w)"
    using p(3) db_fault_view(1) [OF dk(2), of X] db_fault_view(2) [OF dk(2)] by (simp_all add: ledger_ok_def)
  have "run_log X d (w_runID w0) \<noteq> []" using inv log d(2) by (auto simp: run_inv_def grows_def)
  moreover have ne: "w_runID w0 \<noteq> ''''" using id by auto
  ultimately have audit: "VerifyChain strict X (GetAllEvents strict X d) (w_runID w0) (w_signer w) =
      Ok \<lparr>Valid = True, TotalEvents = int (min 100000 (length (run_log X (w_db w) (w_runID w0)))),
          ErrorMessage = '''', FailedAtSeq = 0\<rparr>"
    using ledger_audit [OF d(1) dk(3), of strict] p(1,2) d(2) by simp
  have "db_runs d = db_runs (w_db w0)" using run_keeps_runs [OF run] dk(2) by (simp add: db_fault_def)
  then have "GetRunID d = Ok (w_runID w0)" using GetRunID_single [OF dk(3)] one by simp
  moreover have "go_prefix 8 (w_runID w0) = Ok (take 8 (w_runID w0))" using id by (simp add: go_prefix_def)
  ultimately have "verify_run strict X to_uint get now True d (w_signer w) =
      (chain_report (w_runID w0) (min 100000 (length (run_log X (w_db w) (w_runID w0)))), Return)"
    using ne audit by (simp add: verify_run_def report_chain_def chain_report_def show_int_def prod_eq_iff)
  then show ?thesis
    using NewSigner_loads [OF X s key, of rnd] dk(1) by (simp add: VerifyCommand_def skip_live_parsed flag_bool_def del: parse_flags.simps)
qed

text \<open>A started worker with a full-length run identifier.\<close>

definition long_started :: "db worker" where
  "long_started = fst (Start True demo_env demo_repo demo_fresh ''run-00000001'' demo_offline demo_worker)"

lemma long_start: "Start True demo_env demo_repo demo_fresh ''run-00000001'' demo_offline demo_worker = (long_started, Ok ())"
proof -
  obtain w' where "Start True demo_env demo_repo demo_fresh ''run-00000001'' demo_offline demo_worker = (w', Ok ())"
    using start_total [OF demo_ok demo_unstarted demo_fresh_facts(1), of demo_offline "''run-00000001''" True 0]
      demo_fresh_facts by (auto simp: demo_offline_def demo_repo_def)
  then show ?thesis by (simp add: long_started_def)
qed

lemma long_started_ok:
  "worker_ok demo_env long_started" "w_runID long_started = ''run-00000001''" "\<not> w_stopped long_started"
  "w_signer long_started = demo_signer" "run_log demo_env (w_db long_started) ''run-00000001'' \<noteq> []"
  "map r_id (db_runs (w_db long_started)) = [''run-00000001'']"
proof -
  have "\<forall>a. demo_offline = Ok a \<longrightarrow> valid_time (an_Timestamp a)" by (simp add: demo_offline_def)
  note s = start_genesis [OF demo_ok demo_unstarted(1) demo_fresh_facts(1) this long_start [unfolded demo_repo_def]]
  show "worker_ok demo_env long_started" "w_runID long_started = ''run-00000001''" "\<not> w_stopped long_started"
    using s by blast+
  have "w_signer long_started = w_signer demo_worker" using s by blast
  then show "w_signer long_started = demo_signer" by (simp add: demo_worker_def)
  have "\<exists>g. run_log demo_env (w_db long_started) ''run-00000001'' = [g]" using s by blast
  then show "run_log demo_env (w_db long_started) ''run-00000001'' \<noteq> []" by force
  show "map r_id (db_runs (w_db long_started)) = [''run-00000001'']"
    using start_runs [OF _ long_start [unfolded demo_repo_def]] by (simp add: demo_worker_def empty_db_def)
qed

definition long_disk :: disk where
  "long_disk = good_disk (db_runs (w_db long_started)) (db_events (w_db long_started))"

theorem verify_accepts_run_witness:
  "VerifyCommand True demo_env (Ok []) id (\<lambda>_. Err (ErrorString ''offline'')) demo_time long_disk
      [''logyctl'', ''verify'', ''--skip-live''] key_fs =
    (key_fs, chain_report ''run-00000001'' (min 100000 (length (run_log demo_env (w_db long_started) ''run-00000001''))), Return)"
proof -
  let ?d = "\<lparr>db_runs = db_runs (w_db long_started), db_events = db_events (w_db long_started), db_open = True,
    db_read_err = None, db_write_err = None, db_rows_err = None, db_close_err = None, db_conn_err = None\<rparr>"
  have dk: "OpenDB long_disk = Ok ?d" "db_fault (w_db long_started) ?d" "db_up ?d"
    by (simp_all add: long_disk_def db_fault_def db_up_def)
  have w: "w_stopped long_started \<longrightarrow> w_closing long_started" "map r_id (db_runs (w_db long_started)) = [w_runID long_started]"
    "8 \<le> length (w_runID long_started)" "run_log demo_env (w_db long_started) (w_runID long_started) \<noteq> []"
    using long_started_ok by simp_all
  have key: "fs_files key_fs ''.logryph_key'' = Some (hex_encode (privateKey (w_signer long_started)))"
    "fs_read_err key_fs ''.logryph_key'' = None"
    using long_started_ok(4) by (simp_all add: key_fs_def)
  show ?thesis
    using verify_accepts_run [OF demo_ok long_started_ok(1) w worker_run.run_init dk key]
    unfolding long_started_ok(2) by blast
qed

text \<open>
  C11. The exit status of \<^verbatim>\<open>logyctl verify --skip-live\<close> is the verdict: with a readable database, a key and a
  current run, the status is 0 exactly when the rows read are not empty and every one of them has the
  hash and the signature of its content and links to the one before.
\<close>

theorem verify_exit_status:
  assumes "OpenDB dk = Ok d" and "NewSigner X fs rnd ''.logryph_key'' = (fs', Ok s)" and "GetRunID d = Ok r"
    and "8 \<le> length r" and "GetAllEvents strict X d r = Ok es"
  shows "status (snd (snd (VerifyCommand strict X rnd to_uint get now dk [prog, ''verify'', ''--skip-live''] fs))) = 0
    \<longleftrightarrow> es \<noteq> [] \<and> audited X s None es"
proof -
  have r: "r \<noteq> ''''" "go_prefix 8 r = Ok (take 8 r)" using assms(4) by (auto simp: go_prefix_def)
  have len: "length es \<le> maxVerifyEvents"
    using assms(5) by (auto simp: GetAllEvents_def outcome_simps finish_rows_def maxVerifyEvents_def maxEventRows_def
        split: option.splits)
  have cmd: "snd (snd (VerifyCommand strict X rnd to_uint get now dk [prog, ''verify'', ''--skip-live''] fs)) =
      snd (attempt (VerifyChain strict X (GetAllEvents strict X d) r s) (fatal ''Verification error'')
        (\<lambda>v. report_chain v (stop Return)))"
    using assms(1-3) r by (simp add: VerifyCommand_def skip_live_parsed flag_bool_def verify_run_def del: parse_flags.simps)
  show ?thesis
  proof (cases "VerifyChain strict X (GetAllEvents strict X d) r s")
    case (Ok v)
    then show ?thesis
      using VerifyChain_valid_iff [OF Ok assms(5)] by (simp add: cmd report_chain_def)
  next
    case (Err e)
    then have "\<not> (es \<noteq> [] \<and> audited X s None es)"
      using assms(5) r len verify_loop_audited [of X s None es strict]
      by (auto simp: VerifyChain_def outcome_simps bind_outcome_Err_iff Let_def)
    then show ?thesis by (simp add: cmd Err fatal_def)
  next
    case (Panic e)
    then have "\<not> (es \<noteq> [] \<and> audited X s None es)"
      using assms(5) r len verify_loop_audited [of X s None es strict] by (auto simp: VerifyChain_def Let_def)
    then show ?thesis by (simp add: cmd Panic)
  qed
qed

definition bare_disk :: disk where
  "bare_disk = good_disk [\<lparr>r_id = ''run-00000001'', r_agent_name = ''a'', r_started_at = 0, r_genesis_hash = ''g'',
     r_ledger_pub_key = ''k''\<rparr>] []"

theorem verify_exit_status_witness:
  "status (snd (snd (VerifyCommand True demo_env (Ok []) id (\<lambda>_. Err (ErrorString ''offline'')) demo_time bare_disk
     [''logyctl'', ''verify'', ''--skip-live''] key_fs))) \<noteq> 0"
proof -
  let ?d = "\<lparr>db_runs = [\<lparr>r_id = ''run-00000001'', r_agent_name = ''a'', r_started_at = 0, r_genesis_hash = ''g'',
     r_ledger_pub_key = ''k''\<rparr>], db_events = [], db_open = True,
    db_read_err = None, db_write_err = None, db_rows_err = None, db_close_err = None, db_conn_err = None\<rparr>"
  have o: "OpenDB bare_disk = Ok ?d" by (simp add: bare_disk_def)
  have s: "NewSigner demo_env key_fs (Ok []) ''.logryph_key'' = (key_fs, Ok demo_signer)"
    by (rule NewSigner_loads [OF demo_ok demo_signer_ok]) (simp_all add: key_fs_def)
  have r: "GetRunID ?d = Ok ''run-00000001''" by (rule GetRunID_single) (simp_all add: db_up_def)
  have e: "GetAllEvents True demo_env ?d ''run-00000001'' = Ok []"
    by (simp add: GetAllEvents_def query_ready_def finish_rows_def order_asc_def run_rows_def)
  show ?thesis
    using verify_exit_status [OF o s r _ e, of id "\<lambda>_. Err (ErrorString ''offline'')" demo_time "''logyctl''"] by simp
qed

section \<open>Keys\<close>

text \<open>
  C16. A key backup can be restored. After \<^verbatim>\<open>backup-key\<close> has succeeded and the key has been rotated any
  way, \<^verbatim>\<open>restore-key\<close> with the path of the backup puts the old key back: a signer loaded afterwards is the
  one that was loaded before the rotation, and the key in between is kept beside it.
\<close>

theorem backup_restores_key:
  assumes load: "loadPrivateKey fs keyPath = Ok k"
    and bak: "BackupKeyCommand now fs = (fs1, out1, Return)"
    and rot: "RotateKey X fs1 rnd s keyPath = (fs2, s2, Ok pubs)"
    and ok: "fs_read_err fs (backup_path now) = None" "fs_write_err fs keyPath = None" "fs_write_err fs old_path = None"
      "fs_read_err fs keyPath = None"
  shows "\<exists>fs3 out3. RestoreKeyCommand (backup_path now) fs2 = (fs3, out3, Return)
    \<and> NewSigner X fs3 rnd' keyPath = (fs3, Ok \<lparr>privateKey = k, publicKey = drop 32 k\<rparr>)
    \<and> fs_files fs3 old_path = Some (hex_encode (privateKey s2))"
proof -
  obtain d where d: "fs_files fs keyPath = Some d" "fs1 = fs\<lparr>fs_files := (fs_files fs)(backup_path now \<mapsto> d)\<rparr>"
    using BackupKey_effect [OF bak] by blast
  have fs2: "fs2 = fs1\<lparr>fs_files := (fs_files fs1)(keyPath \<mapsto> hex_encode (privateKey s2))\<rparr>"
    using rot by (auto simp: RotateKey_def savePrivateKey_def WriteFile_def Let_def
        split: outcome.splits prod.splits option.splits)
  have "fs_files fs2 (backup_path now) = Some d" "fs_files fs2 keyPath = Some (hex_encode (privateKey s2))"
    "fs_read_err fs2 = fs_read_err fs" "fs_write_err fs2 = fs_write_err fs"
    using d by (simp_all add: fs2)
  moreover have "length (backup_path now) \<le> maxPath" by (simp add: length_backup_path maxPath_def)
  ultimately obtain fs3 out3 where r: "RestoreKeyCommand (backup_path now) fs2 = (fs3, out3, Return)"
    "fs_files fs3 keyPath = Some d" "fs_files fs3 old_path = Some (hex_encode (privateKey s2))"
    "fs_read_err fs3 = fs_read_err fs"
    using RestoreKey_effect [of fs2 "backup_path now" d] ok by auto
  have "loadPrivateKey fs3 keyPath = Ok k"
    using load d(1) r(2,4) ok(4) by (simp add: loadPrivateKey_def ReadFile_def)
  then show ?thesis using r(1,3) by (auto simp: NewSigner_def)
qed

definition rotated_signer :: signer where
  "rotated_signer = \<lparr>privateKey = replicate 32 9 @ replicate 32 9, publicKey = drop 32 (replicate 32 9 @ replicate 32 9)\<rparr>"

theorem backup_restores_key_witness:
  "\<exists>fs1 fs2 fs3 out1 out3 pubs. BackupKeyCommand demo_time key_fs = (fs1, out1, Return)
    \<and> RotateKey demo_env fs1 (Ok (replicate 32 9)) demo_signer keyPath = (fs2, rotated_signer, Ok pubs)
    \<and> RestoreKeyCommand (backup_path demo_time) fs2 = (fs3, out3, Return)
    \<and> NewSigner demo_env fs3 (Ok []) keyPath = (fs3, Ok demo_signer)
    \<and> fs_files fs3 old_path = Some (hex_encode (privateKey rotated_signer))"
proof -
  have key: "loadPrivateKey key_fs keyPath = Ok (privateKey demo_signer)"
    by (simp add: loadPrivateKey_def ReadFile_def key_fs_def keyPath_def hex_decode_encode) (simp add: demo_signer_def)
  have "snd (snd (BackupKeyCommand demo_time key_fs)) = Return"
    by (simp add: BackupKeyCommand_def StatErr_def ReadFile_def WriteFile_def key_fs_def keyPath_def
        length_backup_path maxBackupName_def)
  then obtain fs1 out1 where b: "BackupKeyCommand demo_time key_fs = (fs1, out1, Return)"
    by (metis prod.collapse)
  then obtain d where "fs1 = key_fs\<lparr>fs_files := (fs_files key_fs)(backup_path demo_time \<mapsto> d)\<rparr>"
    using BackupKey_effect by blast
  then obtain fs2 pubs where r: "RotateKey demo_env fs1 (Ok (replicate 32 9)) demo_signer keyPath = (fs2, rotated_signer, Ok pubs)"
    by (simp add: RotateKey_def GenerateKey_def savePrivateKey_def WriteFile_def key_fs_def demo_env_def rotated_signer_def
        demo_signer_def Let_def)
  have s: "\<lparr>privateKey = privateKey demo_signer, publicKey = drop 32 (privateKey demo_signer)\<rparr> = demo_signer"
    by (simp add: demo_signer_def)
  have ok: "fs_read_err key_fs (backup_path demo_time) = None" "fs_write_err key_fs keyPath = None"
    "fs_write_err key_fs old_path = None" "fs_read_err key_fs keyPath = None"
    by (simp_all add: key_fs_def)
  show ?thesis
    using backup_restores_key [OF key b r ok, of "Ok []", unfolded s] b r by blast
qed

text \<open>What a client gets of an answer: its body, or an error when the handler panics and the connection closes.\<close>

definition answered :: "http_response outcome \<Rightarrow> (string \<times> error option) outcome" where
  "answered r = (case r of Ok resp \<Rightarrow> Ok (resp_Body resp, None) | Err e \<Rightarrow> Err e | Panic e \<Rightarrow> Err (ErrorString ''EOF''))"

text \<open>
  C35. When the server asks for an admin token, \<^verbatim>\<open>logyctl rekey\<close> cannot rotate the key: the one request it makes
  (whatever client carries it, the command depends on no other) is refused by the admin server with 401,
  which changes neither the files nor the engine; carried to that server, the command prints the refusal
  and ends with exit status 0.
\<close>

theorem rekey_command_refused:
  assumes "token \<noteq> ''''"
  shows "\<exists>mthd url headers body resp.
    (\<forall>client. RekeyCommand client = RekeyCommand (\<lambda>_ _ _ _. client mthd url headers body))
    \<and> admin_request strict X rnd secs wok token fs c mthd url headers = (fs, c, Ok resp) \<and> resp_Status resp = 401
    \<and> RekeyCommand (\<lambda>m u h b. answered (snd (snd (admin_request strict X rnd secs wok token fs c m u h))))
        = (''Unauthorized'' @ nl @ nl, Return)
    \<and> status (snd (RekeyCommand (\<lambda>m u h b. answered (snd (snd (admin_request strict X rnd secs wok token fs c m u h)))))) = 0"
proof -
  let ?q = "admin_request strict X rnd secs wok token fs c ''POST'' ''http://localhost:9998/api/rekey'' [(''Content-Type'', ''application/json'')]"
  have q: "?q = (fs, c, Ok (http_error ''Unauthorized'' 401))"
    using assms by (simp add: admin_request_def admin_port_def admin_server_def HandleRekey_def)
  show ?thesis
    by (intro exI [of _ "''POST''"] exI [of _ "''http://localhost:9998/api/rekey''"]
        exI [of _ "[(''Content-Type'', ''application/json'')]"] exI [of _ "''''"] exI [of _ "http_error ''Unauthorized'' 401"])
      (simp add: RekeyCommand_def http_Post_def q answered_def http_error_def println_def say_def)
qed

theorem rekey_command_refused_witness:
  "RekeyCommand (\<lambda>m u h b. answered (snd (snd (admin_request True demo_env (Ok (replicate 32 9)) (\<lambda>n. show_nat (unat n)) (\<lambda>_. True) ''s3'' key_fs demo_engine m u h))))
     = (''Unauthorized'' @ nl @ nl, Return)"
  using rekey_command_refused [of "''s3''" True demo_env "Ok (replicate 32 9)" "\<lambda>n. show_nat (unat n)" "\<lambda>_. True" key_fs demo_engine] by auto

section \<open>Replay\<close>

text \<open>
  C34. A replay does not send what was recorded: the event is read without its parameters, so the body
  the command posts is always the text \<^verbatim>\<open>null\<close>, whatever the stored event holds; replacing the body in the
  client by that text changes nothing.
\<close>

theorem replay_posts_null:
  "ReplayCommand strict F badURL send elapsed dk args =
   ReplayCommand strict F badURL (\<lambda>url headers body. send url headers ''null'') elapsed dk args"
proof -
  have "Params e = None" if "GetEventByID strict d i = Ok e" for d i e
    using that by (auto simp: GetEventByID_def outcome_simps scan_row_def zero_event_def split: list.splits)
  then have body: "ignore_err (Marshal F (map_value (Params e))) = ''null''" if "GetEventByID strict d i = Ok e" for d i e
    using that by (simp add: ignore_err_def Marshal_def map_value_def)
  show ?thesis
    by (auto simp: ReplayCommand_def attempt_def Let_def body split: outcome.splits option.splits)
qed

section \<open>The evidence bag\<close>

text \<open>
  C17. What a bag holds that was reported as made. The manifest names the run that was asked for (or the one
  the database reports), with the statistics and the last hash of that run. If the deferred calls that
  finish the archive and close its file succeed, the archive has two entries, that manifest and the bytes of
  the database file once the database was open (not of its write-ahead log); the exception is an output path
  that names the database file itself, which is truncated before it is read. If one of those calls fails the
  export still reports success, and no archive is known to be there.
\<close>

theorem evidence_bag:
  assumes "ExportEvidenceBag strict F Z now dk zipPath target fs = (fs', bag, Ok ())"
  shows "\<exists>d man text n content. OpenDB dk = Ok d \<and> (if target = '''' then GetRunID d else Ok target) = Ok (em_RunID man)
    \<and> GetRunStats strict d (em_RunID man) = Ok (em_RunStats man)
    \<and> GetLastEvent strict d (em_RunID man) = Ok (n, em_LastHash man)
    \<and> MarshalIndent F (manifest_value man) = Ok text
    \<and> bag = (if ze_writer_close_err Z = None \<and> ze_file_close_err Z = None
             then Some [(''manifest.json'', text @ nl), (''logryph.db'', content)] else None)
    \<and> (ze_resolve Z zipPath \<noteq> ze_resolve Z ''logryph.db'' \<longrightarrow> ze_dbfile Z = Some content)
    \<and> (ze_resolve Z zipPath = ze_resolve Z ''logryph.db'' \<longrightarrow> content = ze_selfread Z (text @ nl)
         \<and> fs_files fs' (ze_resolve Z ''logryph.db'') = Some '''')"
proof -
  let ?db = "ze_resolve Z ''logryph.db''"
  let ?fs0 = "fs\<lparr>fs_files := (fs_files fs)(?db := ze_dbfile Z)\<rparr>"
  have "\<exists>d man b. OpenDB dk = Ok d \<and> bag_manifest strict now d target = Ok man
      \<and> WriteFile ?fs0 (ze_resolve Z zipPath) '''' = (fs', Ok ()) \<and> fill_bag F Z fs' zipPath man = (b, Ok ())
      \<and> bag = (if ze_writer_close_err Z = None \<and> ze_file_close_err Z = None then Some b else None)"
    using assms by (auto simp: ExportEvidenceBag_def close_bag_def outcome_simps Let_def prod_eq_iff
        split: outcome.splits prod.splits)
  then obtain d man b where d: "OpenDB dk = Ok d" and m: "bag_manifest strict now d target = Ok man"
    and w: "WriteFile ?fs0 (ze_resolve Z zipPath) '''' = (fs', Ok ())" and f: "fill_bag F Z fs' zipPath man = (b, Ok ())"
    and b: "bag = (if ze_writer_close_err Z = None \<and> ze_file_close_err Z = None then Some b else None)"
    by blast
  have fs': "fs' = ?fs0\<lparr>fs_files := (fs_files ?fs0)(ze_resolve Z zipPath \<mapsto> '''')\<rparr>"
    using w by (auto simp: WriteFile_def split: option.splits)
  then have r: "ze_resolve Z zipPath \<noteq> ?db \<Longrightarrow> ReadFile fs' ?db = Ok x \<Longrightarrow> ze_dbfile Z = Some x" for x
    by (auto simp: ReadFile_def split: option.splits if_splits)
  obtain tx content where "MarshalIndent F (manifest_value man) = Ok tx"
    "b = [(''manifest.json'', tx @ nl), (''logryph.db'', content)]"
    "ze_resolve Z zipPath \<noteq> ?db \<longrightarrow> ze_dbfile Z = Some content"
    "ze_resolve Z zipPath = ?db \<longrightarrow> content = ze_selfread Z (tx @ nl)"
    using f r by (auto simp: fill_bag_def outcome_simps Let_def split: option.splits outcome.splits if_splits)
  moreover have "(if target = '''' then GetRunID d else Ok target) = Ok (em_RunID man)
      \<and> GetRunStats strict d (em_RunID man) = Ok (em_RunStats man)
      \<and> (\<exists>n. GetLastEvent strict d (em_RunID man) = Ok (n, em_LastHash man))"
    using m by (auto simp: bag_manifest_def outcome_simps split: if_splits)
  moreover have "ze_resolve Z zipPath = ?db \<longrightarrow> fs_files fs' ?db = Some ''''" using fs' by simp
  ultimately show ?thesis using d b by blast
qed

definition bag_fs :: filesys where
  "bag_fs = \<lparr>fs_files = Map.empty, fs_read_err = (\<lambda>_. None), fs_write_err = (\<lambda>_. None)\<rparr>"

text \<open>Paths with a leading \<^verbatim>\<open>./\<close> name the same file as without it.\<close>

definition bag_env :: "error option \<Rightarrow> zip_env" where
  "bag_env e = \<lparr>ze_resolve = (\<lambda>p. if take 2 p = ''./'' then drop 2 p else p), ze_dbfile = Some ''SQLite'',
     ze_step_err = (\<lambda>_. None), ze_selfread = (\<lambda>_. ''''), ze_writer_close_err = e, ze_file_close_err = None\<rparr>"

lemma bag_made: "snd (snd (ExportEvidenceBag True demo_env (bag_env e) demo_time bare_disk path '''' bag_fs)) = Ok ()"
proof -
  have "\<exists>d. OpenDB bare_disk = Ok d \<and> (\<exists>man. bag_manifest True demo_time d '''' = Ok man \<and> is_ok (MarshalIndent demo_env (manifest_value man)))"
    by (simp add: bare_disk_def bag_manifest_def GetRunID_def query_ready_def order_desc_def GetRunStats_def finish_rows_def
        GetLastEvent_def run_rows_def risk_groups_def MarshalIndent_def Marshal_def manifest_value_def run_stats_value_def
        map_value_def count_type_def demo_time_valid)
  then obtain d man tx where m: "OpenDB bare_disk = Ok d" "bag_manifest True demo_time d '''' = Ok man"
    "MarshalIndent demo_env (manifest_value man) = Ok tx"
    by (auto simp: is_ok_iff)
  show ?thesis
    by (cases "ze_resolve (bag_env e) path = ''logryph.db''")
      (simp_all add: ExportEvidenceBag_def close_bag_def m WriteFile_def fill_bag_def ReadFile_def bag_fs_def bag_env_def Let_def)
qed

theorem evidence_bag_witness:
  "(\<exists>t. fst (snd (ExportEvidenceBag True demo_env (bag_env None) demo_time bare_disk ''bag.zip'' '''' bag_fs))
      = Some [(''manifest.json'', t), (''logryph.db'', ''SQLite'')])
   \<and> (\<exists>t. fst (snd (ExportEvidenceBag True demo_env (bag_env None) demo_time bare_disk ''./logryph.db'' '''' bag_fs))
      = Some [(''manifest.json'', t), (''logryph.db'', '''')])
   \<and> fst (snd (ExportEvidenceBag True demo_env (bag_env (Some (ErrorString ''disk full''))) demo_time bare_disk ''bag.zip'' '''' bag_fs)) = None"
proof -
  have made: "\<exists>fs' bag. ExportEvidenceBag True demo_env (bag_env e) demo_time bare_disk path '''' bag_fs = (fs', bag, Ok ())" for e path
    using bag_made [of e path] by (metis prod.collapse)
  obtain fs1 bag1 where b1: "ExportEvidenceBag True demo_env (bag_env None) demo_time bare_disk ''bag.zip'' '''' bag_fs = (fs1, bag1, Ok ())"
    using made by blast
  obtain fs2 bag2 where b2: "ExportEvidenceBag True demo_env (bag_env None) demo_time bare_disk ''./logryph.db'' '''' bag_fs = (fs2, bag2, Ok ())"
    using made by blast
  obtain fs3 bag3 where b3: "ExportEvidenceBag True demo_env (bag_env (Some (ErrorString ''disk full''))) demo_time bare_disk ''bag.zip'' '''' bag_fs
      = (fs3, bag3, Ok ())"
    using made by blast
  show ?thesis
    using evidence_bag [OF b1] evidence_bag [OF b2] evidence_bag [OF b3] b1 b2 b3
    by (auto simp: bag_env_def)
qed

end
