(* ===== verification/Worker_Drain.thy ===== *)
theory Worker_Drain
  imports Runs_Table
begin

text \<open>
  When a drain loop comes to its end. With assertions that return errors (\<^verbatim>\<open>assert.StrictMode\<close> unset) no step
  of processing over the SQLite store panics, so the loop returns whatever faults the database raises. With
  assertions that panic (the default) it returns when the database is up and the queued events pass the
  assertions.
\<close>

section \<open>Assertions that return errors\<close>

lemma bind_outcome_Panic_iff:
  "bind_outcome x f = Panic e \<longleftrightarrow> x = Panic e \<or> (\<exists>v. x = Ok v \<and> f v = Panic e)"
  by (cases x) auto

lemma Check_lenient_Panic [simp]: "Check False c msg \<noteq> Panic e"
  by (simp add: Check_def)

lemmas no_panic_simps = bind_outcome_Panic_iff wrap_err_Panic_iff

lemma query_ready_no_panic [simp]: "query_ready d \<noteq> Panic e" "exec_ready d \<noteq> Panic e"
  by (simp_all add: query_ready_def exec_ready_def split: option.splits)

lemma GetRunStats_lenient [simp]: "GetRunStats False d r \<noteq> Panic e"
  by (simp add: GetRunStats_def finish_rows_def no_panic_simps split: option.splits)

lemma GetLastEvent_lenient [simp]: "GetLastEvent False d r \<noteq> Panic e"
  by (simp add: GetLastEvent_def no_panic_simps split: list.splits)

lemma assign_lenient: "assignSequenceAndPrevHash False (sqlite_repo False X t) d r e \<noteq> (e', Panic x)"
  by (auto simp: assignSequenceAndPrevHash_def sqlite_repo_def Let_def no_panic_simps split: outcome.splits if_splits)

lemma InsertEvent_lenient: "InsertEvent False d row \<noteq> (d', Panic x)"
  by (auto simp: InsertEvent_def no_panic_simps split: outcome.splits if_splits)

lemma Marshal_no_panic: "Marshal F v \<noteq> Panic x"
  by (simp add: Marshal_def split: outcome.splits if_splits)

lemma StoreEvent_lenient: "StoreEvent False F d e \<noteq> (d', Panic x)"
  by (auto simp: StoreEvent_def no_panic_simps Marshal_no_panic InsertEvent_lenient split: outcome.splits)

lemma persist_lenient:
  assumes "crypto_ok X" and "signer_ok X (p_signer p)" and "event_ok e" and "ledger_ok X p d"
  shows "persistEvent False X (sqlite_repo False X t) p d e \<noteq> (d', e', Panic x)"
proof (cases "assignSequenceAndPrevHash False (sqlite_repo False X t) d (p_runID p) e")
  case (Pair e1 y)
  have store_field: "repo_StoreEvent (sqlite_repo False X t) = StoreEvent False X"
    by (simp add: sqlite_repo_def)
  show ?thesis
  proof (cases y)
    case (Ok u)
    have led: "store_inv d" "chain_from X (p_signer p) (p_runID p) zero_hash 0 (run_log X d (p_runID p))"
      using assms(4) by (simp_all add: ledger_ok_def)
    have e1: "e1 = e\<lparr>SeqIndex := of_nat (length (run_log X d (p_runID p))), RunID := p_runID p,
        PrevHash := tip zero_hash (run_log X d (p_runID p))\<rparr>"
      using sq.assign_Ok [OF led(1)] Pair Ok by simp
    have "length (PrevHash e1) = 64"
      using chain_tip_length [OF led(2)] by (simp add: e1 zero_hash_def)
    moreover have "event_ok e1" using assms(3) by (simp add: e1 event_ok_def)
    ultimately obtain e2 where "hashAndSignEvent False X (p_signer p) e1 = (e2, Ok ())"
      using hashAndSign_total [OF assms(1,2)] by blast
    then show ?thesis
      using StoreEvent_lenient [of X d e2] store_field
      by (auto simp: persistEvent_def Pair Ok Let_def split: prod.splits)
  qed (use Pair in \<open>auto simp: persistEvent_def assign_lenient\<close>)
qed

lemma PutEvent_lenient: "PutEvent False p ptr \<noteq> (q, Panic z)"
  by (cases ptr) (auto simp: PutEvent_def Let_def split: outcome.splits)

lemma create_lenient:
  assumes "crypto_ok X" and "signer_ok X (p_signer p)" and "ledger_ok X p d" and "clean_pools ps"
    and "valid_time (f_now fr)"
  shows "createTaskCompletionEvent False X (sqlite_repo False X t) p fr d ps task st \<noteq> (d', ps', Panic x)"
proof -
  obtain ps1 e where get: "GetEvent (f_pick fr) ps = (ps1, e)" by fastforce
  have "clean_event e" using GetEvent_clean [OF assms(4), of "f_pick fr"] by (simp add: get)
  then have "event_ok (completion_event fr e task st)" by (rule completion_event_ok(1) [OF _ assms(5)])
  note persist_lenient [OF assms(1,2) this assms(3)]
  then show ?thesis
    by (auto simp: createTaskCompletionEvent_def get no_panic_simps Let_def PutEvent_lenient
        split: outcome.splits prod.splits)
qed

lemma track_lenient:
  assumes "crypto_ok X" and "signer_ok X (p_signer p)" and "ledger_ok X p d" and "clean_pools ps"
    and "valid_time (f_now fr)"
  shows "trackTaskState False X (sqlite_repo False X t) fr p d ps e \<noteq> (p', d', ps', Panic x)"
  using create_lenient [OF assms]
  by (auto simp: trackTaskState_def Let_def split: outcome.splits prod.splits if_splits)

lemma ProcessEvent_lenient:
  assumes X: "crypto_ok X" "signer_ok X (p_signer p)" and e: "event_ok e" and d: "ledger_ok X p d"
    and ps: "clean_pools ps" and now: "valid_time (f_now fr)"
  shows "ProcessEvent False X (sqlite_repo False X t) fr p d ps (Some e) \<noteq> (p', d', ps', ptr, Panic x)"
proof -
  obtain d1 e1 y where per: "persistEvent False X (sqlite_repo False X t) p d e = (d1, e1, y)"
    by (metis prod_cases3)
  have "ledger_ok X p d1"
    using sq.persist_cases [unfolded sq_ledger, OF X e d per] by blast
  note track_lenient [OF X this ps now, of t e1]
  then show ?thesis
    using per persist_lenient [OF X e d, of t]
    by (auto simp: ProcessEvent_def Let_def split: outcome.splits prod.splits if_splits)
qed

lemma recordLatency_lenient: "recordLatency False v dur \<noteq> (u, Panic x)"
  by (cases "0 \<le> dur"; cases "dur = 0") (simp_all add: recordLatency_def Let_def)

lemma process_one_lenient:
  assumes X: "crypto_ok X" and w: "worker_ok X w" and q: "ring_list (w_ring w) = Some e # rest"
    and now: "valid_time (f_now fr)"
  shows "process_one False X (sqlite_repo False X t) fr dur w \<noteq> (w', Panic x)"
proof -
  obtain rb where rb: "Pop False (w_ring w) = (rb, Ok (Some e))"
    using Pop_item [of "w_ring w" "Some e" rest False] w q by (auto simp: worker_ok_def)
  obtain p where p: "w_processor w = Some p" "signer_ok X (p_signer p)" "ledger_ok X p (w_db w)" "event_ok e"
      "clean_pools (w_pools w)"
    using w q by (auto simp: worker_ok_def event_wf_def)
  obtain p1 d1 ps1 ptr y where pe: "ProcessEvent False X (sqlite_repo False X t) fr p (w_db w) (w_pools w) (Some e)
      = (p1, d1, ps1, ptr, y)"
    by (metis prod_cases5)
  have "\<not> (\<exists>z. y = Panic z)" using ProcessEvent_lenient [OF X p(2,4,3,5) now] pe by blast
  moreover have "ptr \<noteq> None"
    using pe by (auto simp: ProcessEvent_def Let_def split: outcome.splits prod.splits if_splits)
  ultimately show ?thesis
    by (cases y) (auto simp: process_one_def process_event_def rb p(1) pe Let_def deref_def no_panic_simps
        recordLatency_lenient PutEvent_lenient split: outcome.splits prod.splits)
qed

text \<open>A drain loop with a round for every queued event returns, without an error.\<close>

lemma drain_lenient:
  assumes X: "crypto_ok X" and now: "\<And>i. valid_time (f_now (fst (ins i)))"
  shows "worker_ok X w \<Longrightarrow> length (ring_list (w_ring w)) \<le> n \<Longrightarrow>
    \<exists>w'. drain_loop False X (sqlite_repo False X t) alone ins i n w = (w', Ok ())"
proof (induction n arbitrary: i w)
  case 0
  then show ?case by simp
next
  case (Suc n)
  have ring: "ring_inv (w_ring w)" using Suc.prems(1) by (simp add: worker_ok_def)
  show ?case
  proof (cases "ring_list (w_ring w)")
    case Nil
    then show ?thesis using IsEmpty_iff [OF ring] by simp
  next
    case (Cons ptr rest)
    obtain e where e: "ptr = Some e" using Suc.prems(1) Cons by (auto simp: worker_ok_def)
    obtain w1 y where one: "process_one False X (sqlite_repo False X t) (fst (ins i)) (snd (ins i)) w = (w1, y)"
      by fastforce
    note c = sq_process_one [OF X Suc.prems(1) Cons [unfolded e] now one]
    have "y \<noteq> Panic z" "y \<noteq> Err z" for z
      using process_one_lenient [OF X Suc.prems(1) Cons [unfolded e] now] process_one_no_err one by metis+
    then have y: "y = Ok True" using c by (cases y) auto
    have "length (ring_list (w_ring w1)) \<le> n" using c Cons Suc.prems(2) by simp
    then show ?thesis
      using Suc.IH [of w1 "Suc i"] c y one IsEmpty_iff [OF ring] Cons by simp
  qed
qed

section \<open>A queue that passes the assertions\<close>

text \<open>What writing one event does to the identifiers and to the state of the database.\<close>

definition adds :: "string \<Rightarrow> db \<Rightarrow> db \<Rightarrow> bool" where
  "adds i d d' \<longleftrightarrow> (db_up d' \<longleftrightarrow> db_up d) \<and> db_ids d' \<subseteq> insert i (db_ids d)"

lemma adds_refl [simp]: "adds i d d"
  by (auto simp: adds_def)

lemma StoreEvent_adds: "StoreEvent strict F d e = (d', r) \<Longrightarrow> adds (ID e) d d'"
  by (auto simp: StoreEvent_def InsertEvent_def row_of_def adds_def db_up_def db_ids_def split: outcome.splits)

lemma persist_adds:
  assumes "persistEvent strict X (sqlite_repo strict X t) p d e = (d', e', r)"
  shows "adds (ID e) d d'"
proof -
  have field: "repo_StoreEvent (sqlite_repo strict X t) = StoreEvent strict X" by (simp add: sqlite_repo_def)
  have "ID e' = ID e" using same_content_fields [OF persist_content [OF assms]] by simp
  then show ?thesis
    using assms StoreEvent_adds [of strict X d e']
    by (auto simp: persistEvent_def field Let_def split: prod.splits outcome.splits)
qed

lemma ProcessEvent_adds:
  assumes "ProcessEvent strict X (sqlite_repo strict X t) fr p d ps (Some e) = (p', d', ps', ptr, r)"
    and "\<not> isTerminalState (TaskState e)"
  shows "adds (ID e) d d'"
proof -
  obtain d1 e1 y where per: "persistEvent strict X (sqlite_repo strict X t) p d e = (d1, e1, y)"
    by (metis prod_cases3)
  have "TaskState e1 = TaskState e" using same_content_fields [OF persist_content [OF per]] by simp
  then have "d' = d1"
    using assms per
    by (auto simp: ProcessEvent_def trackTaskState_def Let_def split: outcome.splits prod.splits if_splits)
  then show ?thesis using persist_adds [OF per] by simp
qed

lemma process_one_adds:
  assumes "process_one strict X (sqlite_repo strict X t) fr dur w = (w', x)"
    and "ring_inv (w_ring w)" and "ring_list (w_ring w) = Some e # rest" and "\<not> isTerminalState (TaskState e)"
  shows "adds (ID e) (w_db w) (w_db w')"
proof -
  let ?R = "sqlite_repo strict X t"
  obtain rb where pop: "Pop strict (w_ring w) = (rb, Ok (Some e))"
    using Pop_item [OF assms(2,3), of strict] by blast
  obtain w1 ptr1 y where pe: "process_event strict X ?R fr (w\<lparr>w_ring := rb\<rparr>) (Some e) = (w1, ptr1, y)"
    by (metis prod_cases3)
  have "adds (ID e) (w_db w) (w_db w1)"
    using pe ProcessEvent_adds [OF _ assms(4)] by (auto simp: process_event_def split: option.splits prod.splits)
  then show ?thesis
    using assms(1) by (auto simp: process_one_def pop pe Let_def deref_def split: outcome.splits prod.splits option.splits
        dest!: latency_keeps_db)
qed

text \<open>
  The queued events have identifiers of their own, at most 256 fields, and close no task; the database
  is up and the run has room for them.
\<close>

definition drainable :: "crypto_env \<Rightarrow> db worker \<Rightarrow> bool" where
  "drainable X w \<longleftrightarrow> db_up (w_db w) \<and> w_runID w \<noteq> ''''
     \<and> length (run_log X (w_db w) (w_runID w)) + 2 * length (ring_list (w_ring w)) < 2 ^ 63
     \<and> distinct (map ID (map the (ring_list (w_ring w))))
     \<and> (\<forall>e. Some e \<in> set (ring_list (w_ring w)) \<longrightarrow> ID e \<noteq> '''' \<and> ID e \<notin> db_ids (w_db w)
          \<and> go_len (Params e) \<le> 256 \<and> go_len (Response e) \<le> 256 \<and> \<not> isTerminalState (TaskState e))"

lemma drainable_step:
  assumes X: "crypto_ok X" and w: "worker_ok X w" "drainable X w" and q: "ring_list (w_ring w) = Some e # rest"
    and now: "valid_time (f_now fr)" and dur: "0 \<le> dur"
  shows "\<exists>w'. process_one strict X (sqlite_repo strict X t) fr dur w = (w', Ok True) \<and> worker_ok X w'
    \<and> drainable X w' \<and> ring_list (w_ring w') = rest \<and> w_unhealthy w' = w_unhealthy w"
proof -
  obtain p where p: "w_processor w = Some p" using w(1) by (auto simp: worker_ok_def)
  have e: "ID e \<noteq> ''''" "ID e \<notin> db_ids (w_db w)" "go_len (Params e) \<le> 256" "go_len (Response e) \<le> 256"
    "\<not> isTerminalState (TaskState e)" and up: "db_up (w_db w)" "w_runID w \<noteq> ''''"
    and room: "length (run_log X (w_db w) (w_runID w)) + 2 * Suc (length rest) < 2 ^ 63"
    and dist: "ID e \<notin> set (map ID (map the rest))" "distinct (map ID (map the rest))"
    using w(2) q by (auto simp: drainable_def simp del: ring_list_length)
  have "\<not> closes (p_taskStates p) e" using e(5) by (simp add: closes_def)
  moreover have "length (run_log X (w_db w) (w_runID w)) < 2 ^ 63" using room by simp
  ultimately obtain w' where w': "process_one strict X (sqlite_repo strict X t) fr dur w = (w', Ok True)"
    "w_unhealthy w' = w_unhealthy w"
    using sq.process_one_total [unfolded sq_winv, OF X w(1) up(1) q now dur e(1,2) up(2) _ e(3,4) p] by blast
  note c = sq_process_one [OF X w(1) q now w'(1)]
  obtain es where es: "grows X (w_runID w) es (w_db w) (w_db w')" "length es \<le> 2" using c by blast
  have "adds (ID e) (w_db w) (w_db w')"
    using process_one_adds [OF w'(1) _ q e(5)] w(1) by (simp add: worker_ok_def)
  then have a: "db_up (w_db w')" "db_ids (w_db w') \<subseteq> insert (ID e) (db_ids (w_db w))" using up by (simp_all add: adds_def)
  have rest: "ID f \<noteq> ID e \<and> ID f \<notin> db_ids (w_db w) \<and> ID f \<noteq> '''' \<and> go_len (Params f) \<le> 256
      \<and> go_len (Response f) \<le> 256 \<and> \<not> isTerminalState (TaskState f)" if f: "Some f \<in> set rest" for f
  proof -
    have "ID f \<in> set (map ID (map the rest))" using f by force
    then have "ID f \<noteq> ID e" using dist(1) by metis
    then show ?thesis using w(2) q f by (simp add: drainable_def)
  qed
  have "length (run_log X (w_db w') (w_runID w)) + 2 * length rest < 2 ^ 63"
    using es room by (simp add: grows_def)
  moreover have "ring_list (w_ring w') = rest" "w_runID w' = w_runID w" using c by blast+
  ultimately have "drainable X w'"
    unfolding drainable_def using a up(2) rest dist(2) by (auto simp del: ring_list_length)
  then show ?thesis using w' c by blast
qed

lemma drain_passes:
  assumes X: "crypto_ok X" and ins: "\<And>i. valid_time (f_now (fst (ins i)))" "\<And>i. 0 \<le> snd (ins i)"
  shows "worker_ok X w \<Longrightarrow> drainable X w \<Longrightarrow> length (ring_list (w_ring w)) \<le> n \<Longrightarrow>
    \<exists>w'. drain_loop strict X (sqlite_repo strict X t) alone ins i n w = (w', Ok ()) \<and> w_unhealthy w' = w_unhealthy w"
proof (induction n arbitrary: i w)
  case 0
  then show ?case by simp
next
  case (Suc n)
  have ring: "ring_inv (w_ring w)" using Suc.prems(1) by (simp add: worker_ok_def)
  show ?case
  proof (cases "ring_list (w_ring w)")
    case Nil
    then show ?thesis using IsEmpty_iff [OF ring] by simp
  next
    case (Cons ptr rest)
    obtain e where e: "ptr = Some e" using Suc.prems(1) Cons by (auto simp: worker_ok_def)
    obtain w1 where w1: "process_one strict X (sqlite_repo strict X t) (fst (ins i)) (snd (ins i)) w = (w1, Ok True)"
      "worker_ok X w1" "drainable X w1" "ring_list (w_ring w1) = rest" "w_unhealthy w1 = w_unhealthy w"
      using drainable_step [OF X Suc.prems(1,2) Cons [unfolded e] ins] by blast
    have "length (ring_list (w_ring w1)) \<le> n" using w1(4) Cons Suc.prems(3) by simp
    then show ?thesis
      using Suc.IH [OF w1(2,3), of "Suc i"] w1(1,5) IsEmpty_iff [OF ring] Cons by simp
  qed
qed

end
