(* ===== verification/Server_Properties.thy ===== *)
theory Server_Properties
  imports Server_Main Worker_Drain Runs_Table Service_Properties
begin

text \<open>
  The life of the server process: it comes up with a ledger that audits, it answers a redacted call, and
  it goes down without losing what is queued.
\<close>

section \<open>Coming up\<close>

lemma FetchBitcoinAnchor_no_panic:
  assumes "\<And>u. \<not> is_panic (get u)"
  shows "\<not> is_panic (FetchBitcoinAnchor get now)"
proof -
  have g: "get u \<noteq> Panic e" for u e using assms [of u] by auto
  have d: "decode_uint64 b \<noteq> Panic e" "fscan_word b \<noteq> Panic e" "closeBody r cx \<noteq> Panic e"
    "fail_close r cx m x \<noteq> (Panic e :: 'b outcome)" for b e r cx m x
    by (auto simp: decode_uint64_def fscan_word_def closeBody_def fail_close_def Let_def
        split: option.splits list.splits outcome.splits)
  have f: "fail_close r cx m x \<noteq> Panic e" for r cx m x e
    by (simp add: fail_close_def split: outcome.splits)
  show ?thesis
    by (auto simp: is_panic_iff FetchBitcoinAnchor_def no_panic_simps g d f Let_def split: outcome.splits if_splits)
qed

lemma new_buffer_empty:
  "new_buffer strict None 1000 = Ok rb \<Longrightarrow> ring_inv rb \<and> ring_list rb = []"
  by (auto simp: new_buffer_def ring_inv_def ring_list_def)

lemma NewWorker_unstarted:
  assumes s: "NewSigner X fs rnd ''.logryph_key'' = (fs1, Ok s)" "signer_ok X s" and ps: "clean_pools ps"
    and d: "OpenDB (good_disk [] []) = Ok d"
  shows "\<exists>w. NewWorker strict X fs rnd 1000 (Some d) ''.logryph_key'' ps = (fs1, Ok w) \<and> unstarted X w
    \<and> db_up (w_db w) \<and> \<not> w_unhealthy w"
proof -
  obtain rb :: "event option buffer" where rb: "new_buffer strict None 1000 = Ok rb"
    by (simp add: new_buffer_def)
  have "store_inv d" "db_up d" "db_runs d = []" "db_events d = []"
    using d by (auto simp: store_inv_def db_up_def run_rows_def)
  then show ?thesis
    using s ps rb new_buffer_empty [OF rb] by (auto simp: NewWorker_def unstarted_def)
qed

lemma unstarted_mode: "unstarted X w \<Longrightarrow> unstarted X (w\<lparr>w_mode := m\<rparr>)"
  by (simp add: unstarted_def)

lemma start_worker_runs:
  assumes X: "crypto_ok X" and w: "unstarted X w" "db_up (w_db w)"
    and fl: "flag_string flags ''backpressure'' = (if blocking then ''block'' else ''drop'')"
    and url: "se_badURL E (flag_string flags ''target'') = None"
    and now: "valid_time (f_now (se_fresh E))" and ids: "f_uuid (se_fresh E) \<noteq> ''''" "se_uuid E \<noteq> ''''"
    and pick: "f_pick (se_fresh E) = None" and get: "\<And>u. \<not> is_panic (se_get E u)"
  shows "\<exists>w'. start_worker strict X E flags obs w = Running \<lparr>sv_engine = NewEngine w' (Some obs),
        sv_port = flag_int flags ''port'', sv_target = flag_string flags ''target''\<rparr>
    \<and> worker_ok X w' \<and> w_runID w' = se_uuid E \<and> db_up (w_db w') \<and> w_signer w' = w_signer w
    \<and> w_unhealthy w' = w_unhealthy w
    \<and> (\<exists>g. run_log X (w_db w') (se_uuid E) = [g] \<and> EventType g = ''genesis'')"
proof -
  let ?m = "if blocking then BackpressureBlock else BackpressureDrop"
  let ?w = "w\<lparr>w_mode := ?m\<rparr>"
  let ?a = "FetchBitcoinAnchor (se_get E) (f_now (se_fresh E))"
  have a: "\<forall>a. ?a = Ok a \<longrightarrow> valid_time (an_Timestamp a)" "\<not> is_panic ?a"
    using FetchBitcoinAnchor_Ok now FetchBitcoinAnchor_no_panic [OF get] by auto
  obtain w' where s: "Start strict X (sqlite_repo strict X (se_now E)) (se_fresh E) (se_uuid E) ?a ?w = (w', Ok ())"
    using start_total [OF X unstarted_mode [OF w(1), of ?m] _ now a ids pick, of strict "se_now E"] w(2) by auto
  note g = start_genesis [OF X unstarted_mode [OF w(1)] now a(1) s]
  have "choose_mode strict (flag_string flags ''backpressure'') w k = k ?w" for k
    using fl by (simp add: choose_mode_def SetBackpressureMode_def boot_def)
  then have "start_worker strict X E flags obs w = Running \<lparr>sv_engine = NewEngine w' (Some obs),
        sv_port = flag_int flags ''port'', sv_target = flag_string flags ''target''\<rparr>"
    using s url by (simp add: start_worker_def boot_def)
  moreover have "db_up (w_db w')" using g w(2) by simp
  ultimately show ?thesis using g by auto
qed

text \<open>
  C8. On an empty database and with usable settings the process comes up: it serves with a healthy
  worker whose ledger holds exactly the genesis event of the new run, signed with the key of the key file,
  and the audit of that ledger succeeds.
\<close>

theorem service_starts:
  assumes "crypto_ok (X :: crypto_env)" and "parse_flags server_flags args = Parsed flags" and "flag_string flags ''target'' \<noteq> ''''"
    and "0 < flag_int flags ''port''"
    and "flag_string flags ''backpressure'' = (if blocking then ''block'' else ''drop'')"
    and "se_badURL E (flag_string flags ''target'') = None"
    and "NewObserverEngine strict (se_absPath E) (se_yaml E) fs (flag_string flags ''config'') = Ok obs"
    and "se_disk E = good_disk [] []" and "NewSigner X fs (se_random E) ''.logryph_key'' = (fs1, Ok s)"
    and "signer_ok X s" and "clean_pools ps" and "valid_time (f_now (se_fresh E))"
    and "f_uuid (se_fresh E) \<noteq> ''''" and "se_uuid E \<noteq> ''''" and "f_pick (se_fresh E) = None"
    and "\<And>u. \<not> is_panic (se_get E u)"
  shows "\<exists>w g. start_service strict X E ps args fs = (fs1, Running \<lparr>sv_engine = NewEngine w (Some obs),
        sv_port = flag_int flags ''port'', sv_target = flag_string flags ''target''\<rparr>)
    \<and> IsHealthy w \<and> w_signer w = s \<and> run_log X (w_db w) (se_uuid E) = [g] \<and> EventType g = ''genesis''
    \<and> VerifyChain strict X (GetAllEvents strict X (w_db w)) (se_uuid E) s =
        Ok \<lparr>Valid = True, TotalEvents = 1, ErrorMessage = '''', FailedAtSeq = 0\<rparr>"
proof -
  obtain d where d: "OpenDB (good_disk [] []) = Ok d" by simp
  from NewWorker_unstarted [OF assms(9-11) d, of strict]
  obtain w where w: "NewWorker strict X fs (se_random E) 1000 (Some d) ''.logryph_key'' ps = (fs1, Ok w)"
    "unstarted X w" "db_up (w_db w)" "\<not> w_unhealthy w" by blast
  have ws: "w_signer w = s" using w(1) assms(9) by (auto simp: NewWorker_def outcome_simps)
  from start_worker_runs [OF assms(1) w(2,3) assms(5,6,12,13,14,15,16), of strict obs]
  obtain w' g where r: "start_worker strict X E flags obs w = Running \<lparr>sv_engine = NewEngine w' (Some obs),
        sv_port = flag_int flags ''port'', sv_target = flag_string flags ''target''\<rparr>"
    "worker_ok X w'" "w_runID w' = se_uuid E" "db_up (w_db w')" "w_signer w' = s" "\<not> w_unhealthy w'"
    "run_log X (w_db w') (se_uuid E) = [g]" "EventType g = ''genesis''"
    using w(4) ws by metis
  have "start_service strict X E ps args fs = (fs1, Running \<lparr>sv_engine = NewEngine w' (Some obs),
        sv_port = flag_int flags ''port'', sv_target = flag_string flags ''target''\<rparr>)"
    using assms(2,3,4,7,8) d w(1) r(1) by (simp add: start_service_def boot_def)
  moreover obtain p where p: "p_signer p = s" "p_runID p = se_uuid E" "ledger_ok X p (w_db w')"
    using r(2,3,5) by (auto simp: worker_ok_def)
  moreover have "VerifyChain strict X (GetAllEvents strict X (w_db w')) (se_uuid E) s =
        Ok \<lparr>Valid = True, TotalEvents = 1, ErrorMessage = '''', FailedAtSeq = 0\<rparr>"
    using ledger_audit [OF p(3) r(4), of strict] p(1,2) assms(14) r(7) by simp
  ultimately show ?thesis using r by (auto simp: IsHealthy_def)
qed

definition start_fs :: filesys where
  "start_fs = \<lparr>fs_files = [''.logryph_key'' \<mapsto> hex_encode (replicate 64 7), ''logryph-policy.yaml'' \<mapsto> ''1''],
     fs_read_err = (\<lambda>_. None), fs_write_err = (\<lambda>_. None)\<rparr>"

definition demo_start_env :: start_env where
  "demo_start_env = \<lparr>se_absPath = Ok, se_yaml = demo_yaml, se_disk = good_disk [] [], se_random = Ok [],
     se_fresh = demo_fresh, se_uuid = ''run-00000001'', se_get = (\<lambda>_. Err (ErrorString ''offline'')), se_now = 0,
     se_badURL = (\<lambda>_. None)\<rparr>"

theorem service_starts_witness:
  "\<exists>fs1 sv g. start_service True demo_env demo_start_env empty_pools [''-backpressure'', ''block''] start_fs = (fs1, Running sv)
    \<and> IsHealthy (c_Worker (sv_engine sv)) \<and> sv_port sv = 9999
    \<and> run_log demo_env (w_db (c_Worker (sv_engine sv))) ''run-00000001'' = [g] \<and> EventType g = ''genesis''"
proof -
  let ?flags = "[(''config'', FString ''logryph-policy.yaml''), (''target'', FString ''http://localhost:8080''),
      (''port'', FInt 9999), (''backpressure'', FString ''block'')]"
  let ?obs = "\<lparr>o_config = (o_config demo_observer)\<lparr>Version := ''1''\<rparr>, o_configPath = ''logryph-policy.yaml'', o_stopped = False\<rparr>"
  have fl: "parse_flags server_flags [''-backpressure'', ''block''] = Parsed ?flags"
    by (simp add: server_flags_def) code_simp
  have v: "flag_string ?flags ''target'' \<noteq> ''''" "0 < flag_int ?flags ''port''"
    "flag_string ?flags ''backpressure'' = (if True then ''block'' else ''drop'')"
    "flag_int ?flags ''port'' = 9999" "flag_string ?flags ''config'' = ''logryph-policy.yaml''"
    by (simp_all add: flag_string_def flag_int_def)
  have o: "NewObserverEngine True (se_absPath demo_start_env) (se_yaml demo_start_env) start_fs
      (flag_string ?flags ''config'') = Ok ?obs"
    by (simp add: v(5) NewObserverEngine_def loadConfig_def ReadFile_def start_fs_def demo_start_env_def demo_yaml_def)
  have k: "length (replicate 64 (7 :: byte)) = 64" by simp
  have s: "NewSigner demo_env start_fs (se_random demo_start_env) ''.logryph_key'' = (start_fs, Ok demo_signer)"
    by (simp add: NewSigner_def loadPrivateKey_def ReadFile_def start_fs_def hex_decode_encode demo_signer_def)
  have e: "se_badURL demo_start_env (flag_string ?flags ''target'') = None" "se_disk demo_start_env = good_disk [] []"
    "valid_time (f_now (se_fresh demo_start_env))" "f_uuid (se_fresh demo_start_env) \<noteq> ''''"
    "se_uuid demo_start_env \<noteq> ''''" "f_pick (se_fresh demo_start_env) = None" "\<And>u. \<not> is_panic (se_get demo_start_env u)"
    by (simp_all add: demo_start_env_def demo_fresh_facts)
  from service_starts [OF demo_ok fl v(1-3) e(1) o e(2) s demo_signer_ok empty_pools_clean e(3-7)]
  show ?thesis using v(4) by (auto simp: demo_start_env_def NewEngine_def)
qed

section \<open>A redacted call\<close>

text \<open>
  C33. A call whose redaction changes the length of the body: what is handed to the round trip to the tool
  server is the redacted body with the length of the original still declared, and nothing else of the
  round trip matters to the answer; where the round trip fails on it, as it does in \<^verbatim>\<open>net/http\<close> when a body is
  not of the declared length, the client gets 502. The event of the call is queued for the ledger either
  way.
\<close>

theorem redacted_call_mismatch:
  assumes "crypto_ok X" and "worker_ok X w0" and "w_stopped w0 \<longrightarrow> w_closing w0"
    and "worker_run strict X w0 acc han (c_Worker c)" and "accepts (c_Worker c)" and "buffers_ok (c_pools c)"
    and "strings_only (c_LastEventByTask c)" and "valid_time (f_now fr)"
    and "req_Method req = ''POST''" and "req_Body req = Stream cs None" and "req_ContentLength req = int (length (concat cs))"
    and "extractTaskMetadata strict X (concat cs) = Ok (q, t, m)"
    and "evaluatePolicy strict X M (c_Observer c) m (rq_Params q) = Ok (ActionRedact, Some r)"
    and "policyIDOrEmpty strict (Some r) = Ok i" and "riskLevelOrEmpty strict (Some r) = Ok l"
    and "redactSensitiveData strict X (concat cs) (Redact r) = Ok s" and "length s \<noteq> length (concat cs)"
  shows "\<exists>c1 e. worker_run strict X w0 (acc @ [e]) han (c_Worker c1) \<and> Params e = rq_Params q \<and>
    (\<forall>rt. serve_proxy strict X M alone id (bpick, fr) inResp sz meanwhile rt c req =
            serve_proxy strict X M alone id (bpick, fr) inResp sz meanwhile
              (\<lambda>_ _ _. rt ''POST'' (int (length (concat cs))) ([s], None)) c req
        \<and> (\<forall>x. rt ''POST'' (int (length (concat cs))) ([s], None) = Err x \<longrightarrow>
            serve_proxy strict X M alone id (bpick, fr) inResp sz meanwhile rt c req = (meanwhile c1, Ok bad_gateway)))"
proof -
  obtain c1 req1 x where i: "InterceptRequest strict X M alone id bpick sz fr c req = (c1, req1, x)"
    by (metis prod_cases3)
  have red: "ActionRedact = ActionRedact \<and> Some r \<noteq> None \<longrightarrow> redactSensitiveData strict X (concat cs) (Redact (the (Some r))) = Ok s"
    using assms(16) by simp
  note st = request_step [OF assms(1-4,6-10,12-15) red i]
  have b: "req_Body req1 = Bytes s" and x: "x = Ok ()" using st by simp_all
  have len: "req_ContentLength req1 = req_ContentLength req" "req_Method req1 = ''POST''"
    using InterceptRequest_body [OF assms(6) _ i assms(9), of cs] assms(10) by simp_all
  have "concat cs \<noteq> []"
    using assms(12) by (auto simp: extractTaskMetadata_def outcome_simps)
  then have out: "outgoing p req1 = ([s], None)" for p
    using len(1) assms(11) by (simp add: outgoing_def b)
  obtain e where e: "worker_run strict X w0 (acc @ [e]) han (c_Worker c1)" "Params e = rq_Params q"
    using st assms(5) by (auto simp: tool_call_fields)
  have "serve_proxy strict X M alone id (bpick, fr) inResp sz meanwhile rt c req =
            serve_proxy strict X M alone id (bpick, fr) inResp sz meanwhile
              (\<lambda>_ _ _. rt ''POST'' (int (length (concat cs))) ([s], None)) c req
        \<and> (\<forall>x. rt ''POST'' (int (length (concat cs))) ([s], None) = Err x \<longrightarrow>
            serve_proxy strict X M alone id (bpick, fr) inResp sz meanwhile rt c req = (meanwhile c1, Ok bad_gateway))" for rt
    using len out assms(11) by (simp add: serve_proxy_def i x Let_def)
  then show ?thesis using e by blast
qed

lemma demo_redacted_length:
  assumes "redactSensitiveData True demo_env demo_body [''card''] = Ok s"
  shows "length s \<noteq> length demo_body"
proof -
  let ?q = "demo_request\<lparr>rq_Params := Some [(''card'', GStr ''[REDACTED]''), (''task_id'', GStr ''t1'')]\<rparr>"
  have "redact_loop [''card''] (rq_Params demo_request) = rq_Params ?q"
    by (simp add: demo_request_def demo_params_def)
  then have "MarshalRequest demo_env ?q = Ok s"
    using assms
    by (simp add: redactSensitiveData_def demo_body_nonempty demo_decodes maxRedactKeys_def maxParams_def outcome_simps
        del: redact_loop.simps split: if_splits)
  moreover have "MarshalRequest demo_env ?q = Ok (enc demo_env (GMap (request_members ?q)))"
    by (rule MarshalRequest_ok) (use demo_request_ok in
        \<open>simp add: to_valid_redacted request_ok_def demo_request_def demo_params_def map_ok_def map_value_def max_nesting_def gm_wf_def less_char_def\<close>)
  moreover have "length (enc demo_env (GMap (request_members ?q))) \<noteq> length demo_body"
    unfolding demo_body_def demo_request_def demo_params_def by code_simp
  ultimately show ?thesis by simp
qed

text \<open>A round trip that refuses a body of another length than the declared one, and echoes otherwise.\<close>

definition strict_echo :: round_trip where
  "strict_echo mthd n body =
     (if int (length (concat (fst body))) \<noteq> n then Err (ErrorString ''http: ContentLength'') else Ok (200, fst body))"

theorem redacted_call_mismatch_witness:
  "\<exists>c1 e. serve_proxy True demo_env demo_fmt alone id (None, demo_fresh) (None, demo_fresh) id id strict_echo demo_engine demo_post
      = (c1, Ok bad_gateway)
    \<and> worker_run True demo_env demo_started [e] [] (c_Worker c1) \<and> Params e = Some demo_params"
proof -
  obtain s where s: "redactSensitiveData True demo_env demo_body [''card''] = Ok s" using demo_redacts by blast
  have s': "redactSensitiveData True demo_env (concat [demo_body]) (Redact demo_rule) = Ok s"
    "length s \<noteq> length (concat [demo_body])" "req_ContentLength demo_post = int (length (concat [demo_body]))"
    using s demo_redacted_length [OF s] by (simp_all add: demo_rule_def demo_post_def)
  have rt: "strict_echo ''POST'' (int (length (concat [demo_body]))) ([s], None) = Err (ErrorString ''http: ContentLength'')"
    using s'(2) by (simp add: strict_echo_def)
  have stop: "w_stopped demo_started \<longrightarrow> w_closing demo_started" using demo_started_ok(4) by simp
  from redacted_call_mismatch [OF demo_ok demo_started_ok(1) stop demo_engine_run demo_engine_facts(2) demo_buffers
      demo_engine_facts(1) demo_fresh_facts(1) demo_post_facts s'(3) demo_extract demo_policy demo_rule_ids s'(1,2),
      of None "(None, demo_fresh)" id id]
  obtain c1 e where c: "worker_run True demo_env demo_started ([] @ [e]) [] (c_Worker c1)" "Params e = rq_Params demo_request"
    "\<forall>x. strict_echo ''POST'' (int (length (concat [demo_body]))) ([s], None) = Err x \<longrightarrow>
       serve_proxy True demo_env demo_fmt alone id (None, demo_fresh) (None, demo_fresh) id id strict_echo demo_engine demo_post
         = (id c1, Ok bad_gateway)"
    by blast
  then show ?thesis using rt by (auto simp: demo_request_def)
qed

section \<open>Going down\<close>

text \<open>
  C7. Shutdown ends and loses nothing that is queued. Let the goroutines end within the waiting time and
  nobody else touch the worker during the drain. Then the drain stops by itself before its bound, the call
  returns, also when closing the database fails, the ring is empty, every event that was queued has been
  processed and counted, none is counted as dropped, the run only grew and the database is closed. If the
  worker is healthy in the end, what the run grew by is the record of exactly the queued events, in order
  and with the completion entries due (\<open>recorded\<close>); and it is healthy in the end if it was so before and the
  database is up and the queued events pass the assertions (\<open>drainable\<close>). With assertions that return errors
  the shutdown returns whatever the database answers; with assertions that panic it does when the queue is
  \<open>drainable\<close>.
\<close>

theorem shutdown_drains:
  assumes "crypto_ok X" and "0 < timeout"
    and "w1 = meanwhile ((c_Worker (draining c))\<lparr>w_closing := True, w_stopped := True\<rparr>)" and "worker_ok X w1"
    and "Cap (w_ring w1) \<le> int maxDrainEvents" and "\<And>i. valid_time (f_now (fst (ins i)))" and "\<And>i. 0 \<le> snd (ins i)"
    and "strict \<longrightarrow> drainable X w1" and "k < maxShutdownTicks"
  shows "\<exists>c' es. gracefulShutdown strict X (sqlite_repo strict X t) alone ins (Some k) meanwhile draining timeout c = (c', Ok ())
    \<and> ring_list (w_ring (c_Worker c')) = []
    \<and> w_processed (c_Worker c') = w_processed w1 + of_nat (length (ring_list (w_ring w1)))
    \<and> w_dropped (c_Worker c') = w_dropped w1
    \<and> run_log X (w_db (c_Worker c')) (w_runID w1) = run_log X (w_db w1) (w_runID w1) @ es
    \<and> (IsHealthy (c_Worker c') \<longrightarrow> recorded strict X (open_tasks w1) (queued w1) es)
    \<and> (IsHealthy w1 \<longrightarrow> drainable X w1 \<longrightarrow> IsHealthy (c_Worker c'))
    \<and> \<not> db_open (w_db (c_Worker c'))"
proof -
  let ?R = "sqlite_repo strict X t"
  have ring: "ring_inv (w_ring w1)" using assms(4) by (simp add: worker_ok_def)
  then have len: "length (ring_list (w_ring w1)) \<le> maxDrainEvents"
    using assms(5) by (auto simp: ring_inv_def Cap_def)
  note pass = drain_passes [of X ins w1, OF assms(1,6,7,4) _ len, of strict t 0]
  have "\<exists>w2. drain_loop strict X ?R alone ins 0 maxDrainEvents w1 = (w2, Ok ())"
  proof (cases strict)
    case True
    then show ?thesis using pass assms(8) by blast
  next
    case False
    then show ?thesis using drain_lenient [of X ins, OF assms(1,6,4) len] by simp
  qed
  then obtain w2 where d: "drain_loop strict X ?R alone ins 0 maxDrainEvents w1 = (w2, Ok ())" by blast
  have healthy: "\<not> w_unhealthy w2" if "\<not> w_unhealthy w1" "drainable X w1" using pass that d by auto
  note c = sq.drain_cases [unfolded sq_winv sq_extends, of X ins, OF assms(1,6,4) len d]
  obtain es where es: "grows X (w_runID w1) es (w_db w1) (w_db w2)"
    "\<not> w_unhealthy w2 \<longrightarrow> recorded strict X (open_tasks w1) (queued w1) es" using c by blast
  have stop: "\<exists>v. waitForStop strict timeout (Some k) = v \<and> (\<forall>z. v \<noteq> Panic z)"
    using assms(2) pos_imp_zdiv_nonneg_iff [of "int maxShutdownTicks" timeout]
    by (auto simp: waitForStop_def no_panic_simps Let_def Check_def maxShutdownTicks_def split: option.splits)
  let ?c = "draining c"
  let ?w3 = "w2\<lparr>w_db := (w_db w2)\<lparr>db_open := False\<rparr>\<rparr>"
  have "\<exists>r. Shutdown strict X ?R alone ins (Some k) meanwhile timeout (c_Worker ?c) = (?w3, r) \<and> (\<forall>z. r \<noteq> Panic z)"
    using stop d assms(2,5)
    by (auto simp: Shutdown_def drainBuffer_def Let_def sqlite_repo_def CloseDB_def simp flip: assms(3)
        split: outcome.splits option.splits)
  then have g: "gracefulShutdown strict X ?R alone ins (Some k) meanwhile draining timeout c
      = (?c\<lparr>c_Observer := map_option (\<lambda>o'. fst (StopWatch o')) (c_Observer ?c), c_Worker := ?w3\<rparr>, Ok ())"
    using assms(2) by (auto simp: gracefulShutdown_def Let_def split: outcome.splits)
  have "run_log X (w_db ?w3) = run_log X (w_db w2)"
    by (rule db_fault_view(1)) (simp add: db_fault_def)
  then have "run_log X (w_db ?w3) (w_runID w1) = run_log X (w_db w1) (w_runID w1) @ es"
    using es(1) by (simp add: grows_def)
  then show ?thesis using g c es(2) healthy by (auto simp: IsHealthy_def intro!: exI [of _ es])
qed

theorem shutdown_drains_witness:
  "\<exists>c' a. gracefulShutdown True demo_env (sqlite_repo True demo_env 0) alone (\<lambda>_. (demo_fresh, 5)) (Some 3) id id shutdownTimeout
      (NewEngine demo_queued (Some demo_observer)) = (c', Ok ())
    \<and> ring_list (w_ring (c_Worker c')) = [] \<and> w_processed (c_Worker c') = w_processed demo_queued + 1
    \<and> IsHealthy (c_Worker c') \<and> same_content demo_event a
    \<and> run_log demo_env (w_db (c_Worker c')) ''run-1'' = run_log demo_env (w_db demo_queued) ''run-1'' @ [norm_event demo_env a]
    \<and> \<not> db_open (w_db (c_Worker c'))"
proof -
  let ?w = "demo_queued\<lparr>w_closing := True, w_stopped := True\<rparr>"
  have w: "?w = id ((c_Worker (id (NewEngine demo_queued (Some demo_observer))))\<lparr>w_closing := True, w_stopped := True\<rparr>)"
    by (simp add: NewEngine_def)
  have ok: "worker_ok demo_env ?w" using demo_queued_ok(1) by (simp add: worker_ok_def)
  have "bcapacity (w_ring demo_queued) = 2"
    using Submit_accepts [OF _ demo_accepts demo_started_ok(4), of True demo_event] demo_started_ok(1,3)
    by (auto simp: demo_queued_def worker_ok_def demo_worker_def)
  then have cap: "Cap (w_ring ?w) \<le> int maxDrainEvents" by (simp add: Cap_def maxDrainEvents_def)
  have now: "\<And>i. valid_time (f_now (fst (demo_fresh, 5 :: int)))" by (simp add: demo_fresh_facts)
  have t: "0 < shutdownTimeout" by (simp add: shutdownTimeout_def)
  have dur: "\<And>i. 0 \<le> snd (demo_fresh, 5 :: int)" by simp
  have k: "3 < maxShutdownTicks" by (simp add: maxShutdownTicks_def)
  obtain g where "run_log demo_env (w_db demo_queued) ''run-1'' = [g]"
    using demo_started_ok(10) demo_queued_ok(2) by auto
  then have q: "drainable demo_env ?w"
    using demo_queued_ok(2-4) demo_started_ok(6,9)
    by (simp add: drainable_def del: ring_list_length)
      (simp add: demo_event_def zero_event_def go_len_def isTerminalState_def)
  have v: "queued ?w = [demo_event]" "open_tasks ?w = []" "IsHealthy ?w" "w_runID ?w = ''run-1''"
    using demo_queued_ok(3-6) by (simp_all add: queued_def open_tasks_def NewEventProcessor_def IsHealthy_def)
  have n: "\<not> closes [] demo_event" by (simp add: closes_def)
  from shutdown_drains [where ins = "\<lambda>_. (demo_fresh, 5)" and meanwhile = id and draining = id and strict = True, OF demo_ok t w ok cap now dur _ k, of 0]
  obtain c' es where c: "gracefulShutdown True demo_env (sqlite_repo True demo_env 0) alone (\<lambda>_. (demo_fresh, 5)) (Some 3) id id shutdownTimeout
      (NewEngine demo_queued (Some demo_observer)) = (c', Ok ())" "ring_list (w_ring (c_Worker c')) = []"
    "w_processed (c_Worker c') = w_processed demo_queued + 1" "IsHealthy (c_Worker c')" "\<not> db_open (w_db (c_Worker c'))"
    "run_log demo_env (w_db (c_Worker c')) ''run-1'' = run_log demo_env (w_db demo_queued) ''run-1'' @ es"
    "recorded True demo_env [] [demo_event] es"
    using q v demo_queued_ok(3) by auto
  from c(7) n obtain a where "es = [norm_event demo_env a]" "same_content demo_event a" by (auto simp: gains_def)
  then show ?thesis using c by blast
qed

end
