(* ===== verification/Component_Properties.thy ===== *)
theory Component_Properties
  imports Ledger_Run
begin

text \<open>
  Contracts of single components: the ring buffer behaves as a bounded queue under every sequence of
  operations, and what the store writes it reads back.
\<close>

section \<open>The ring buffer as a queue\<close>

datatype 'a ring_op = OpPush 'a | OpPop

datatype 'a ring_res = Pushed "unit outcome" | Popped "'a outcome"

fun ring_run :: "bool \<Rightarrow> 'a buffer \<Rightarrow> 'a ring_op list \<Rightarrow> 'a ring_res list" where
  "ring_run strict b [] = []"
| "ring_run strict b (OpPush x # ops) = (case Push strict b x of (b', r) \<Rightarrow> Pushed r # ring_run strict b' ops)"
| "ring_run strict b (OpPop # ops) = (case Pop strict b of (b', r) \<Rightarrow> Popped r # ring_run strict b' ops)"

fun queue_run :: "nat \<Rightarrow> 'a list \<Rightarrow> 'a ring_op list \<Rightarrow> 'a ring_res list" where
  "queue_run n xs [] = []"
| "queue_run n xs (OpPush x # ops) =
     (if length xs < n then Pushed (Ok ()) # queue_run n (xs @ [x]) ops
      else Pushed (Err ErrBufferFull) # queue_run n xs ops)"
| "queue_run n [] (OpPop # ops) = Popped (Err ErrBufferEmpty) # queue_run n [] ops"
| "queue_run n (x # xs) (OpPop # ops) = Popped (Ok x) # queue_run n xs ops"

lemma ring_run_queue:
  "ring_inv b \<Longrightarrow> ring_run strict b ops = queue_run (nat (bcapacity b)) (ring_list b) ops"
proof (induction ops arbitrary: b)
  case (Cons op ops)
  show ?case
  proof (cases op)
    case (OpPush x)
    show ?thesis
    proof (cases "length (ring_list b) < nat (bcapacity b)")
      case True
      obtain b' where b': "Push strict b x = (b', Ok ())" "ring_inv b'" "nat (bcapacity b') = nat (bcapacity b)"
        "ring_list b' = ring_list b @ [x]"
        using rb.push_room [OF Cons.prems True] by blast
      then show ?thesis using True Cons.IH [OF b'(2)] by (simp add: OpPush del: ring_list_length)
    next
      case False
      then have "length (ring_list b) = nat (bcapacity b)"
        using rb.cap_bound [OF Cons.prems] by (simp del: ring_list_length)
      then show ?thesis
        using False rb.push_full [OF Cons.prems] Cons.IH [OF Cons.prems] by (simp add: OpPush del: ring_list_length)
    qed
  next
    case OpPop
    show ?thesis
    proof (cases "ring_list b")
      case Nil
      then show ?thesis using rb.pop_empty [OF Cons.prems Nil] Cons.IH [OF Cons.prems] by (simp add: OpPop)
    next
      case (Cons x xs)
      obtain b' where b': "Pop strict b = (b', Ok x)" "ring_inv b'" "nat (bcapacity b') = nat (bcapacity b)" "ring_list b' = xs"
        using rb.pop_item [OF \<open>ring_inv b\<close> Cons] by blast
      then show ?thesis using Cons.IH [OF b'(2)] Cons by (simp add: OpPop)
    qed
  qed
qed simp

text \<open>
  C13. The ring buffer refines a bounded first-in-first-out queue: a buffer made with a capacity answers
  every sequence of pushes and pops, errors included, as a list of at most that many elements does.
\<close>

theorem ring_refines_queue:
  assumes "new_buffer strict zero cap = Ok b"
  shows "ring_run strict b ops = queue_run (nat cap) [] ops"
proof -
  have "ring_inv b" "ring_list b = []" "bcapacity b = cap"
    using assms by (auto simp: new_buffer_def ring_inv_def ring_list_def split: outcome.splits)
  then show ?thesis using ring_run_queue [of b strict ops] by simp
qed

theorem ring_refines_queue_witness:
  "\<exists>b. new_buffer True 0 2 = Ok b \<and> ring_run True b [OpPush (1 :: nat), OpPush 2, OpPush 3, OpPop, OpPush 4, OpPop, OpPop, OpPop]
    = [Pushed (Ok ()), Pushed (Ok ()), Pushed (Err ErrBufferFull), Popped (Ok 1), Pushed (Ok ()), Popped (Ok 2),
       Popped (Ok 4), Popped (Err ErrBufferEmpty)]"
proof -
  obtain b :: "nat buffer" where b: "new_buffer True 0 2 = Ok b" by (simp add: new_buffer_def)
  then show ?thesis
    using ring_refines_queue [OF b, of "[OpPush 1, OpPush 2, OpPush 3, OpPop, OpPush 4, OpPop, OpPop, OpPop]"] by auto
qed

section \<open>The store\<close>

text \<open>
  C14. What the store writes it reads back: after an event is stored as the next of its run, reading the
  run gives what it gave before followed by that event (its time in UTC, its two documents as JSON decodes
  them, the other columns as written), and every other run reads as before.
\<close>

theorem store_round_trip:
  assumes "crypto_ok (X :: crypto_env)" and "store_inv d" and "db_up d" and "event_ok e" and "RunID e \<noteq> ''''"
    and "GetAllEvents strict X d (RunID e) = Ok es" and "length es < 100000" and "SeqIndex e = of_nat (length es)"
    and "StoreEvent strict X d e = (d', Ok ())"
  shows "GetAllEvents strict X d' (RunID e) = Ok (es @ [norm_event X e])
    \<and> (\<forall>r. r \<noteq> RunID e \<longrightarrow> GetAllEvents strict X d' r = GetAllEvents strict X d r)"
proof -
  let ?R = "sqlite_repo strict X 0"
  have all: "repo_GetAllEvents ?R d' r = GetAllEvents strict X d' r" for d' r by (simp add: sqlite_repo_def)
  have read: "GetAllEvents strict X d'' r = Ok (take 100000 (run_log X d'' r))" if "store_inv d''" "db_up d''" "r \<noteq> ''''" for d'' r
    using sq.all_up [of d'' r strict X 0] sq.all_ok [of d'' strict X 0 r] that by (auto simp: is_ok_iff all maxEventRows_def)
  have empty: "GetAllEvents strict X d'' '''' = GetAllEvents strict X d ''''" for d''
    by (cases strict) (simp_all add: GetAllEvents_def)
  have es: "es = run_log X d (RunID e)"
    using read [OF assms(2,3,5)] assms(6,7) by auto
  have st: "repo_StoreEvent ?R d e = (d', Ok ())" using assms(9) by (simp add: sqlite_repo_def)
  have s: "store_inv d'" "db_up d'" "run_log X d' = (run_log X d)(RunID e := run_log X d (RunID e) @ [norm_event X e])"
    using sq.store_ok [OF float_conv_of_crypto [OF assms(1)] assms(2,4) _ st] assms(3,8) es by auto
  have "GetAllEvents strict X d' r = GetAllEvents strict X d r" if "r \<noteq> RunID e" for r
    using that read [OF s(1,2), of r] read [OF assms(2,3), of r] empty s(3) by (cases "r = ''''") auto
  then show ?thesis
    using read [OF s(1,2) assms(5)] s(3) assms(7) es by simp
qed

theorem store_round_trip_witness:
  "\<exists>d' es. StoreEvent True demo_env (w_db demo_started) (demo_event\<lparr>RunID := ''run-1'', SeqIndex := 1, CurrentHash := ''h'', Signature := ''s''\<rparr>) = (d', Ok ())
    \<and> GetAllEvents True demo_env d' ''run-1'' = Ok (es @ [norm_event demo_env (demo_event\<lparr>RunID := ''run-1'', SeqIndex := 1, CurrentHash := ''h'', Signature := ''s''\<rparr>)])
    \<and> GetAllEvents True demo_env (w_db demo_started) ''run-1'' = Ok es"
proof -
  let ?e = "demo_event\<lparr>RunID := ''run-1'', SeqIndex := 1, CurrentHash := ''h'', Signature := ''s''\<rparr>"
  let ?d = "w_db demo_started"
  obtain g where g: "run_log demo_env ?d ''run-1'' = [g]" using demo_started_ok(10) by blast
  have inv: "store_inv ?d" using demo_started_ok(1) by (auto simp: worker_ok_def ledger_ok_def)
  have e: "event_ok ?e" "RunID ?e \<noteq> ''''" "RunID ?e = ''run-1''"
    using demo_event_ok by (simp_all add: event_ok_def)
  have all: "GetAllEvents True demo_env ?d (RunID ?e) = Ok [g]"
    using sq.all_up [OF demo_started_ok(6), of "''run-1''" True demo_env 0] sq.all_ok [OF inv, of True demo_env 0 "''run-1''"] g
    by (auto simp: is_ok_iff sqlite_repo_def maxEventRows_def)
  have "snd (repo_StoreEvent (sqlite_repo True demo_env 0) ?d ?e) = Ok ()"
    using demo_started_ok(9) g
    by (intro sq.store_up [OF inv demo_started_ok(6) e(1)]) (simp_all add: demo_event_def zero_event_def)
  then obtain d' where st: "StoreEvent True demo_env ?d ?e = (d', Ok ())"
    by (cases "StoreEvent True demo_env ?d ?e") (simp add: sqlite_repo_def)
  have "length [g] < 100000" "SeqIndex ?e = of_nat (length [g])" by simp_all
  from store_round_trip [OF demo_ok inv demo_started_ok(6) e(1,2) all this st]
  show ?thesis using st all e(3) by auto
qed
section \<open>The pools\<close>

text \<open>What the requests do with the pools, in any order: take and give back events and buffers.\<close>

datatype pool_op = TakeEvent "nat option" | GiveEvent event | TakeBuffer "nat option" | GiveBuffer gobuffer

fun pool_step :: "bool \<Rightarrow> pool_op \<Rightarrow> pools \<Rightarrow> pools" where
  "pool_step strict (TakeEvent k) p = fst (GetEvent k p)"
| "pool_step strict (GiveEvent e) p = fst (PutEvent strict p (Some e))"
| "pool_step strict (TakeBuffer k) p = fst (GetBuffer k p)"
| "pool_step strict (GiveBuffer b) p = fst (PutBuffer strict p (Some b))"

fun gives_wf :: "pool_op \<Rightarrow> bool" where
  "gives_wf (GiveEvent e) = maps_wf e"
| "gives_wf op = True"

lemma pool_steps_clean: "clean_pools p \<Longrightarrow> list_all gives_wf ops \<Longrightarrow> clean_pools (fold (pool_step strict) ops p)"
proof (induction ops arbitrary: p)
  case (Cons op ops)
  have "clean_pools (pool_step strict op p)"
    using Cons.prems by (cases op) (simp_all add: ep.get_inv ep.put_inv bp.get_inv bp.put_inv)
  then show ?case using Cons by simp
qed simp

text \<open>
  C15. What the pools hand out is clean: however events and buffers have been taken and given back, in whatever
  order and with whatever contents, the next event that is taken has every field at its zero value and empty
  documents (only a time may be left), and the next buffer is empty. (The bytes behind a buffer that was
  given back may still be read by its last user; that is another property.)
\<close>

theorem pool_isolation:
  assumes "list_all gives_wf ops"
  shows "clean_event (snd (GetEvent k (fold (pool_step strict) ops empty_pools)))
    \<and> gb_len (snd (GetBuffer j (fold (pool_step strict) ops empty_pools))) = 0"
  using pool_steps_clean [OF empty_pools_clean assms] by (simp add: ep.get_clean bp.get_clean)

theorem pool_isolation_witness:
  "clean_event (snd (GetEvent (Some 0) (fold (pool_step True) [TakeEvent None, GiveEvent demo_event, GiveEvent demo_event] empty_pools)))
   \<and> eventPool (fold (pool_step True) [TakeEvent None, GiveEvent demo_event] empty_pools) \<noteq> []"
proof -
  have wf: "maps_wf demo_event" by (simp add: maps_wf_def demo_event_def zero_event_def gm_wf_def)
  have "eventPool (fst (PutEvent True p (Some demo_event))) \<noteq> []" for p
    by (simp add: PutEvent_def demo_event_def zero_event_def go_len_def maxEventFields_def)
  then show ?thesis
    using pool_isolation [of "[TakeEvent None, GiveEvent demo_event, GiveEvent demo_event]" "Some 0" True] wf by simp
qed

end
