(* ===== verification/Sha256_Vectors.thy ===== *)
theory Sha256_Vectors
  imports Sha256
begin

text \<open>
  A test vector of FIPS 180-4, evaluated by the kernel: the executable hash the ledger's links are
  computed with is SHA-256.
\<close>

lemma sha256_abc:
  "hex_encode (sha256 (bytes_of ''abc'')) =
     ''ba7816bf8f01cfea414140de5dae2223b00361a396177a9cb410ff61f20015ad''"
  by code_simp

end
