(* ===== verification/Mock_Agent.thy ===== *)
theory Mock_Agent
  imports Cli_Console
begin

text \<open>
  The load driver \<^verbatim>\<open>src/research/mock_agent.go\<close>: four groups of calls through the proxy and a summary. Its
  state is \<open>TestResults\<close> with the lines logged so far (without the time in front of each). The network is an
  argument: \<open>net k\<close> answers the \<open>k\<close>-th request with a body or an error, and \<open>lat k\<close> is the time it took.
\<close>

section \<open>State\<close>

record TestResults =
  TotalCalls :: int
  SuccessfulCalls :: int
  FailedCalls :: int
  Latencies :: "int list"
  AverageLatency :: int
  MaxLatency :: int
  StallDetected :: bool
  agent_log :: "string list"

definition no_results :: TestResults where
  "no_results = \<lparr>TotalCalls = 0, SuccessfulCalls = 0, FailedCalls = 0, Latencies = [], AverageLatency = 0,
     MaxLatency = 0, StallDetected = False, agent_log = []\<rparr>"

definition logs :: "string list \<Rightarrow> TestResults \<Rightarrow> TestResults" where
  "logs ls r = r\<lparr>agent_log := agent_log r @ ls\<rparr>"

abbreviation millisecond :: int where
  "millisecond \<equiv> 1000000"

type_synonym network = "nat \<Rightarrow> string \<Rightarrow> string outcome"

definition rule_line :: string where
  "rule_line = replicate 40 CHR ''=''"

section \<open>Requests\<close>

definition mcp_request :: "int \<Rightarrow> string \<Rightarrow> goval gomap \<Rightarrow> goval" where
  "mcp_request i mthd params =
     GMap [(''id'', GInt (word_of_int i)), (''jsonrpc'', GStr ''2.0''), (''method'', GStr mthd), (''params'', GMap params)]"

definition sendMCPRequest ::
    "('a) float_conv_scheme \<Rightarrow> network \<Rightarrow> TestResults \<Rightarrow> goval \<Rightarrow> goval gomap option outcome" where
  "sendMCPRequest F net r req =
     (let body = (case Marshal F req of Ok s \<Rightarrow> s | _ \<Rightarrow> '''') in
      bind_outcome (net (nat (TotalCalls r)) body) (UnmarshalMap F))"

text \<open>\<^verbatim>\<open>m[k].(map[string]interface{})\<close> and \<^verbatim>\<open>m[k].(string)\<close> panic when the entry is missing or of another type.\<close>

definition entry :: "goval gomap option \<Rightarrow> string \<Rightarrow> goval" where
  "entry m k = (case m of None \<Rightarrow> GNil | Some kvs \<Rightarrow> (case gm_lookup kvs k of None \<Rightarrow> GNil | Some v \<Rightarrow> v))"

definition as_map :: "goval \<Rightarrow> goval gomap outcome" where
  "as_map v = (case v of GMap kvs \<Rightarrow> Ok kvs | _ \<Rightarrow> Panic (RuntimeError ''interface conversion''))"

definition as_string :: "goval \<Rightarrow> string outcome" where
  "as_string v = (case v of GStr s \<Rightarrow> Ok s | _ \<Rightarrow> Panic (RuntimeError ''interface conversion''))"

section \<open>Test 1\<close>

definition rapid_calls :: "(string \<times> string \<times> goval gomap) list" where
  "rapid_calls =
     [(''Google Search'', ''google_search:query'', [(''q'', GStr ''test'')]),
      (''Slack Search'', ''slack:search'', [(''query'', GStr ''status'')]),
      (''Weather API'', ''weather:get'', [(''city'', GStr ''NYC'')]),
      (''Database Read'', ''db:query'', [(''sql'', GStr ''SELECT * FROM users LIMIT 10'')]),
      (''File Read'', ''fs:read'', [(''path'', GStr ''/tmp/test.txt'')])]"

definition maxCalls :: nat where
  "maxCalls = 32"

definition rapid_call ::
    "('a) float_conv_scheme \<Rightarrow> network \<Rightarrow> (nat \<Rightarrow> int) \<Rightarrow> nat \<Rightarrow> string \<times> string \<times> goval gomap \<Rightarrow> TestResults
       \<Rightarrow> TestResults \<times> unit outcome" where
  "rapid_call F net lat i call r =
     (case call of (name, mthd, params) \<Rightarrow>
        (let answer = sendMCPRequest F net r (mcp_request (int i + 1) mthd params);
             latency = lat (nat (TotalCalls r));
             r1 = r\<lparr>TotalCalls := TotalCalls r + 1, Latencies := Latencies r @ [latency],
                    MaxLatency := max (MaxLatency r) latency\<rparr>;
             label = ''Call '' @ show_nat (i + 1) @ '' ('' @ name @ '')'' in
         case answer of
           Panic e \<Rightarrow> (r, Panic e)
         | Err e \<Rightarrow> (logs [''   [FAIL] '' @ label @ '' failed: '' @ error_msg e]
                      (r1\<lparr>FailedCalls := FailedCalls r1 + 1\<rparr>), Ok ())
         | Ok resp \<Rightarrow>
             (logs [''   ['' @ (if latency > millisecond then ''WARN'' else ''OK'') @ ''] '' @ label @ '' - Latency: ''
                 @ show_duration latency] (r1\<lparr>SuccessfulCalls := SuccessfulCalls r1 + 1\<rparr>), Ok ())))"

fun rapid_loop ::
    "('a) float_conv_scheme \<Rightarrow> network \<Rightarrow> (nat \<Rightarrow> int) \<Rightarrow> nat \<Rightarrow> (string \<times> string \<times> goval gomap) list \<Rightarrow> TestResults
       \<Rightarrow> TestResults \<times> unit outcome" where
  "rapid_loop F net lat i [] r = (r, Ok ())"
| "rapid_loop F net lat i (call # calls) r =
     (case rapid_call F net lat i call r of
        (r', Ok _) \<Rightarrow> rapid_loop F net lat (Suc i) calls r'
      | (r', x) \<Rightarrow> (r', x))"

definition maxLatencies :: nat where
  "maxLatencies = 10000"

text \<open>Go's integer division, which truncates.\<close>

definition go_quot :: "int \<Rightarrow> int \<Rightarrow> int" where
  "go_quot a b = (if 0 \<le> a then a div b else - (- a div b))"

definition average_latency :: "TestResults \<Rightarrow> TestResults" where
  "average_latency r =
     (if Latencies r = [] then r
      else r\<lparr>AverageLatency := go_quot (sum_list (take maxLatencies (Latencies r))) (int (length (Latencies r)))\<rparr>)"

definition testRapidFireAllowActions ::
    "('a) float_conv_scheme \<Rightarrow> network \<Rightarrow> (nat \<Rightarrow> int) \<Rightarrow> TestResults \<Rightarrow> TestResults \<times> unit outcome" where
  "testRapidFireAllowActions F net lat r =
     (case rapid_loop F net lat 0 (take maxCalls rapid_calls)
             (logs [''   Sending '' @ show_nat (length rapid_calls) @ '' rapid-fire calls to :9999...''] r) of
        (r1, Ok _) \<Rightarrow>
          (let r2 = average_latency r1 in
           (logs [nl @ ''   Average Latency: '' @ show_duration (AverageLatency r2),
                  ''   Max Latency: '' @ show_duration (MaxLatency r2),
                  if AverageLatency r2 < millisecond
                  then ''   [PASS] Average latency < 1ms (Target achieved)''
                  else ''   [WARN] Average latency > 1ms (Performance optimization needed)''] r2, Ok ()))
      | (r1, x) \<Rightarrow> (r1, x))"

section \<open>Tests 2 to 4\<close>

text \<open>One counted call: what is done with its answer, or the line of its failure.\<close>

definition counted_call ::
    "('a) float_conv_scheme \<Rightarrow> network \<Rightarrow> goval \<Rightarrow> string
       \<Rightarrow> (goval gomap option \<Rightarrow> TestResults \<Rightarrow> TestResults \<times> unit outcome) \<Rightarrow> TestResults \<Rightarrow> TestResults \<times> unit outcome" where
  "counted_call F net req failure k r =
     (let r1 = r\<lparr>TotalCalls := TotalCalls r + 1\<rparr> in
      case sendMCPRequest F net r req of
        Panic e \<Rightarrow> (r, Panic e)
      | Err e \<Rightarrow> (logs [failure @ error_msg e] (r1\<lparr>FailedCalls := FailedCalls r1 + 1\<rparr>), Ok ())
      | Ok resp \<Rightarrow> k resp (r1\<lparr>SuccessfulCalls := SuccessfulCalls r1 + 1\<rparr>))"

definition poll_task ::
    "('a) float_conv_scheme \<Rightarrow> network \<Rightarrow> string \<Rightarrow> TestResults \<Rightarrow> TestResults \<times> unit outcome" where
  "poll_task F net taskID r =
     counted_call F net (mcp_request 101 ''tasks/get'' [(''task_id'', GStr taskID)])
       ''   [FAIL] Failed to poll task: '' (\<lambda>resp r1.
       case bind_outcome (as_map (entry resp ''result'')) (\<lambda>res. as_string (entry (Some res) ''state'')) of
         Ok state \<Rightarrow>
           (logs [''   [OK] Task polled: ID='' @ taskID @ '', State='' @ state,
                  ''   [PASS] SEP-1686 async task flow working''] r1, Ok ())
       | Err e \<Rightarrow> (r1, Err e)
       | Panic e \<Rightarrow> (r1, Panic e)) r"

definition testAsyncTaskFlow ::
    "('a) float_conv_scheme \<Rightarrow> network \<Rightarrow> TestResults \<Rightarrow> TestResults \<times> unit outcome" where
  "testAsyncTaskFlow F net r =
     counted_call F net (mcp_request 100 ''tools/call'' [(''args'', GMap [(''duration'', GInt 5)]),
         (''name'', GStr ''long_running_task'')])
       ''   [FAIL] Failed to start task: '' (\<lambda>resp r1.
       case bind_outcome (as_map (entry resp ''result'')) (\<lambda>res.
            bind_outcome (as_string (entry (Some res) ''task_id'')) (\<lambda>taskID.
            bind_outcome (as_string (entry (Some res) ''state'')) (\<lambda>state. Ok (taskID, state)))) of
         Ok (taskID, state) \<Rightarrow>
           poll_task F net taskID (logs [''   [OK] Task created: ID='' @ taskID @ '', State='' @ state,
             ''   Step 2: Poll task status...''] r1)
       | Err e \<Rightarrow> (r1, Err e)
       | Panic e \<Rightarrow> (r1, Panic e)) (logs [''   Step 1: Start long-running task...''] r)"

definition testPolicyStall ::
    "('a) float_conv_scheme \<Rightarrow> network \<Rightarrow> (nat \<Rightarrow> int) \<Rightarrow> TestResults \<Rightarrow> TestResults \<times> unit outcome" where
  "testPolicyStall F net lat r =
     (let duration = lat (nat (TotalCalls r)) in
      counted_call F net (mcp_request 200 ''aws:ec2:launch'' [(''ami'', GStr ''ami-12345''),
          (''instance_type'', GStr ''t2.micro'')]) ''   [FAIL] Failed: '' (\<lambda>resp r1.
        (logs ([''   [OK] Request completed after '' @ show_duration duration,
                if duration > 1000 * millisecond
                then ''   [PASS] Stall detected (took '' @ show_duration duration @ '', indicating manual approval)''
                else ''   [WARN] No stall detected (took only '' @ show_duration duration @ '')'']
               @ (if entry resp ''result'' \<noteq> GNil then [''   [OK] Response received after approval''] else []))
           (r1\<lparr>StallDetected := StallDetected r1 \<or> duration > 1000 * millisecond\<rparr>), Ok ()))
        (logs [''   Triggering critical infrastructure call (aws:ec2:launch)...'',
               ''   NOTE: This should trigger a STALL in the proxy''] r))"

definition testAsyncWorkerPersistence ::
    "('a) float_conv_scheme \<Rightarrow> network \<Rightarrow> TestResults \<Rightarrow> TestResults \<times> unit outcome" where
  "testAsyncWorkerPersistence F net r =
     (let r0 = logs [''   Sending request and closing connection immediately...''] r in
      case sendMCPRequest F net r0 (mcp_request 300 ''fs:write'' [(''data'', GStr ''test data''), (''path'', GStr ''/tmp/test.txt'')]) of
        Panic e \<Rightarrow> (r0, Panic e)
      | _ \<Rightarrow>
          (logs [''   [OK] Connection closed immediately'',
                 ''   [INFO] Check Logryph console logs to verify event was still logged'',
                 ''   [PASS] If you see the fs:write event in Logryph logs, async worker is working'']
             (r0\<lparr>TotalCalls := TotalCalls r0 + 1, SuccessfulCalls := SuccessfulCalls r0 + 1\<rparr>), Ok ()))"

section \<open>The summary and the program\<close>

definition maxChecks :: nat where
  "maxChecks = 16"

definition phase_checks :: "TestResults \<Rightarrow> (string \<times> bool) list" where
  "phase_checks r =
     [(''Proxy forwards requests'', SuccessfulCalls r > 0),
      (''Latency < 1ms (for allow actions)'', AverageLatency r < millisecond),
      (''Stall policy working'', StallDetected r),
      (''SEP-1686 task tracking'', True),
      (''Async worker persistence'', True)]"

definition printResults :: "TestResults \<Rightarrow> TestResults" where
  "printResults r =
     (let checks = take maxChecks (phase_checks r) in
      logs ([nl @ rule_line, ''TEST RESULTS SUMMARY'', rule_line,
             ''Total Calls:       '' @ show_int (TotalCalls r),
             ''Successful:        '' @ show_int (SuccessfulCalls r),
             ''Failed:            '' @ show_int (FailedCalls r),
             ''Average Latency:   '' @ show_duration (AverageLatency r),
             ''Max Latency:       '' @ show_duration (MaxLatency r),
             ''Stall Detected:    '' @ (if StallDetected r then ''true'' else ''false''),
             nl @ ''PHASE 1 VERIFICATION:'']
            @ map (\<lambda>(name, passed). (if passed then ''[PASS]'' else ''[FAIL]'') @ '' '' @ name) checks
            @ [nl @ rule_line,
               if list_all snd checks then ''ALL TESTS PASSED - Phase 1 is production-ready''
               else ''SOME TESTS FAILED - Review results above'',
               rule_line]) r)"

definition after :: "TestResults \<times> unit outcome \<Rightarrow> (TestResults \<Rightarrow> TestResults \<times> unit outcome) \<Rightarrow> TestResults \<times> unit outcome" where
  "after x k = (case x of (r, Ok _) \<Rightarrow> k r | (r, y) \<Rightarrow> (r, y))"

definition mock_agent ::
    "('a) float_conv_scheme \<Rightarrow> network \<Rightarrow> (nat \<Rightarrow> int) \<Rightarrow> TestResults \<times> unit outcome" where
  "mock_agent F net lat =
     after (testRapidFireAllowActions F net lat (logs [''Mock Agent Test Suite'', rule_line, ''Prerequisites:'',
         ''   1. Start mock MCP server: go run tests/mock_mcp_server.go'', ''   2. Start Logryph proxy: ./logryph'',
         ''   3. Then run this test'', rule_line, nl @ ''Test 1: Rapid-fire low-risk tool calls''] no_results)) (\<lambda>r1.
     after (testAsyncTaskFlow F net (logs [nl @ ''Test 2: SEP-1686 Async Task Flow''] r1)) (\<lambda>r2.
     after (testPolicyStall F net lat (logs [nl @ ''Test 3: Policy Stall Detection (Critical Infrastructure)'',
         ''NOTE: Test will complete automatically without user input''] r2)) (\<lambda>r3.
     after (testAsyncWorkerPersistence F net (logs [nl @ ''Test 4: Async Worker Verification''] r3)) (\<lambda>r4.
     (printResults r4, Ok ())))))"

section \<open>Lemmas\<close>

text \<open>Every call is counted once, as a success or as a failure.\<close>

definition balanced :: "TestResults \<Rightarrow> bool" where
  "balanced r \<longleftrightarrow> TotalCalls r = SuccessfulCalls r + FailedCalls r \<and> 0 \<le> SuccessfulCalls r \<and> 0 \<le> FailedCalls r"

lemma balanced_logs [simp]: "balanced (logs ls r) = balanced r"
  by (simp add: balanced_def logs_def)

lemma rapid_call_balanced: "balanced r \<Longrightarrow> balanced (fst (rapid_call F net lat i call r))"
  by (auto simp: rapid_call_def balanced_def logs_def Let_def split: outcome.splits prod.splits)

lemma rapid_loop_balanced: "balanced r \<Longrightarrow> balanced (fst (rapid_loop F net lat i calls r))"
proof (induction calls arbitrary: i r)
  case (Cons call calls)
  then show ?case
    using rapid_call_balanced [OF Cons.prems, of F net lat i call] by (auto split: prod.splits outcome.splits)
qed simp

lemma counted_call_balanced:
  assumes "balanced r" and "\<And>resp r'. balanced r' \<Longrightarrow> balanced (fst (k resp r'))"
  shows "balanced (fst (counted_call F net req failure k r))"
proof -
  have "balanced (r\<lparr>TotalCalls := TotalCalls r + 1, SuccessfulCalls := SuccessfulCalls r + 1\<rparr>)"
    "balanced (r\<lparr>TotalCalls := TotalCalls r + 1, FailedCalls := FailedCalls r + 1\<rparr>)"
    using assms(1) by (simp_all add: balanced_def)
  then show ?thesis using assms by (auto simp: counted_call_def Let_def split: outcome.splits)
qed

lemma after_balanced:
  "balanced (fst x) \<Longrightarrow> (\<And>r. balanced r \<Longrightarrow> balanced (fst (k r))) \<Longrightarrow> balanced (fst (after x k))"
  by (auto simp: after_def split: prod.splits outcome.splits)

lemma rapid_test_balanced: "balanced r \<Longrightarrow> balanced (fst (testRapidFireAllowActions F net lat r))"
proof -
  assume "balanced r"
  then have "balanced (logs ls r)" for ls by simp
  note b = rapid_loop_balanced [OF this, of F net lat]
  have "balanced (average_latency r') = balanced r'" for r' by (simp add: balanced_def average_latency_def)
  then show ?thesis
    using b by (auto simp: testRapidFireAllowActions_def Let_def split: prod.splits outcome.splits) (metis fst_conv)+
qed

lemma task_test_balanced: "balanced r \<Longrightarrow> balanced (fst (testAsyncTaskFlow F net r))"
  unfolding testAsyncTaskFlow_def poll_task_def
  by (intro counted_call_balanced) (auto split: outcome.splits prod.splits intro!: counted_call_balanced)

lemma stall_test_balanced: "balanced r \<Longrightarrow> balanced (fst (testPolicyStall F net lat r))"
  unfolding testPolicyStall_def Let_def by (intro counted_call_balanced) (auto simp: balanced_def logs_def)

lemma persistence_test_balanced: "balanced r \<Longrightarrow> balanced (fst (testAsyncWorkerPersistence F net r))"
  by (auto simp: testAsyncWorkerPersistence_def balanced_def logs_def Let_def split: outcome.splits)

lemma mock_agent_balanced: "balanced (fst (mock_agent F net lat))"
proof -
  have "balanced no_results" by (simp add: balanced_def no_results_def)
  moreover have "balanced (printResults r) = balanced r" for r by (simp add: printResults_def Let_def)
  ultimately show ?thesis
    unfolding mock_agent_def
    by (intro after_balanced rapid_test_balanced task_test_balanced stall_test_balanced persistence_test_balanced) simp_all
qed

end
