(* ===== verification/Spec2Isabelle.thy ===== *)
theory Spec2Isabelle
  imports Cli_Properties Server_Properties Component_Properties Sha256_Vectors Mock_Agent
begin

text \<open>
  Verification of Logryph, a proxy between an agent and its tools that records every call in a
  hash-chained, signed ledger. Paths are under \<^verbatim>\<open>src/\<close>.

  \<^bold>\<open>The program.\<close> The proxy (\<^verbatim>\<open>internal/interceptor\<close>) reads each request and response, looks up the first
  matching policy (\<^verbatim>\<open>internal/observer\<close>), may redact the forwarded body, and submits an event to the worker
  (\<^verbatim>\<open>internal/ledger/worker.go\<close>). The worker keeps a ring buffer (\<^verbatim>\<open>internal/ring\<close>); its goroutine takes one
  event at a time to the processor (\<^verbatim>\<open>processor.go\<close>), which numbers, links, hashes and signs it
  (\<^verbatim>\<open>internal/crypto\<close>) and writes it to SQLite (\<^verbatim>\<open>internal/ledger/store\<close>). A run begins with a genesis event
  (\<^verbatim>\<open>genesis.go\<close>); the audit (\<^verbatim>\<open>internal/ledger/audit\<close>) checks a stored run. Events and byte buffers are
  recycled (\<^verbatim>\<open>internal/pool\<close>). An admin API (\<^verbatim>\<open>internal/api\<close>) serves probes, metrics and key rotation;
  \<^verbatim>\<open>main.go\<close> starts and stops all of it; \<^verbatim>\<open>cmd/logyctl\<close> is the command line tool over the same database.

  \<^bold>\<open>Conventions.\<close> A fallible operation returns an \<open>outcome\<close>: \<open>Ok\<close>, \<open>Err\<close> (a Go error) or \<open>Panic\<close>. An operation
  on state takes the state and returns it with the outcome. The argument \<open>strict\<close> is \<^verbatim>\<open>assert.StrictMode\<close>: a
  failed assertion panics when it is set (the default) and is an error when it is not. Machine integers are words of their
  width, \<^verbatim>\<open>int\<close> is an unbounded integer where the code cannot leave its range. A Go map is a key-sorted
  association list, which is the order in which it is printed. A float is the word of its bits. What comes
  from outside (time, random bytes, identifiers, the choice of a pool, HTTP answers, errors of the disk and
  the driver) is an argument. A call made under a mutex is one step; where other goroutines can act in
  between, what they do is an argument (\<open>others\<close>, \<open>race\<close>, \<open>meanwhile\<close>), which is the identity (\<open>alone\<close>, \<open>id\<close>)
  in a property that assumes that nobody acts there.

  \<^bold>\<open>Theories and the code they model.\<close>
  \<^item> \<open>Logryph_Prelude\<close>: outcomes, Go maps and slices, the collections of simplification rules.
    \<open>Go_Assert\<close>: \<^verbatim>\<open>internal/assert\<close>.
  \<^item> \<open>Go_Time\<close>, \<open>Go_Json\<close>, \<open>Json_Values\<close>, \<open>Json_Decoder\<close>, \<open>Go_Text\<close>, \<open>Go_Flags\<close>: what the code uses of the
    standard library: RFC 3339 and other layouts, JSON printing and parsing (with UTF-8 repair, escapes and
    nesting limit), durations, flag parsing. The round trip of printing and parsing is proved there.
  \<^item> \<open>Sha256\<close>, \<open>Sha256_Vectors\<close>: the hash function, computed, with the published test vectors.
  \<^item> \<open>Ring_Buffer\<close>: \<^verbatim>\<open>internal/ring/buffer.go\<close>. The contract \<open>bounded_queue\<close> is a locale that the ring interprets.
  \<^item> \<open>Event_Model\<close>: \<^verbatim>\<open>internal/models\<close> and the hashed payload. \<open>Crypto_Engine\<close>: \<^verbatim>\<open>internal/crypto\<close>.
    \<open>Event_Pool\<close>, \<open>Byte_Buffer\<close>: \<^verbatim>\<open>internal/pool\<close> and the byte arrays behind \<^verbatim>\<open>bytes.Buffer\<close>, so that sharing shows;
    both pools interpret the contract \<open>recycling_pool\<close>.
  \<^item> \<open>Ledger_Interface\<close>: \<^verbatim>\<open>internal/ledger/interface.go\<close> with the contract \<open>event_repository\<close>;
    \<open>Event_Store\<close>: \<^verbatim>\<open>internal/ledger/store\<close>, which interprets it.
  \<^item> \<open>Event_Processor\<close>, \<open>Anchor_Fetch\<close>, \<open>Genesis_Block\<close>, \<open>Ledger_Worker\<close>: \<^verbatim>\<open>processor.go\<close>, \<^verbatim>\<open>audit/anchor.go\<close>, \<^verbatim>\<open>genesis.go\<close>,
    \<^verbatim>\<open>worker.go\<close>; their lemmas are proved over any repository that meets the contract.
    \<open>Chain_Audit\<close>: \<^verbatim>\<open>audit/verify.go\<close>.
  \<^item> \<open>Ledger_Run\<close>: the worker over the store as a transition system (\<open>worker_run\<close>) in which submissions,
    rounds of the worker, anchors, faults and the start of shutdown interleave, each as one undisturbed step
    during which the faults stay as they are; the key is not rotated in it. \<open>Runs_Table\<close>: the runs
    table along such a run. \<open>Worker_Drain\<close>: when a drain loop that runs alone comes to its end.
  \<^item> \<open>Observer\<close>, \<open>Mcp_Message\<close>, \<open>Interceptor\<close>: \<^verbatim>\<open>internal/observer\<close>, \<^verbatim>\<open>internal/mcp\<close>, \<^verbatim>\<open>internal/interceptor\<close> and
    \<^verbatim>\<open>internal/core\<close>. \<open>Logging\<close>: \<^verbatim>\<open>internal/logging\<close>. \<open>Admin_Api\<close>: \<^verbatim>\<open>internal/api\<close>. \<open>Server_Main\<close>: \<^verbatim>\<open>main.go\<close>.
  \<^item> \<open>Cli_Console\<close> (the console, the exit status, the database file), \<open>Cli_Trace\<close>, \<open>Cli_Analytics\<close>, \<open>Cli_Keys\<close>,
    \<open>Cli_Evidence\<close>, \<open>Cli_Main\<close>: \<^verbatim>\<open>cmd/logyctl\<close>, one theory per group of commands.
  \<^item> \<open>Mock_Agent\<close>: the load driver \<^verbatim>\<open>research/mock_agent.go\<close>, with the invariant of its counters.
  \<^item> \<open>Demo_Environment\<close>: a concrete instance of every parameter, on which the witnesses run.

  \<^bold>\<open>What is shown.\<close>
  \<^item> \<open>Ledger_Run\<close>: along every run the audit accepts what has been written; events are neither lost,
    duplicated nor reordered between submission and processing; while the worker is healthy the ledger has
    grown by exactly the record of the processed events, judged with the tasks that were open at each
    (\<open>recorded\<close>), completion entries included in strict mode; a fault at any point leaves a valid
    chain; a queued event is recorded by the next round when nothing fails.
  \<^item> \<open>Audit_Properties\<close>: the audit accepts exactly the well-formed chains; of two accepted runs with the same
    last hash the shorter holds the documents of the end of the longer, up to the sign of zero, or a collision
    is exhibited; the document determines the event. Two limits are shown as well: a removed prefix and the
    rows past the limit of the reader go unnoticed.
  \<^item> \<open>Proxy_Properties\<close>: which policy applies, what is forwarded, what is recorded, how the policy file is
    watched; and the consequences of sharing a pooled buffer, of recording before redaction, of dropping.
  \<^item> \<open>Service_Properties\<close>: the readiness probe tells whether rounds recorded their events, key rotation on every
    branch and what it does to the audit, which calls the log keeps and that each is one line.
  \<^item> \<open>Server_Properties\<close>: the process comes up with a ledger that audits, a shutdown whose goroutines stop in
    time returns with the queue empty and recorded, a redacted call of another length is sent with a wrong
    declared length.
  \<^item> \<open>Cli_Properties\<close>: the trace shows each event once, verification accepts what the worker wrote and its
    exit status is the verdict, keys survive backup and restore, what an evidence bag holds; and what
    replay and rekey fail to do.
  \<^item> \<open>Component_Properties\<close>: the ring refines a bounded queue, the store reads back what it writes,
    the objects the pools hand out are clean.

  \<^bold>\<open>Bounds.\<close> The bounds of the model are those of the code: 100000 rows and events per audit, 100000 nodes and
  10000 roots of a trace, 1000 attempts to submit in block mode, the drain bound \<open>maxDrainEvents\<close> (the ring is never larger, so
  \<open>shutdown_drains\<close> shows that it is enough), \<^verbatim>\<open>2^30\<close> ticks of the watcher. Loops over a bound are recursions on
  it; every function is total and there is no fuel of the model's own.

  \<^bold>\<open>Parameters.\<close> Ed25519 (\<open>ed_ok\<close>: key sizes, signatures verify), canonical JSON (\<open>jcs_ok\<close>: it is JSON for the
  value, with a negative zero printed as zero) and the shortest decimal text of a float (\<open>float_conv_ok\<close>: it
  parses back) are not in the repository; they are fields of the environment, with these laws together as
  the hypothesis \<open>crypto_ok\<close>. That a key does not accept the signatures of another one (\<open>keys_separate\<close>) is a
  hypothesis of the one property that needs it. The YAML decoder, the HTTP client, the round trip to the tool
  server and the zip writer with the file system around it are arguments without laws.

  \<^bold>\<open>Not modelled.\<close> Binding sockets, waiting for signals and the log output of \<^verbatim>\<open>main.go\<close>; what a file holds after
  a write that failed; the bytes of a zip archive around its entries; the body of SQLite
  beyond the two tables (locking, WAL, durability); the scheduling of goroutines below the granularity of a
  locked call; the HTTP server's own header handling. \<^verbatim>\<open>SendErrorResponse\<close> has an empty body.
  \<^verbatim>\<open>_experiments/mock_agent.go\<close> is an earlier copy of \<^verbatim>\<open>research/mock_agent.go\<close>. \<^verbatim>\<open>assert_release.go\<close> cannot be
  built together with \<^verbatim>\<open>assert.go\<close>, which declares the same function without a build constraint.
\<close>

end
